(* ===== verification/Prelude.thy ===== *)
theory Prelude
  imports Main "HOL-Library.Word" "HOL-Library.Sublist"
begin

text \<open>
  What every component of the payment orchestrator shares: the Go types the sources use
  (int64 amounts and durations, instants, strings), the errors as one sum type with Go's
  \<open>errors.Is\<close>, the pieces of the standard library the handlers call (\<open>strings\<close>,
  \<open>strconv\<close>, \<open>time\<close>, \<open>hex\<close>), and the generic lemmas on words, lists and chains
  that carry the component proofs.
\<close>

section \<open>Types\<close>

text \<open>
  Go's \<open>int64\<close> is a 64-bit word read in two's complement: \<open>+\<close> and \<open>-\<close> wrap around as
  they do in Go, and the comparisons are the signed ones. An instant is its number of
  nanoseconds since the Unix epoch; a duration is an int64 number of nanoseconds.
\<close>

type_synonym int64 = "64 word"
type_synonym duration = int64
type_synonym time = int
type_synonym bytes = string

text \<open>The development's own collections of rewrite rules.\<close>

named_theorems go_defs \<open>definitions of Go library helpers, unfolded on demand\<close>
named_theorems frame \<open>what an operation leaves unchanged\<close>

section \<open>Errors\<close>

text \<open>
  One constructor per sentinel error of the sources (\<open>ErrNoRows\<close> is the one of package pgx); \<open>ErrorString\<close> is an
  \<open>errors.New\<close> at the point of use, and \<open>Errorf pre e post\<close> is
  \<open>fmt.Errorf\<close> with the verb for wrapping: its text is \<open>pre\<close>, the text of \<open>e\<close>,
  then \<open>post\<close>, and \<open>errors.Is\<close> looks through it.
\<close>

datatype error =
    ErrInvalidTransition | ErrTerminalState
  | ErrNotFound | ErrDuplicateWebhook
  | ErrAuthorize | ErrCapture | ErrRefund | ErrVoid | Err3DSVerify | ErrUnsupported3DS
  | ErrChallengeFailed | ErrTimeout
  | ErrNoRows
  | ErrorString string
  | Errorf string error string

fun error_text :: "error \<Rightarrow> string" where
  "error_text ErrInvalidTransition = ''invalid state transition''"
| "error_text ErrTerminalState = ''intent is in a terminal state''"
| "error_text ErrNotFound = ''intent not found''"
| "error_text ErrDuplicateWebhook = ''duplicate webhook''"
| "error_text ErrAuthorize = ''rail authorize failed''"
| "error_text ErrCapture = ''rail capture failed''"
| "error_text ErrRefund = ''rail refund failed''"
| "error_text ErrVoid = ''rail void failed''"
| "error_text Err3DSVerify = ''rail 3ds verification failed''"
| "error_text ErrUnsupported3DS = ''rail does not support 3ds''"
| "error_text ErrChallengeFailed = ''3ds challenge failed''"
| "error_text ErrTimeout = ''3ds challenge timed out''"
| "error_text ErrNoRows = ''no rows in result set''"
| "error_text (ErrorString s) = s"
| "error_text (Errorf pre e post) = pre @ error_text e @ post"

text \<open>
  \<open>errors.Is\<close> against a sentinel: the error itself or one it wraps. Values made by
  \<open>errors.New\<close> at their point of use are distinct from every sentinel.
\<close>

fun errors_Is :: "error \<Rightarrow> error \<Rightarrow> bool" where
  "errors_Is (Errorf pre e post) target = errors_Is e target"
| "errors_Is e target = (e = target)"

section \<open>The standard library pieces the sources use\<close>

subsection \<open>time\<close>

definition max_int64 :: int where
  "max_int64 = 2 ^ 63 - 1"

definition min_int64 :: int where
  "min_int64 = - (2 ^ 63)"

text \<open>
  \<open>Time.Sub\<close> (and so \<open>time.Since\<close>) saturates: a difference that does not fit a
  duration is the largest or the smallest one.
\<close>

definition time_Sub :: "time \<Rightarrow> time \<Rightarrow> duration" where
  "time_Sub t u = word_of_int (max min_int64 (min max_int64 (t - u)))"

definition time_Add :: "time \<Rightarrow> duration \<Rightarrow> time" where
  "time_Add t d = t + sint d"

text \<open>
  \<open>time.Unix(sec, 0)\<close>: the seconds are kept relative to year 1 in an int64, so adding the
  offset of the Unix epoch wraps around.
\<close>

definition unixToInternal :: int64 where
  "unixToInternal = 62135596800"

definition time_Unix :: "int64 \<Rightarrow> time" where
  "time_Unix s = (sint (s + unixToInternal) - sint unixToInternal) * 1000000000"

subsection \<open>strings and hex\<close>

definition strings_HasPrefix :: "string \<Rightarrow> string \<Rightarrow> bool" where
  "strings_HasPrefix s p = prefix p s"

definition strings_TrimPrefix :: "string \<Rightarrow> string \<Rightarrow> string" where
  "strings_TrimPrefix s p = (if prefix p s then drop (length p) s else s)"

definition strings_HasSuffix :: "string \<Rightarrow> string \<Rightarrow> bool" where
  "strings_HasSuffix s p = suffix p s"

definition strings_TrimSuffix :: "string \<Rightarrow> string \<Rightarrow> string" where
  "strings_TrimSuffix s p = (if suffix p s then take (length s - length p) s else s)"

text \<open>\<open>strings.TrimRight\<close> with a cutset of one character.\<close>

fun trim_left_char :: "char \<Rightarrow> string \<Rightarrow> string" where
  "trim_left_char c [] = []"
| "trim_left_char c (x # xs) = (if x = c then trim_left_char c xs else x # xs)"

definition strings_TrimRight :: "string \<Rightarrow> char \<Rightarrow> string" where
  "strings_TrimRight s c = rev (trim_left_char c (rev s))"

definition hex_digit :: "nat \<Rightarrow> char" where
  "hex_digit n = ''0123456789abcdef'' ! (n mod 16)"

definition hex_EncodeToString :: "bytes \<Rightarrow> string" where
  "hex_EncodeToString bs =
     concat (map (\<lambda>b. [hex_digit (of_char b div 16), hex_digit (of_char b)]) bs)"

definition NUL :: char where
  "NUL = CHR 0x00"

subsection \<open>strconv\<close>

definition digit_char :: "nat \<Rightarrow> char" where
  "digit_char n = char_of (48 + n)"

text \<open>The decimal digits of a number, most significant first; \<open>[]\<close> for 0.\<close>

fun dec_digits :: "nat \<Rightarrow> string" where
  "dec_digits n = (if n = 0 then [] else dec_digits (n div 10) @ [digit_char (n mod 10)])"

declare dec_digits.simps [simp del]

text \<open>\<open>strconv.FormatInt(n, 10)\<close>.\<close>

definition strconv_FormatInt :: "int64 \<Rightarrow> string" where
  "strconv_FormatInt n =
     (if sint n = 0 then ''0''
      else if sint n < 0 then CHR ''-'' # dec_digits (nat (- sint n))
      else dec_digits (nat (sint n)))"

text \<open>
  The loop that \<open>itoa\<close>, \<open>intToStr\<close> and \<open>appendInt\<close> of the sources share, on an int64:
  \<open>for n > 0 { digits = prepend('0' + n % 10); n /= 10 }\<close>.
\<close>

function digit_loop :: "int64 \<Rightarrow> string \<Rightarrow> string" where
  "digit_loop n digits =
     (if 0 < sint n
      then digit_loop (word_of_int (sint n div 10)) (digit_char (nat (sint n mod 10)) # digits)
      else digits)"
  by pat_completeness auto
termination
proof (relation "measure (\<lambda>(n, digits). nat (sint n))")
  fix n :: int64 and digits :: string
  assume n: "0 < sint n"
  have "sint n < 2 ^ 63" using sint_lt [of n] by simp
  then have "sint (word_of_int (sint n div 10) :: int64) = sint n div 10"
    using n unfolding sint_sbintrunc' by (simp add: signed_take_bit_int_eq_self)
  with n show "((word_of_int (sint n div 10), digit_char (nat (sint n mod 10)) # digits), n, digits)
      \<in> measure (\<lambda>(n, digits). nat (sint n))" by simp
qed simp

declare digit_loop.simps [simp del]

definition is_dec_digit :: "char \<Rightarrow> bool" where
  "is_dec_digit c = (48 \<le> (of_char c :: nat) \<and> (of_char c :: nat) \<le> 57)"

definition dec_value :: "string \<Rightarrow> nat" where
  "dec_value s = foldl (\<lambda>a c. a * 10 + (of_char c - 48)) 0 s"

text \<open>
  \<open>strconv.ParseInt(s, 10, 64)\<close>: an optional sign, at least one digit, only digits, and a
  value that fits; \<open>None\<close> is an error.
\<close>

definition parse_digits :: "string \<Rightarrow> nat option" where
  "parse_digits s = (if s \<noteq> [] \<and> list_all is_dec_digit s then Some (dec_value s) else None)"

definition strconv_ParseInt :: "string \<Rightarrow> int64 option" where
  "strconv_ParseInt s =
     (let neg = prefix ''-'' s; plus = prefix ''+'' s;
          body = (if neg \<or> plus then tl s else s)
      in case parse_digits body of
           None \<Rightarrow> None
         | Some m \<Rightarrow>
             (let v = (if neg then - int m else int m)
              in if min_int64 \<le> v \<and> v \<le> max_int64 then Some (word_of_int v) else None))"

section \<open>Chains\<close>

text \<open>
  \<open>chain a es b\<close>: the edges \<open>es\<close>, taken in order, lead from \<open>a\<close> to \<open>b\<close>, each one
  starting where the one before it ended.
\<close>

fun chain :: "'a \<Rightarrow> ('a \<times> 'a) list \<Rightarrow> 'a \<Rightarrow> bool" where
  "chain a [] b \<longleftrightarrow> a = b"
| "chain a ((x, y) # es) b \<longleftrightarrow> x = a \<and> chain y es b"

lemma chain_append [simp]: "chain a (es @ fs) c \<longleftrightarrow> (\<exists>b. chain a es b \<and> chain b fs c)"
  by (induction a es c rule: chain.induct) auto

lemma chain_snocI: "chain a es b \<Longrightarrow> chain a (es @ [(b, c)]) c"
  by auto

section \<open>Signed 64-bit arithmetic\<close>

lemma sint_int64_bounds: "min_int64 \<le> sint (n :: int64)" "sint (n :: int64) \<le> max_int64"
  using sint_ge [of n] sint_less [of n] by (simp_all add: min_int64_def max_int64_def)

lemma sint_of_int_int64:
  assumes "min_int64 \<le> v" and "v \<le> max_int64"
  shows "sint (word_of_int v :: int64) = v"
  using assms unfolding sint_sbintrunc'
  by (simp add: signed_take_bit_int_eq_self min_int64_def max_int64_def)

lemma sint_add_int64:
  assumes "min_int64 \<le> sint a + sint (b :: int64)" and "sint a + sint b \<le> max_int64"
  shows "sint (a + b) = sint a + sint b"
  using sint_of_int_int64 [OF assms] by simp

lemma sint_diff_int64:
  assumes "min_int64 \<le> sint a - sint (b :: int64)" and "sint a - sint b \<le> max_int64"
  shows "sint (a - b) = sint a - sint b"
  using sint_of_int_int64 [OF assms] by simp

lemma sint_time_Sub:
  "sint (time_Sub t u) = max min_int64 (min max_int64 (t - u))"
  unfolding time_Sub_def
  by (rule sint_of_int_int64) (simp_all add: min_int64_def max_int64_def)

section \<open>Decimal text\<close>

lemma of_char_digit_char [simp]: "n < 10 \<Longrightarrow> of_char (digit_char n) = 48 + n"
  by (simp add: digit_char_def)

lemma dec_value_snoc [simp]: "dec_value (s @ [c]) = dec_value s * 10 + (of_char c - 48)"
  by (simp add: dec_value_def)

lemma dec_value_Nil [simp]: "dec_value [] = 0"
  by (simp add: dec_value_def)

lemma dec_digits_Nil [simp]: "dec_digits n = [] \<longleftrightarrow> n = 0"
  by (subst dec_digits.simps) simp

lemma dec_value_digits [simp]: "dec_value (dec_digits n) = n"
proof (induction n rule: dec_digits.induct)
  case (1 n)
  then show ?case by (subst dec_digits.simps) simp
qed

lemma is_dec_digit_char [simp]: "n < 10 \<Longrightarrow> is_dec_digit (digit_char n)"
  by (simp add: is_dec_digit_def)

lemma list_all_dec_digits [simp]: "list_all is_dec_digit (dec_digits n)"
proof (induction n rule: dec_digits.induct)
  case (1 n)
  then show ?case by (subst dec_digits.simps) simp
qed

lemma parse_digits_dec_digits [simp]: "n \<noteq> 0 \<Longrightarrow> parse_digits (dec_digits n) = Some n"
  by (simp add: parse_digits_def)

lemma hd_dec_digits: "n \<noteq> 0 \<Longrightarrow> is_dec_digit (hd (dec_digits n))"
  using list_all_dec_digits [of n] by (cases "dec_digits n") auto

lemma dec_digits_no_sign:
  assumes "n \<noteq> 0" shows "\<not> prefix ''-'' (dec_digits n)" "\<not> prefix ''+'' (dec_digits n)"
proof -
  obtain c cs where d: "dec_digits n = c # cs"
    using assms by (cases "dec_digits n") auto
  with hd_dec_digits [OF assms] have "is_dec_digit c" by simp
  then have "c \<noteq> CHR ''-''" and "c \<noteq> CHR ''+''" by (auto simp: is_dec_digit_def)
  with d show "\<not> prefix ''-'' (dec_digits n)" "\<not> prefix ''+'' (dec_digits n)" by auto
qed

lemma ParseInt_dec_digits:
  assumes "n \<noteq> 0" and "int n \<le> max_int64"
  shows "strconv_ParseInt (dec_digits n) = Some (word_of_int (int n))"
  using assms dec_digits_no_sign [OF assms(1)]
  by (simp add: strconv_ParseInt_def min_int64_def)

lemma ParseInt_neg_dec_digits:
  assumes "n \<noteq> 0" and "min_int64 \<le> - int n"
  shows "strconv_ParseInt (CHR ''-'' # dec_digits n) = Some (word_of_int (- int n))"
  using assms by (simp add: strconv_ParseInt_def max_int64_def)

text \<open>\<open>ParseInt\<close> reads back what \<open>FormatInt\<close> prints, on every int64.\<close>

lemma ParseInt_FormatInt: "strconv_ParseInt (strconv_FormatInt n) = Some n"
proof -
  have zero: "strconv_ParseInt ''0'' = Some 0" by code_simp
  have neg: "strconv_ParseInt (CHR ''-'' # dec_digits (nat (- sint n))) = Some n" if "sint n < 0"
    using ParseInt_neg_dec_digits [of "nat (- sint n)"] that sint_int64_bounds [of n] by simp
  have pos: "strconv_ParseInt (dec_digits (nat (sint n))) = Some n" if "0 < sint n"
    using ParseInt_dec_digits [of "nat (sint n)"] that sint_int64_bounds [of n] by simp
  consider "n = 0" | "sint n < 0" | "0 < sint n"
    by (metis linorder_neqE_linordered_idom of_int_0 of_int_sint scast_id)
  then show ?thesis
    using zero neg pos by cases (simp_all add: strconv_FormatInt_def)
qed

lemma digit_loop_eq: "digit_loop n acc = dec_digits (nat (sint n)) @ acc"
proof (induction n acc rule: digit_loop.induct)
  case (1 n digits)
  show ?case
  proof (cases "0 < sint n")
    case True
    have fits: "sint (word_of_int (sint n div 10) :: int64) = sint n div 10"
      using True sint_int64_bounds [of n] by (intro sint_of_int_int64) (simp_all add: min_int64_def)
    have "digit_loop n digits =
        dec_digits (nat (sint n) div 10) @ digit_char (nat (sint n) mod 10) # digits"
      using 1 True fits by (simp add: digit_loop.simps [of n] nat_div_distrib nat_mod_distrib)
    also have "\<dots> = dec_digits (nat (sint n)) @ digits"
      using True by (simp add: dec_digits.simps [of "nat (sint n)"])
    finally show ?thesis .
  next
    case False
    then show ?thesis by (simp add: digit_loop.simps [of n] dec_digits.simps [of 0])
  qed
qed

section \<open>Separated keys\<close>

text \<open>
  Two strings joined by a separator that the second one does not contain determine both
  parts (the text is split at the last separator); dually for the first part.
\<close>

lemma join_inj_right:
  assumes "a @ c # b = a' @ c # b'" and "c \<notin> set b" and "c \<notin> set b'"
  shows "a = a' \<and> b = b'"
  using assms by (auto simp: append_eq_append_conv2 Cons_eq_append_conv append_eq_Cons_conv)

lemma join_inj_left:
  assumes "a @ c # b = a' @ c # b'" and "c \<notin> set a" and "c \<notin> set a'"
  shows "a = a' \<and> b = b'"
  using assms by (auto simp: append_eq_append_conv2 Cons_eq_append_conv append_eq_Cons_conv)

end
