(* ===== verification/Domain.thy ===== *)
theory Domain
  imports Prelude
begin

text \<open>
  The domain model: \<open>internal/domain/intent.go\<close> (payment intents, their lifecycle history
  and their state machine) and \<open>internal/domain/chargeback.go\<close> (the records linked to an
  intent). The state machine of the code is the step relation \<open>moves\<close>; the lemmas say
  which runs of \<open>Transition\<close> it allows and what they leave in the history.
\<close>

section \<open>Statuses and rails\<close>

datatype status =
    StatusIntent | StatusAuthorized | Status3DSPending | StatusCaptured | StatusSettled
  | StatusRefunding | StatusRefunded | StatusVoided | StatusFailed | StatusChargedBack
  | StatusChargebackWon | StatusChargebackLost

text \<open>The text of a status: Go's conversion \<open>string(s)\<close>.\<close>

fun statusString :: "status \<Rightarrow> string" where
  "statusString StatusIntent = ''intent''"
| "statusString StatusAuthorized = ''authorized''"
| "statusString Status3DSPending = ''3ds_pending''"
| "statusString StatusCaptured = ''captured''"
| "statusString StatusSettled = ''settled''"
| "statusString StatusRefunding = ''refunding''"
| "statusString StatusRefunded = ''refunded''"
| "statusString StatusVoided = ''voided''"
| "statusString StatusFailed = ''failed''"
| "statusString StatusChargedBack = ''charged_back''"
| "statusString StatusChargebackWon = ''chargeback_won''"
| "statusString StatusChargebackLost = ''chargeback_lost''"

fun IsTerminal :: "status \<Rightarrow> bool" where
  "IsTerminal StatusSettled = True"
| "IsTerminal StatusRefunded = True"
| "IsTerminal StatusVoided = True"
| "IsTerminal StatusFailed = True"
| "IsTerminal StatusChargebackWon = True"
| "IsTerminal StatusChargebackLost = True"
| "IsTerminal _ = False"

text \<open>
  A rail is a string in the code: requests carry any text, and \<open>IsValidRail\<close> decides
  which of it is a rail.
\<close>

type_synonym rail = string

definition RailCard :: rail where [simp]: "RailCard = ''card''"
definition RailACH :: rail where [simp]: "RailACH = ''ach''"
definition RailSEPA :: rail where [simp]: "RailSEPA = ''sepa''"
definition RailPIX :: rail where [simp]: "RailPIX = ''pix''"
definition RailUPI :: rail where [simp]: "RailUPI = ''upi''"

definition IsValidRail :: "rail \<Rightarrow> bool" where
  "IsValidRail r = (r = RailCard \<or> r = RailACH \<or> r = RailSEPA \<or> r = RailPIX \<or> r = RailUPI)"

definition IsInstant :: "rail \<Rightarrow> bool" where
  "IsInstant r = (r = RailPIX \<or> r = RailUPI)"

section \<open>Lifecycle events and intents\<close>

type_synonym event_type = string

definition EventCreated :: event_type where [simp]: "EventCreated = ''created''"
definition Event3DSPending :: event_type where [simp]: "Event3DSPending = ''3ds_pending''"
definition EventCaptured :: event_type where [simp]: "EventCaptured = ''captured''"
definition EventWebhook :: event_type where [simp]: "EventWebhook = ''webhook''"
definition EventReconciliation :: event_type where
  [simp]: "EventReconciliation = ''reconciliation_break''"

record event =
  evType :: event_type
  evDetail :: string
  evAt :: time
  evAmount :: int64

record intent =
  iID :: string
  iRail :: rail
  iAmount :: int64
  iCurrency :: string
  iPayerRef :: string
  iStatus :: status
  iCapturedAmount :: int64
  iRefundedAmount :: int64
  iSettledAmount :: int64
  iExternalID :: string
  iIdempotencyKey :: string
  iThreeDSRequired :: bool
  iCreatedAt :: time
  iUpdatedAt :: time
  iHistory :: "event list"

text \<open>
  \<open>AppendEvent\<close> reads the clock twice: \<open>t1\<close> stamps the event, \<open>t2\<close> the intent.
\<close>

definition AppendEvent :: "time \<Rightarrow> time \<Rightarrow> event_type \<Rightarrow> string \<Rightarrow> intent \<Rightarrow> intent" where
  "AppendEvent t1 t2 ty detail i =
     i\<lparr>iHistory := iHistory i @ [\<lparr>evType = ty, evDetail = detail, evAt = t1, evAmount = 0\<rparr>],
       iUpdatedAt := t2\<rparr>"

section \<open>The state machine\<close>

text \<open>The two-level map \<open>transitions\<close>, and the lookup in it.\<close>

fun transitions :: "status \<Rightarrow> (status \<rightharpoonup> bool) option" where
  "transitions StatusIntent =
     Some [StatusAuthorized \<mapsto> True, Status3DSPending \<mapsto> True, StatusFailed \<mapsto> True]"
| "transitions StatusAuthorized =
     Some [StatusCaptured \<mapsto> True, Status3DSPending \<mapsto> True, StatusVoided \<mapsto> True,
           StatusFailed \<mapsto> True]"
| "transitions Status3DSPending = Some [StatusAuthorized \<mapsto> True, StatusFailed \<mapsto> True]"
| "transitions StatusCaptured =
     Some [StatusSettled \<mapsto> True, StatusRefunding \<mapsto> True, StatusRefunded \<mapsto> True,
           StatusChargedBack \<mapsto> True]"
| "transitions StatusRefunding = Some [StatusRefunded \<mapsto> True, StatusFailed \<mapsto> True]"
| "transitions StatusSettled =
     Some [StatusRefunding \<mapsto> True, StatusRefunded \<mapsto> True, StatusChargedBack \<mapsto> True]"
| "transitions StatusChargedBack =
     Some [StatusChargebackWon \<mapsto> True, StatusChargebackLost \<mapsto> True]"
| "transitions _ = None"

definition CanTransition :: "status \<Rightarrow> status \<Rightarrow> bool" where
  "CanTransition s nxt =
     (case transitions s of
        None \<Rightarrow> False
      | Some allowed \<Rightarrow> (case allowed nxt of None \<Rightarrow> False | Some b \<Rightarrow> b))"

text \<open>\<open>EventType(next)\<close> is a string conversion, so the event is named like the status.\<close>

definition Transition :: "time \<Rightarrow> time \<Rightarrow> status \<Rightarrow> string \<Rightarrow> intent \<Rightarrow> error option \<times> intent" where
  "Transition t1 t2 nxt detail i =
     (if IsTerminal (iStatus i) then (Some ErrTerminalState, i)
      else if \<not> CanTransition (iStatus i) nxt then (Some ErrInvalidTransition, i)
      else (None, AppendEvent t1 t2 (statusString nxt) detail (i\<lparr>iStatus := nxt\<rparr>)))"

section \<open>Records linked to an intent\<close>

type_synonym chargeback_stage = string

definition StageOpened :: chargeback_stage where [simp]: "StageOpened = ''opened''"
definition StageEvidence :: chargeback_stage where [simp]: "StageEvidence = ''evidence''"
definition StageArbitration :: chargeback_stage where [simp]: "StageArbitration = ''arbitration''"
definition StageReversal :: chargeback_stage where [simp]: "StageReversal = ''reversal''"

definition IsValidChargebackStage :: "chargeback_stage \<Rightarrow> bool" where
  "IsValidChargebackStage s =
     (s = StageOpened \<or> s = StageEvidence \<or> s = StageArbitration \<or> s = StageReversal)"

record chargeback =
  cbID :: string
  cbIntentID :: string
  cbAmount :: int64
  cbReason :: string
  cbStage :: chargeback_stage
  cbCaseRef :: string
  cbCreatedAt :: time
  cbUpdatedAt :: time

record settlement =
  seID :: string
  seIntentID :: string
  seSettledAmount :: int64
  seSettledAt :: time
  seRailRef :: string

record capture =
  caID :: string
  caIntentID :: string
  caAmount :: int64
  caExternalRef :: string
  caCapturedAt :: time

record refund =
  reID :: string
  reIntentID :: string
  reAmount :: int64
  reExternalRef :: string
  reRefundedAt :: time
  reState :: string

text \<open>\<open>ProcessedAt\<close> starts as Go's zero time; \<open>None\<close> stands for it.\<close>

record webhook =
  whID :: string
  whRail :: rail
  whExternalEventID :: string
  whSignature :: string
  whReceivedAt :: time
  whProcessedAt :: "time option"

section \<open>The step relation of the code's state machine\<close>

text \<open>
  What \<open>Transition\<close> accepts: an edge of the table whose source is not terminal. The guard
  on terminal states comes first in the code, so the edges of the table that leave
  \<open>StatusSettled\<close> are never taken.
\<close>

inductive moves :: "status \<Rightarrow> status \<Rightarrow> bool" where
  move: "\<not> IsTerminal s \<Longrightarrow> CanTransition s nxt \<Longrightarrow> moves s nxt"

inductive_cases moves_fromE: "moves s nxt"

inductive_simps moves_iff: "moves s nxt"

instantiation status :: enum
begin

definition enum_status :: "status list" where
  "enum_status =
     [StatusIntent, StatusAuthorized, Status3DSPending, StatusCaptured, StatusSettled,
      StatusRefunding, StatusRefunded, StatusVoided, StatusFailed, StatusChargedBack,
      StatusChargebackWon, StatusChargebackLost]"

definition enum_all_status :: "(status \<Rightarrow> bool) \<Rightarrow> bool" where
  "enum_all_status P = list_all P enum_class.enum"

definition enum_ex_status :: "(status \<Rightarrow> bool) \<Rightarrow> bool" where
  "enum_ex_status P = list_ex P enum_class.enum"

instance
proof
  show univ: "(UNIV :: status set) = set enum_class.enum"
    by (auto simp: enum_status_def intro: status.exhaust)
  show "distinct (enum_class.enum :: status list)"
    by (simp add: enum_status_def)
  fix P :: "status \<Rightarrow> bool"
  show "enum_class.enum_all P \<longleftrightarrow> Ball UNIV P"
    unfolding univ by (simp add: enum_all_status_def list_all_iff)
  show "enum_class.enum_ex P \<longleftrightarrow> Bex UNIV P"
    unfolding univ by (simp add: enum_ex_status_def list_ex_iff)
qed

end

section \<open>Lemmas of the state machine\<close>

lemma Transition_ok_iff:
  "fst (Transition t1 t2 nxt detail i) = None \<longleftrightarrow> moves (iStatus i) nxt"
  by (simp add: Transition_def moves_iff)

lemma Transition_error_unchanged:
  "fst (Transition t1 t2 nxt detail i) \<noteq> None \<Longrightarrow> snd (Transition t1 t2 nxt detail i) = i"
  by (auto simp: Transition_def split: if_splits)

lemma Transition_moves:
  "moves (iStatus i) nxt \<Longrightarrow>
   Transition t1 t2 nxt detail i =
     (None, AppendEvent t1 t2 (statusString nxt) detail (i\<lparr>iStatus := nxt\<rparr>))"
  by (simp add: Transition_def moves_iff)

lemma Transition_terminal:
  "IsTerminal (iStatus i) \<Longrightarrow> Transition t1 t2 nxt detail i = (Some ErrTerminalState, i)"
  by (simp add: Transition_def)

text \<open>The whole relation, edge by edge.\<close>

lemma moves_table:
  "moves s nxt \<longleftrightarrow>
     (s, nxt) \<in> {(StatusIntent, StatusAuthorized), (StatusIntent, Status3DSPending),
       (StatusIntent, StatusFailed), (StatusAuthorized, StatusCaptured),
       (StatusAuthorized, Status3DSPending), (StatusAuthorized, StatusVoided),
       (StatusAuthorized, StatusFailed), (Status3DSPending, StatusAuthorized),
       (Status3DSPending, StatusFailed), (StatusCaptured, StatusSettled),
       (StatusCaptured, StatusRefunding), (StatusCaptured, StatusRefunded),
       (StatusCaptured, StatusChargedBack), (StatusRefunding, StatusRefunded),
       (StatusRefunding, StatusFailed), (StatusChargedBack, StatusChargebackWon),
       (StatusChargedBack, StatusChargebackLost)}"
  unfolding moves_iff by (cases s; cases nxt) (simp_all add: CanTransition_def)

lemma moves_from_terminal: "IsTerminal s \<Longrightarrow> \<not> moves s nxt"
  by (auto elim: moves_fromE)

lemma statusString_inj: "statusString s = statusString s' \<Longrightarrow> s = s'"
  by (cases s; cases s') simp_all

text \<open>What \<open>AppendEvent\<close> and \<open>Transition\<close> leave alone.\<close>

lemma AppendEvent_frame [frame, simp]:
  "iID (AppendEvent t1 t2 ty d i) = iID i"
  "iRail (AppendEvent t1 t2 ty d i) = iRail i"
  "iAmount (AppendEvent t1 t2 ty d i) = iAmount i"
  "iStatus (AppendEvent t1 t2 ty d i) = iStatus i"
  "iCapturedAmount (AppendEvent t1 t2 ty d i) = iCapturedAmount i"
  "iRefundedAmount (AppendEvent t1 t2 ty d i) = iRefundedAmount i"
  "iSettledAmount (AppendEvent t1 t2 ty d i) = iSettledAmount i"
  "iExternalID (AppendEvent t1 t2 ty d i) = iExternalID i"
  "iHistory (AppendEvent t1 t2 ty d i) =
     iHistory i @ [\<lparr>evType = ty, evDetail = d, evAt = t1, evAmount = 0\<rparr>]"
  by (simp_all add: AppendEvent_def)

lemma Transition_frame [frame, simp]:
  "iID (snd (Transition t1 t2 nxt d i)) = iID i"
  "iRail (snd (Transition t1 t2 nxt d i)) = iRail i"
  "iAmount (snd (Transition t1 t2 nxt d i)) = iAmount i"
  "iCapturedAmount (snd (Transition t1 t2 nxt d i)) = iCapturedAmount i"
  "iRefundedAmount (snd (Transition t1 t2 nxt d i)) = iRefundedAmount i"
  "iSettledAmount (snd (Transition t1 t2 nxt d i)) = iSettledAmount i"
  "iExternalID (snd (Transition t1 t2 nxt d i)) = iExternalID i"
  by (simp_all add: Transition_def)

section \<open>Runs of transitions\<close>

text \<open>
  A caller that applies a list of transitions, carrying on after a refusal as the handlers
  do with \<open>_ = i.Transition(...)\<close>.
\<close>

fun transition_run :: "(time \<times> time \<times> status \<times> string) list \<Rightarrow> intent \<Rightarrow> intent" where
  "transition_run [] i = i"
| "transition_run ((t1, t2, nxt, d) # rs) i =
     transition_run rs (snd (Transition t1 t2 nxt d i))"

text \<open>The event types a walk through the statuses \<open>ss\<close> leaves, and that the walk is legal.\<close>

fun walk :: "status \<Rightarrow> status list \<Rightarrow> bool" where
  "walk s [] = True"
| "walk s (n # ss) = (moves s n \<and> walk n ss)"

lemma transition_run_walk:
  "\<exists>ss. walk (iStatus i) ss \<and> iStatus (transition_run rs i) = last (iStatus i # ss) \<and>
        map evType (iHistory (transition_run rs i)) =
          map evType (iHistory i) @ map statusString ss"
proof (induction rs i rule: transition_run.induct)
  case (1 i)
  then show ?case by (intro exI [of _ "[]"]) simp
next
  case (2 t1 t2 nxt d rs i)
  show ?case
  proof (cases "moves (iStatus i) nxt")
    case True
    from 2 obtain ss where "walk nxt ss" and
      "iStatus (transition_run rs (snd (Transition t1 t2 nxt d i))) = last (nxt # ss)" and
      "map evType (iHistory (transition_run rs (snd (Transition t1 t2 nxt d i)))) =
         map evType (iHistory i) @ statusString nxt # map statusString ss"
      using True by (auto simp: Transition_moves)
    with True show ?thesis by (intro exI [of _ "nxt # ss"]) simp
  next
    case False
    then have "snd (Transition t1 t2 nxt d i) = i"
      by (intro Transition_error_unchanged) (simp add: Transition_ok_iff)
    with 2 show ?thesis by simp
  qed
qed

lemma walk_authorized:
  assumes "walk s ss" and "s \<in> {StatusIntent, Status3DSPending, StatusFailed}"
    and "last (s # ss) \<notin> {StatusIntent, Status3DSPending, StatusFailed}"
  shows "StatusAuthorized \<in> set ss"
  using assms
proof (induction ss arbitrary: s)
  case (Cons n ss)
  then show ?case by (cases "n = StatusAuthorized") (auto simp: moves_table)
qed simp

end
