(* ===== verification/Store.thy ===== *)
theory Store
  imports Domain
begin

text \<open>
  The payment store, \<open>internal/store/store.go\<close>. The interface \<open>store.Store\<close> is the
  record \<open>store_iface\<close> of operations over a state \<open>'s\<close>; \<open>MemStore\<close> is its in-memory
  implementation. The locale \<open>payment_store\<close> states what a client may rely on; it is
  interpreted on \<open>MemStore\<close> at the end.

  The intents of \<open>MemStore\<close> are pointers: the callback of \<open>UpdateIntent\<close> mutates the
  stored intent itself. A callback therefore returns the mutated intent beside its error,
  and \<open>MemStore\<close> keeps the mutation whether or not the callback failed.
\<close>

section \<open>Callbacks\<close>

text \<open>
  How a callback ends: with a nil error, with an error, or with a run-time panic (a method
  called on a nil interface). \<open>'w\<close> is what the callback changes besides the intent.
\<close>

datatype fnres = FnOk | FnErr error | FnPanic

datatype updres = UpdOk intent | UpdErr error | UpdPanic

type_synonym 'w callback = "intent \<Rightarrow> 'w \<Rightarrow> fnres \<times> intent \<times> 'w"

section \<open>The interface\<close>

text \<open>
  One field per method of \<open>store.Store\<close>. A method that reads the clock takes its reading;
  a method that ranges over a Go map takes the order in which the run-time visits the keys.
\<close>

record ('s, 'w) store_iface =
  st_CreateIntent :: "intent \<Rightarrow> 's \<Rightarrow> 's"
  st_GetIntent :: "string \<Rightarrow> 's \<Rightarrow> intent option"
  st_ListIntents :: "string list \<Rightarrow> string \<Rightarrow> string \<Rightarrow> 's \<Rightarrow> intent list"
  st_UpdateIntent :: "time \<Rightarrow> string \<Rightarrow> 'w callback \<Rightarrow> 's \<Rightarrow> 'w \<Rightarrow> updres \<times> 's \<times> 'w"
  st_AddCapture :: "capture \<Rightarrow> 's \<Rightarrow> 's"
  st_CapturesFor :: "string \<Rightarrow> 's \<Rightarrow> capture list"
  st_AddSettlement :: "settlement \<Rightarrow> 's \<Rightarrow> 's"
  st_SettlementsFor :: "string \<Rightarrow> 's \<Rightarrow> settlement list"
  st_AddRefund :: "refund \<Rightarrow> 's \<Rightarrow> 's"
  st_RefundsFor :: "string \<Rightarrow> 's \<Rightarrow> refund list"
  st_AddChargeback :: "chargeback \<Rightarrow> 's \<Rightarrow> 's"
  st_ChargebacksFor :: "string \<Rightarrow> 's \<Rightarrow> chargeback list"
  st_UpdateChargeback ::
    "time \<Rightarrow> string list \<Rightarrow> string \<Rightarrow> (chargeback \<Rightarrow> error option \<times> chargeback) \<Rightarrow> 's
       \<Rightarrow> error option \<times> 's"
  st_RecordWebhook :: "webhook \<Rightarrow> 's \<Rightarrow> error option \<times> 's"
  st_MarkWebhookProcessed :: "time \<Rightarrow> rail \<Rightarrow> string \<Rightarrow> 's \<Rightarrow> 's"
  st_WebhookExists :: "rail \<Rightarrow> string \<Rightarrow> 's \<Rightarrow> bool"

section \<open>MemStore\<close>

record memstore =
  ms_intents :: "string \<rightharpoonup> intent"
  ms_captures :: "string \<rightharpoonup> capture list"
  ms_settlements :: "string \<rightharpoonup> settlement list"
  ms_refunds :: "string \<rightharpoonup> refund list"
  ms_chargebacks :: "string \<rightharpoonup> chargeback list"
  ms_webhooks :: "string \<rightharpoonup> webhook"

definition NewMemStore :: memstore where
  "NewMemStore = \<lparr>ms_intents = Map.empty, ms_captures = Map.empty, ms_settlements = Map.empty,
     ms_refunds = Map.empty, ms_chargebacks = Map.empty, ms_webhooks = Map.empty\<rparr>"

text \<open>Reading a Go map of slices: a missing key gives the nil slice.\<close>

definition slice_at :: "('k \<rightharpoonup> 'v list) \<Rightarrow> 'k \<Rightarrow> 'v list" where
  "slice_at m k = (case m k of None \<Rightarrow> [] | Some vs \<Rightarrow> vs)"

definition mem_CreateIntent :: "intent \<Rightarrow> memstore \<Rightarrow> memstore" where
  "mem_CreateIntent i s = s\<lparr>ms_intents := (ms_intents s)(iID i \<mapsto> i)\<rparr>"

text \<open>\<open>cloneIntent\<close> copies the intent and its history: on values, the intent itself.\<close>

definition mem_GetIntent :: "string \<Rightarrow> memstore \<Rightarrow> intent option" where
  "mem_GetIntent iid s = ms_intents s iid"

text \<open>
  \<open>ListIntents\<close> ranges over the map in the order \<open>ord\<close>, filters, and sorts by
  \<open>CreatedAt\<close>. \<open>sort.Slice\<close> is not stable; every outcome it may have is the stable sort of
  some visiting order.
\<close>

definition mem_ListIntents :: "string list \<Rightarrow> string \<Rightarrow> string \<Rightarrow> memstore \<Rightarrow> intent list" where
  "mem_ListIntents ord status rail s =
     sort_key iCreatedAt
       (filter (\<lambda>i. \<not> (status \<noteq> '''' \<and> statusString (iStatus i) \<noteq> status) \<and>
                    \<not> (rail \<noteq> '''' \<and> iRail i \<noteq> rail))
         (List.map_filter (ms_intents s) ord))"

definition mem_UpdateIntent ::
  "string \<Rightarrow> 'w callback \<Rightarrow> memstore \<Rightarrow> 'w \<Rightarrow> updres \<times> memstore \<times> 'w" where
  "mem_UpdateIntent iid fn s w =
     (case ms_intents s iid of
        None \<Rightarrow> (UpdErr ErrNotFound, s, w)
      | Some i \<Rightarrow>
          (case fn i w of (r, i', w') \<Rightarrow>
             ((case r of FnOk \<Rightarrow> UpdOk i' | FnErr e \<Rightarrow> UpdErr e | FnPanic \<Rightarrow> UpdPanic),
              s\<lparr>ms_intents := (ms_intents s)(iid \<mapsto> i')\<rparr>, w')))"

definition mem_AddCapture :: "capture \<Rightarrow> memstore \<Rightarrow> memstore" where
  "mem_AddCapture c s =
     s\<lparr>ms_captures := (ms_captures s)(caIntentID c \<mapsto> slice_at (ms_captures s) (caIntentID c) @ [c])\<rparr>"

definition mem_CapturesFor :: "string \<Rightarrow> memstore \<Rightarrow> capture list" where
  "mem_CapturesFor iid s = slice_at (ms_captures s) iid"

definition mem_AddSettlement :: "settlement \<Rightarrow> memstore \<Rightarrow> memstore" where
  "mem_AddSettlement x s =
     s\<lparr>ms_settlements := (ms_settlements s)(seIntentID x \<mapsto> slice_at (ms_settlements s) (seIntentID x) @ [x])\<rparr>"

definition mem_SettlementsFor :: "string \<Rightarrow> memstore \<Rightarrow> settlement list" where
  "mem_SettlementsFor iid s = slice_at (ms_settlements s) iid"

definition mem_AddRefund :: "refund \<Rightarrow> memstore \<Rightarrow> memstore" where
  "mem_AddRefund r s =
     s\<lparr>ms_refunds := (ms_refunds s)(reIntentID r \<mapsto> slice_at (ms_refunds s) (reIntentID r) @ [r])\<rparr>"

definition mem_RefundsFor :: "string \<Rightarrow> memstore \<Rightarrow> refund list" where
  "mem_RefundsFor iid s = slice_at (ms_refunds s) iid"

definition mem_AddChargeback :: "chargeback \<Rightarrow> memstore \<Rightarrow> memstore" where
  "mem_AddChargeback c s =
     s\<lparr>ms_chargebacks := (ms_chargebacks s)(cbIntentID c \<mapsto> slice_at (ms_chargebacks s) (cbIntentID c) @ [c])\<rparr>"

definition mem_ChargebacksFor :: "string \<Rightarrow> memstore \<Rightarrow> chargeback list" where
  "mem_ChargebacksFor iid s = slice_at (ms_chargebacks s) iid"

text \<open>The index of the first chargeback of a list with the given case reference.\<close>

fun find_case :: "string \<Rightarrow> chargeback list \<Rightarrow> nat option" where
  "find_case ref [] = None"
| "find_case ref (c # cs) =
     (if cbCaseRef c = ref then Some 0 else map_option Suc (find_case ref cs))"

text \<open>
  \<open>UpdateChargeback\<close>: the lists are visited in the order \<open>ord\<close>, and the first chargeback
  with the case reference, whichever intent it belongs to, is handed to \<open>fn\<close>.
\<close>

fun mem_UpdateChargeback ::
  "string list \<Rightarrow> string \<Rightarrow> (chargeback \<Rightarrow> error option \<times> chargeback) \<Rightarrow> memstore
     \<Rightarrow> error option \<times> memstore" where
  "mem_UpdateChargeback [] ref fn s = (Some ErrNotFound, s)"
| "mem_UpdateChargeback (k # ks) ref fn s =
     (let list = slice_at (ms_chargebacks s) k in
      case find_case ref list of
        None \<Rightarrow> mem_UpdateChargeback ks ref fn s
      | Some idx \<Rightarrow>
          (case fn (list ! idx) of (e, c') \<Rightarrow>
             (e, s\<lparr>ms_chargebacks := (ms_chargebacks s)(k \<mapsto> list[idx := c'])\<rparr>)))"

definition webhookKey :: "rail \<Rightarrow> string \<Rightarrow> string" where
  "webhookKey rail eventID = rail @ [NUL] @ eventID"

definition mem_RecordWebhook :: "webhook \<Rightarrow> memstore \<Rightarrow> error option \<times> memstore" where
  "mem_RecordWebhook w s =
     (let key = webhookKey (whRail w) (whExternalEventID w) in
      case ms_webhooks s key of
        Some _ \<Rightarrow> (Some ErrDuplicateWebhook, s)
      | None \<Rightarrow> (None, s\<lparr>ms_webhooks := (ms_webhooks s)(key \<mapsto> w)\<rparr>))"

definition mem_MarkWebhookProcessed :: "time \<Rightarrow> rail \<Rightarrow> string \<Rightarrow> memstore \<Rightarrow> memstore" where
  "mem_MarkWebhookProcessed now rail eventID s =
     (let key = webhookKey rail eventID in
      case ms_webhooks s key of
        Some w \<Rightarrow> s\<lparr>ms_webhooks := (ms_webhooks s)(key \<mapsto> w\<lparr>whProcessedAt := Some now\<rparr>)\<rparr>
      | None \<Rightarrow> s)"

definition mem_WebhookExists :: "rail \<Rightarrow> string \<Rightarrow> memstore \<Rightarrow> bool" where
  "mem_WebhookExists rail eventID s = (ms_webhooks s (webhookKey rail eventID) \<noteq> None)"

definition MemStore :: "(memstore, 'w) store_iface" where
  "MemStore =
     \<lparr>st_CreateIntent = mem_CreateIntent, st_GetIntent = mem_GetIntent,
      st_ListIntents = mem_ListIntents, st_UpdateIntent = (\<lambda>t. mem_UpdateIntent),
      st_AddCapture = mem_AddCapture, st_CapturesFor = mem_CapturesFor,
      st_AddSettlement = mem_AddSettlement, st_SettlementsFor = mem_SettlementsFor,
      st_AddRefund = mem_AddRefund, st_RefundsFor = mem_RefundsFor,
      st_AddChargeback = mem_AddChargeback, st_ChargebacksFor = mem_ChargebacksFor,
      st_UpdateChargeback = (\<lambda>t. mem_UpdateChargeback), st_RecordWebhook = mem_RecordWebhook,
      st_MarkWebhookProcessed = mem_MarkWebhookProcessed, st_WebhookExists = mem_WebhookExists\<rparr>"

section \<open>What a client of the store relies on\<close>

text \<open>
  The intents a store holds, and the rows of captures, refunds and settlements it holds for
  each intent, as a client observes them.
\<close>

definition intents_of :: "('s, 'w) store_iface \<Rightarrow> 's \<Rightarrow> (string \<rightharpoonup> intent)" where
  "intents_of I s = (\<lambda>k. st_GetIntent I k s)"

record rows =
  rwCaptures :: "string \<Rightarrow> capture list"
  rwRefunds :: "string \<Rightarrow> refund list"
  rwSettlements :: "string \<Rightarrow> settlement list"

definition rows_of :: "('s, 'w) store_iface \<Rightarrow> 's \<Rightarrow> rows" where
  "rows_of I s =
     \<lparr>rwCaptures = (\<lambda>k. st_CapturesFor I k s), rwRefunds = (\<lambda>k. st_RefundsFor I k s),
      rwSettlements = (\<lambda>k. st_SettlementsFor I k s)\<rparr>"

definition updres_of :: "fnres \<Rightarrow> intent \<Rightarrow> updres" where
  "updres_of r i = (case r of FnOk \<Rightarrow> UpdOk i | FnErr e \<Rightarrow> UpdErr e | FnPanic \<Rightarrow> UpdPanic)"

text \<open>Equal up to the time stamps, which a store may round or set itself.\<close>

definition same_intent :: "intent \<Rightarrow> intent \<Rightarrow> bool" where
  "same_intent i j \<longleftrightarrow> (\<exists>c u. j = i\<lparr>iCreatedAt := c, iUpdatedAt := u\<rparr>)"

lemma same_intent_frame:
  assumes "same_intent i j"
  shows "iID j = iID i" "iRail j = iRail i" "iAmount j = iAmount i" "iStatus j = iStatus i"
    "iCapturedAmount j = iCapturedAmount i" "iRefundedAmount j = iRefundedAmount i"
    "iSettledAmount j = iSettledAmount i" "iHistory j = iHistory i"
  using assms by (auto simp: same_intent_def)

lemma same_intent_refl [simp]: "same_intent i i"
  unfolding same_intent_def by (intro exI [of _ "iCreatedAt i"] exI [of _ "iUpdatedAt i"]) simp

text \<open>
  The least a client may rely on, of a store whose calls may also fail: \<open>stored s\<close> are the
  intents behind it. A creation stores the intent, up to its time stamps, or nothing; an update
  runs the callback on a stored intent or not at all, and then stores what the callback made of
  it or leaves the stored intents alone; no other operation touches them.
\<close>

locale intent_store =
  fixes I :: "('s, 'w) store_iface"
    and stored :: "'s \<Rightarrow> (string \<rightharpoonup> intent)"
  assumes create_stored:
      "stored (st_CreateIntent I i s) = stored s \<or>
       (\<exists>j. same_intent i j \<and> stored (st_CreateIntent I i s) = (stored s)(iID i \<mapsto> j))"
    and update_stored:
      "st_UpdateIntent I t iid fn s w = (r, s', w') \<Longrightarrow>
       (\<exists>e. r = UpdErr e) \<and> w' = w \<and> stored s' = stored s \<or>
       (\<exists>i r0 i'. stored s iid = Some i \<and> fn i w = (r0, i', w') \<and> (r = UpdPanic \<longrightarrow> r0 = FnPanic) \<and>
          (iID i = iid \<and> iID i' = iid \<longrightarrow>
             stored s' = stored s \<or> (\<exists>j. same_intent i' j \<and> stored s' = (stored s)(iid \<mapsto> j))))"
    and stored_AddCapture: "stored (st_AddCapture I c s) = stored s"
    and stored_AddRefund: "stored (st_AddRefund I rf s) = stored s"
    and stored_AddSettlement: "stored (st_AddSettlement I se s) = stored s"
    and stored_AddChargeback: "stored (st_AddChargeback I cb s) = stored s"
    and stored_UpdateChargeback: "stored (snd (st_UpdateChargeback I t ord ref cfn s)) = stored s"
    and stored_RecordWebhook: "stored (snd (st_RecordWebhook I wh s)) = stored s"
    and stored_MarkWebhookProcessed: "stored (st_MarkWebhookProcessed I t rail ev s) = stored s"
begin

lemmas stored_frame [simp] =
  stored_AddCapture stored_AddRefund stored_AddSettlement stored_AddChargeback
  stored_UpdateChargeback stored_RecordWebhook stored_MarkWebhookProcessed

end

text \<open>
  A store whose calls do not fail and whose callbacks mutate the stored intent itself, so that
  a callback that fails keeps its mutation.
\<close>

locale payment_store =
  fixes I :: "('s, 'w) store_iface"
  assumes intents_create:
      "intents_of I (st_CreateIntent I i s) = (intents_of I s)(iID i \<mapsto> i)"
    and update_missing:
      "intents_of I s iid = None \<Longrightarrow> st_UpdateIntent I t iid fn s w = (UpdErr ErrNotFound, s, w)"
    and update_found:
      "intents_of I s iid = Some i \<Longrightarrow> fn i w = (r, i', w') \<Longrightarrow>
       \<exists>s'. st_UpdateIntent I t iid fn s w = (updres_of r i', s', w') \<and>
            intents_of I s' = (intents_of I s)(iid \<mapsto> i') \<and> rows_of I s' = rows_of I s"
    and intents_AddCapture: "intents_of I (st_AddCapture I c s) = intents_of I s"
    and intents_AddRefund: "intents_of I (st_AddRefund I rf s) = intents_of I s"
    and intents_AddSettlement: "intents_of I (st_AddSettlement I se s) = intents_of I s"
    and intents_AddChargeback: "intents_of I (st_AddChargeback I cb s) = intents_of I s"
    and intents_UpdateChargeback:
      "intents_of I (snd (st_UpdateChargeback I t ord ref cfn s)) = intents_of I s"
    and intents_RecordWebhook: "intents_of I (snd (st_RecordWebhook I wh s)) = intents_of I s"
    and intents_MarkWebhookProcessed:
      "intents_of I (st_MarkWebhookProcessed I t rail ev s) = intents_of I s"

sublocale payment_store \<subseteq> intent_store I "intents_of I"
proof (unfold_locales, goal_cases)
  case (1 i s)
  then show ?case by (intro disjI2 exI [of _ i]) (simp add: intents_create)
next
  case (2 t iid fn s w r s' w')
  show ?case
  proof (cases "intents_of I s iid")
    case None
    with 2 show ?thesis by (auto simp: update_missing)
  next
    case (Some i)
    obtain r0 i' w0 where f: "fn i w = (r0, i', w0)" by (cases "fn i w")
    with update_found [of s iid i fn w r0 i' w0 t] Some 2 have "r = updres_of r0 i'" "w' = w0"
      "intents_of I s' = (intents_of I s)(iid \<mapsto> i')" by auto
    moreover from this(1) have "r = UpdPanic \<Longrightarrow> r0 = FnPanic"
      by (cases r0) (simp_all add: updres_of_def)
    ultimately show ?thesis using Some f
      by (intro disjI2 exI [of _ i] exI [of _ r0] exI [of _ i']) (auto intro: exI [of _ i'])
  qed
qed (simp_all add: intents_AddCapture intents_AddRefund intents_AddSettlement intents_AddChargeback
      intents_UpdateChargeback intents_RecordWebhook intents_MarkWebhookProcessed)

text \<open>
  A store that also keeps, per intent, the rows added to it in the order of their addition.
\<close>

locale row_store = payment_store +
  assumes rows_create: "rows_of I (st_CreateIntent I i s) = rows_of I s"
    and rows_AddCapture:
      "rows_of I (st_AddCapture I c s) =
         (rows_of I s)\<lparr>rwCaptures := (rwCaptures (rows_of I s))
            (caIntentID c := rwCaptures (rows_of I s) (caIntentID c) @ [c])\<rparr>"
    and rows_AddRefund:
      "rows_of I (st_AddRefund I rf s) =
         (rows_of I s)\<lparr>rwRefunds := (rwRefunds (rows_of I s))
            (reIntentID rf := rwRefunds (rows_of I s) (reIntentID rf) @ [rf])\<rparr>"
    and rows_AddSettlement:
      "rows_of I (st_AddSettlement I se s) =
         (rows_of I s)\<lparr>rwSettlements := (rwSettlements (rows_of I s))
            (seIntentID se := rwSettlements (rows_of I s) (seIntentID se) @ [se])\<rparr>"
    and rows_AddChargeback: "rows_of I (st_AddChargeback I cb s) = rows_of I s"
    and rows_UpdateChargeback:
      "rows_of I (snd (st_UpdateChargeback I t ord ref cfn s)) = rows_of I s"
    and rows_RecordWebhook: "rows_of I (snd (st_RecordWebhook I wh s)) = rows_of I s"
    and rows_MarkWebhookProcessed:
      "rows_of I (st_MarkWebhookProcessed I t rail ev s) = rows_of I s"
begin

lemmas rows_frame [simp] =
  rows_create rows_AddChargeback rows_UpdateChargeback rows_RecordWebhook
  rows_MarkWebhookProcessed

end

section \<open>MemStore keeps the contract\<close>

lemma MemStore_sel [simp]:
  "st_CreateIntent MemStore = mem_CreateIntent" "st_GetIntent MemStore = mem_GetIntent"
  "st_ListIntents MemStore = mem_ListIntents" "st_UpdateIntent MemStore t = mem_UpdateIntent"
  "st_AddCapture MemStore = mem_AddCapture" "st_CapturesFor MemStore = mem_CapturesFor"
  "st_AddSettlement MemStore = mem_AddSettlement"
  "st_SettlementsFor MemStore = mem_SettlementsFor"
  "st_AddRefund MemStore = mem_AddRefund" "st_RefundsFor MemStore = mem_RefundsFor"
  "st_AddChargeback MemStore = mem_AddChargeback"
  "st_ChargebacksFor MemStore = mem_ChargebacksFor"
  "st_UpdateChargeback MemStore t = mem_UpdateChargeback"
  "st_RecordWebhook MemStore = mem_RecordWebhook"
  "st_MarkWebhookProcessed MemStore = mem_MarkWebhookProcessed"
  "st_WebhookExists MemStore = mem_WebhookExists"
  by (simp_all add: MemStore_def)

lemma intents_of_MemStore [simp]: "intents_of MemStore s = ms_intents s"
  by (simp add: intents_of_def mem_GetIntent_def)

lemma rows_of_MemStore [simp]:
  "rows_of MemStore s =
     \<lparr>rwCaptures = slice_at (ms_captures s), rwRefunds = slice_at (ms_refunds s),
      rwSettlements = slice_at (ms_settlements s)\<rparr>"
  by (simp add: rows_of_def mem_CapturesFor_def mem_RefundsFor_def mem_SettlementsFor_def)

lemma slice_at_upd: "slice_at (m(k \<mapsto> vs)) = (slice_at m)(k := vs)"
  by (auto simp: slice_at_def)

lemma mem_UpdateChargeback_frame:
  "\<exists>cb. snd (mem_UpdateChargeback ord ref fn s) = s\<lparr>ms_chargebacks := cb\<rparr>"
proof (induction ord ref fn s rule: mem_UpdateChargeback.induct)
  case (1 ref fn s)
  show ?case by (intro exI [of _ "ms_chargebacks s"]) simp
next
  case (2 k ks ref fn s)
  then show ?case
    by (auto simp: Let_def split: option.split prod.split)
qed

lemma mem_RecordWebhook_frame:
  "\<exists>wh. snd (mem_RecordWebhook w s) = s\<lparr>ms_webhooks := wh\<rparr>"
  by (auto simp: mem_RecordWebhook_def Let_def split: option.split
      intro: exI [of _ "ms_webhooks s"])

lemma mem_MarkWebhookProcessed_frame:
  "\<exists>wh. mem_MarkWebhookProcessed t r ev s = s\<lparr>ms_webhooks := wh\<rparr>"
  by (auto simp: mem_MarkWebhookProcessed_def Let_def split: option.split
      intro: exI [of _ "ms_webhooks s"])

lemmas mem_writer_defs =
  mem_CreateIntent_def mem_AddCapture_def mem_AddRefund_def mem_AddSettlement_def
  mem_AddChargeback_def mem_UpdateIntent_def

interpretation mem: row_store MemStore
proof (unfold_locales, goal_cases)
  case (3 s iid i fn w r i' w' t)
  then show ?case
    by (auto simp: mem_UpdateIntent_def updres_of_def)
next
  case (8 t ord ref cfn s)
  show ?case using mem_UpdateChargeback_frame [of ord ref cfn s] by auto
next
  case (9 wh s)
  show ?case using mem_RecordWebhook_frame [of wh s] by auto
next
  case (10 t rail ev s)
  show ?case using mem_MarkWebhookProcessed_frame [of t rail ev s] by auto
next
  case (16 t ord ref cfn s)
  show ?case using mem_UpdateChargeback_frame [of ord ref cfn s] by auto
next
  case (17 wh s)
  show ?case using mem_RecordWebhook_frame [of wh s] by auto
next
  case (18 t rail ev s)
  show ?case using mem_MarkWebhookProcessed_frame [of t rail ev s] by auto
qed (auto simp: mem_writer_defs slice_at_upd)

end
