(* ===== verification/Rail.thy ===== *)
theory Rail
  imports Domain
begin

text \<open>
  The rail connectors, \<open>internal/rail\<close>: the interface \<open>rail.Adapter\<close> as the record
  \<open>adapter\<close>, its two implementations \<open>DummyAdapter\<close> (\<open>dummy.go\<close>) and \<open>HTTPAdapter\<close>
  (\<open>http.go\<close>), and the \<open>Registry\<close> that selects one by rail. The rail service behind an
  \<open>HTTPAdapter\<close> and the JSON decoder are parameters of the adapter. The locale
  \<open>rail_adapter\<close> says what of an intent an adapter may change; it is interpreted on both
  implementations.
\<close>

section \<open>The interface\<close>

text \<open>Every method may mutate the intent it is given; it returns the error and the intent.\<close>

record adapter =
  ad_Authorize :: "intent \<Rightarrow> error option \<times> intent"
  ad_Capture :: "intent \<Rightarrow> int64 \<Rightarrow> error option \<times> intent"
  ad_Refund :: "intent \<Rightarrow> int64 \<Rightarrow> error option \<times> intent"
  ad_Submit :: "intent \<Rightarrow> error option \<times> intent"
  ad_Void :: "intent \<Rightarrow> error option \<times> intent"
  ad_Verify3DS :: "intent \<Rightarrow> string \<Rightarrow> error option \<times> intent"

section \<open>DummyAdapter\<close>

record dummy_cfg =
  FailAuthorize :: bool
  FailCapture :: bool
  FailRefund :: bool
  FailVoid :: bool
  Fail3DS :: bool

definition NewDummy :: dummy_cfg where
  "NewDummy = \<lparr>FailAuthorize = False, FailCapture = False, FailRefund = False,
     FailVoid = False, Fail3DS = False\<rparr>"

definition dummy_Authorize :: "dummy_cfg \<Rightarrow> intent \<Rightarrow> error option \<times> intent" where
  "dummy_Authorize d i =
     (if FailAuthorize d then (Some ErrAuthorize, i)
      else (None, i\<lparr>iExternalID := ''ext-'' @ iID i\<rparr>))"

definition dummy_Capture :: "dummy_cfg \<Rightarrow> intent \<Rightarrow> int64 \<Rightarrow> error option \<times> intent" where
  "dummy_Capture d i amount = (if FailCapture d then (Some ErrCapture, i) else (None, i))"

definition dummy_Refund :: "dummy_cfg \<Rightarrow> intent \<Rightarrow> int64 \<Rightarrow> error option \<times> intent" where
  "dummy_Refund d i amount = (if FailRefund d then (Some ErrRefund, i) else (None, i))"

definition dummy_Submit :: "dummy_cfg \<Rightarrow> intent \<Rightarrow> error option \<times> intent" where
  "dummy_Submit d i =
     (if FailAuthorize d then (Some ErrAuthorize, i)
      else (None, i\<lparr>iExternalID := ''ext-'' @ iID i, iCapturedAmount := iAmount i\<rparr>))"

definition dummy_Void :: "dummy_cfg \<Rightarrow> intent \<Rightarrow> error option \<times> intent" where
  "dummy_Void d i = (if FailVoid d then (Some ErrVoid, i) else (None, i))"

definition dummy_Verify3DS :: "dummy_cfg \<Rightarrow> intent \<Rightarrow> string \<Rightarrow> error option \<times> intent" where
  "dummy_Verify3DS d i challengeResult =
     (if iRail i \<noteq> RailCard then (Some ErrUnsupported3DS, i)
      else if Fail3DS d \<or> challengeResult = '''' \<or> challengeResult = ''fail''
           then (Some Err3DSVerify, i)
      else (None, i))"

definition DummyAdapter :: "dummy_cfg \<Rightarrow> adapter" where
  "DummyAdapter d =
     \<lparr>ad_Authorize = dummy_Authorize d, ad_Capture = dummy_Capture d,
      ad_Refund = dummy_Refund d, ad_Submit = dummy_Submit d, ad_Void = dummy_Void d,
      ad_Verify3DS = dummy_Verify3DS d\<rparr>"

section \<open>Registry\<close>

record registry =
  rg_dummy :: "dummy_cfg option"
  rg_byRail :: "(rail \<rightharpoonup> adapter) option"
  rg_fallback :: "adapter option"

definition NewRegistry :: "dummy_cfg \<Rightarrow> registry" where
  "NewRegistry d =
     \<lparr>rg_dummy = Some d, rg_byRail = None, rg_fallback = Some (DummyAdapter d)\<rparr>"

definition NewRegistryFromMap :: "(rail \<rightharpoonup> adapter) \<Rightarrow> adapter option \<Rightarrow> registry" where
  "NewRegistryFromMap byRail fallback =
     \<lparr>rg_dummy = None, rg_byRail = Some byRail, rg_fallback = fallback\<rparr>"

text \<open>\<open>For\<close>; \<open>None\<close> is the nil adapter, on which a method call panics.\<close>

definition Registry_For :: "registry \<Rightarrow> rail \<Rightarrow> adapter option" where
  "Registry_For r rail =
     (case (case rg_byRail r of None \<Rightarrow> None | Some m \<Rightarrow> m rail) of
        Some a \<Rightarrow> Some a
      | None \<Rightarrow>
          (case rg_fallback r of
             Some a \<Rightarrow> Some a
           | None \<Rightarrow> (case rg_dummy r of Some d \<Rightarrow> Some (DummyAdapter d) | None \<Rightarrow> None)))"

section \<open>HTTPAdapter\<close>

record authorizeReq =
  aqPaymentID :: string
  aqRail :: string
  aqAmount :: string
  aqCurrency :: string
  aqPayerRef :: string
  aqIdempotencyKey :: string

record railResponse =
  rrStatus :: string
  rrRailRef :: string
  rrSettleAmount :: "string option"
  rrErrorCode :: string
  rrErrorMessage :: string

record statusResponse =
  srPaymentID :: string
  srStatus :: string
  srRailRef :: string

datatype rail_body = AuthorizeBody authorizeReq | AmountBody string

text \<open>A request as it leaves the adapter: path, \<open>Idempotency-Key\<close> header, body.\<close>

datatype http_req = HttpPost string "string option" rail_body | HttpGet string

text \<open>
  What becomes of a request: it cannot be built (a bad URL), it is not answered, or it is
  answered with a status code, the bytes that could be read of the body (at most a megabyte)
  and the error that stopped the reading, if any.
\<close>

datatype http_out = NewRequestErr string | DoErr string | HttpResp nat bytes "string option"

text \<open>
  The adapter with its environment: the remote service as seen through the HTTP client, and
  \<open>json.Unmarshal\<close> into the two response types (\<open>Inl\<close> is the decoder's error text).
\<close>

record http_adapter =
  haBaseURL :: string
  haRailName :: string
  haSend :: "http_req \<Rightarrow> http_out"
  haDecode :: "bytes \<Rightarrow> string + railResponse"
  haDecodeStatus :: "bytes \<Rightarrow> string + statusResponse"

definition NewHTTP ::
  "(http_req \<Rightarrow> http_out) \<Rightarrow> (bytes \<Rightarrow> string + railResponse) \<Rightarrow> (bytes \<Rightarrow> string + statusResponse)
     \<Rightarrow> string \<Rightarrow> string \<Rightarrow> http_adapter" where
  "NewHTTP send dec decs baseURL railName =
     \<lparr>haBaseURL = strings_TrimRight baseURL CHR ''/'', haRailName = railName,
      haSend = send, haDecode = dec, haDecodeStatus = decs\<rparr>"

text \<open>\<open>strings.TrimSpace\<close> on ASCII text.\<close>

definition is_space :: "char \<Rightarrow> bool" where
  "is_space c = (c \<in> {CHR '' '', CHR 0x09, CHR 0x0A, CHR 0x0B, CHR 0x0C, CHR 0x0D})"

definition strings_TrimSpace :: "string \<Rightarrow> string" where
  "strings_TrimSpace s = rev (dropWhile is_space (rev (dropWhile is_space s)))"

definition nat_text :: "nat \<Rightarrow> string" where
  "nat_text n = (if n = 0 then ''0'' else dec_digits n)"

definition railText :: "http_adapter \<Rightarrow> string" where
  "railText a = ''rail '' @ haRailName a @ '': ''"

definition http_do :: "http_adapter \<Rightarrow> http_req \<Rightarrow> error + railResponse" where
  "http_do a req =
     (case haSend a req of
        NewRequestErr m \<Rightarrow> Inl (ErrorString m)
      | DoErr m \<Rightarrow> Inl (ErrorString m)
      | HttpResp code body (Some m) \<Rightarrow> Inl (ErrorString m)
      | HttpResp code body None \<Rightarrow>
          (case haDecode a body of
             Inl m \<Rightarrow>
               (if 400 \<le> code
                then Inl (ErrorString (railText a @ ''status '' @ nat_text code @ '': '' @
                       strings_TrimSpace body))
                else Inl (Errorf (railText a @ ''decode: '') (ErrorString m) ''''))
           | Inr r \<Rightarrow>
               (if 400 \<le> code \<or> rrStatus r = ''failed''
                then
                  let msg = (if rrErrorMessage r = '''' then strings_TrimSpace body
                             else rrErrorMessage r);
                      cd = (if rrErrorCode r = '''' then ''HTTP_'' @ nat_text code
                            else rrErrorCode r)
                  in Inl (ErrorString (railText a @ cd @ '': '' @ msg))
                else Inr r)))"

text \<open>\<open>withIdempotency\<close> and \<open>idempotencyFromContext\<close>: an empty key sets no header.\<close>

definition idem_header :: "string \<Rightarrow> string option" where
  "idem_header key = (if key = '''' then None else Some key)"

definition http_post :: "http_adapter \<Rightarrow> string \<Rightarrow> string option \<Rightarrow> rail_body \<Rightarrow> error + railResponse" where
  "http_post a path idem body = http_do a (HttpPost (haBaseURL a @ path) idem body)"

definition http_get :: "http_adapter \<Rightarrow> string \<Rightarrow> error + statusResponse" where
  "http_get a path =
     (case haSend a (HttpGet (haBaseURL a @ path)) of
        NewRequestErr m \<Rightarrow> Inl (ErrorString m)
      | DoErr m \<Rightarrow> Inl (ErrorString m)
      | HttpResp code body (Some m) \<Rightarrow> Inl (ErrorString m)
      | HttpResp code body None \<Rightarrow>
          (if 400 \<le> code
           then Inl (ErrorString (railText a @ ''status '' @ nat_text code @ '': '' @
                  strings_TrimSpace body))
           else (case haDecodeStatus a body of
                   Inl m \<Rightarrow> Inl (Errorf (railText a @ ''decode: '') (ErrorString m) '''')
                 | Inr st \<Rightarrow> Inr st)))"

definition amountString :: "int64 \<Rightarrow> string" where
  "amountString n = strconv_FormatInt n"

definition paymentIDFor :: "intent \<Rightarrow> string" where
  "paymentIDFor i = (if iExternalID i \<noteq> '''' then iExternalID i else iID i)"

text \<open>\<open>fmt.Errorf("%w: %v", sentinel, err)\<close>.\<close>

definition wrap_err :: "error \<Rightarrow> error \<Rightarrow> error" where
  "wrap_err sentinel e = Errorf '''' sentinel ('': '' @ error_text e)"

definition http_authorizeReq :: "http_adapter \<Rightarrow> intent \<Rightarrow> authorizeReq" where
  "http_authorizeReq a i =
     \<lparr>aqPaymentID = iID i, aqRail = haRailName a, aqAmount = amountString (iAmount i),
      aqCurrency = iCurrency i, aqPayerRef = iPayerRef i, aqIdempotencyKey = iIdempotencyKey i\<rparr>"

definition http_Authorize :: "http_adapter \<Rightarrow> intent \<Rightarrow> error option \<times> intent" where
  "http_Authorize a i =
     (case http_post a ''/v1/authorize'' (idem_header (iIdempotencyKey i))
             (AuthorizeBody (http_authorizeReq a i)) of
        Inl e \<Rightarrow> (Some (wrap_err ErrAuthorize e), i)
      | Inr r \<Rightarrow>
          (None, i\<lparr>iExternalID := (if rrRailRef r \<noteq> '''' then rrRailRef r else ''ext-'' @ iID i)\<rparr>))"

definition http_Capture :: "http_adapter \<Rightarrow> intent \<Rightarrow> int64 \<Rightarrow> error option \<times> intent" where
  "http_Capture a i amount =
     (case http_post a (''/v1/capture/'' @ paymentIDFor i) None (AmountBody (amountString amount)) of
        Inl e \<Rightarrow> (Some (wrap_err ErrCapture e), i)
      | Inr r \<Rightarrow> (None, i))"

definition http_Refund :: "http_adapter \<Rightarrow> intent \<Rightarrow> int64 \<Rightarrow> error option \<times> intent" where
  "http_Refund a i amount =
     (case http_post a (''/v1/refund/'' @ paymentIDFor i) None (AmountBody (amountString amount)) of
        Inl e \<Rightarrow> (Some (wrap_err ErrRefund e), i)
      | Inr r \<Rightarrow> (None, i))"

text \<open>The captured amount is the rail's settle amount when it parses, else the whole amount.\<close>

definition http_Submit :: "http_adapter \<Rightarrow> intent \<Rightarrow> error option \<times> intent" where
  "http_Submit a i =
     (case http_post a ''/v1/authorize'' (idem_header (iIdempotencyKey i))
             (AuthorizeBody (http_authorizeReq a i)) of
        Inl e \<Rightarrow> (Some (wrap_err ErrAuthorize e), i)
      | Inr r \<Rightarrow>
          (None, i\<lparr>iExternalID := (if rrRailRef r \<noteq> '''' then rrRailRef r else ''ext-'' @ iID i),
                   iCapturedAmount :=
                     (case rrSettleAmount r of
                        Some sa \<Rightarrow> (case strconv_ParseInt sa of Some n \<Rightarrow> n | None \<Rightarrow> iAmount i)
                      | None \<Rightarrow> iAmount i)\<rparr>))"

definition http_Void :: "http_adapter \<Rightarrow> intent \<Rightarrow> error option \<times> intent" where
  "http_Void a i =
     (case http_post a (''/v1/refund/'' @ paymentIDFor i) None (AmountBody ''0'') of
        Inl e \<Rightarrow> (Some (wrap_err ErrVoid e), i)
      | Inr r \<Rightarrow> (None, i))"

text \<open>
  \<open>strings.EqualFold\<close> with \<open>"failed"\<close>: none of its letters has a case variant outside
  ASCII.
\<close>

definition char_lower :: "char \<Rightarrow> char" where
  "char_lower c =
     (if 65 \<le> (of_char c :: nat) \<and> (of_char c :: nat) \<le> 90 then char_of (of_char c + (32 :: nat))
      else c)"

definition equal_fold :: "string \<Rightarrow> string \<Rightarrow> bool" where
  "equal_fold s t = (map char_lower s = map char_lower t)"

definition http_Verify3DS :: "http_adapter \<Rightarrow> intent \<Rightarrow> string \<Rightarrow> error option \<times> intent" where
  "http_Verify3DS a i challengeResult =
     (if iRail i \<noteq> RailCard then (Some ErrUnsupported3DS, i)
      else if challengeResult = '''' \<or> challengeResult = ''fail'' then (Some Err3DSVerify, i)
      else
        (case http_get a (''/v1/status/'' @ iID i) of
           Inl e \<Rightarrow> (Some (wrap_err Err3DSVerify e), i)
         | Inr st \<Rightarrow>
             (if equal_fold (srStatus st) ''failed'' then (Some Err3DSVerify, i) else (None, i))))"

definition HTTPAdapter :: "http_adapter \<Rightarrow> adapter" where
  "HTTPAdapter a =
     \<lparr>ad_Authorize = http_Authorize a, ad_Capture = http_Capture a, ad_Refund = http_Refund a,
      ad_Submit = http_Submit a, ad_Void = http_Void a, ad_Verify3DS = http_Verify3DS a\<rparr>"

section \<open>What an adapter may do to an intent\<close>

locale rail_adapter =
  fixes a :: adapter
  assumes authorize_ok: "ad_Authorize a i = (None, i') \<Longrightarrow> \<exists>x. i' = i\<lparr>iExternalID := x\<rparr>"
    and authorize_err: "ad_Authorize a i = (Some e, i') \<Longrightarrow> i' = i"
    and submit_ok:
      "ad_Submit a i = (None, i') \<Longrightarrow> \<exists>x c. i' = i\<lparr>iExternalID := x, iCapturedAmount := c\<rparr>"
    and submit_err: "ad_Submit a i = (Some e, i') \<Longrightarrow> i' = i"
    and capture_pure: "snd (ad_Capture a i n) = i"
    and refund_pure: "snd (ad_Refund a i n) = i"
    and void_pure: "snd (ad_Void a i) = i"
    and verify_pure: "snd (ad_Verify3DS a i res) = i"
    and verify_card: "iRail i \<noteq> RailCard \<Longrightarrow> fst (ad_Verify3DS a i res) = Some ErrUnsupported3DS"
    and verify_empty: "iRail i = RailCard \<Longrightarrow> res \<in> {'''', ''fail''} \<Longrightarrow>
      fst (ad_Verify3DS a i res) = Some Err3DSVerify"
begin

lemma pure_results:
  "ad_Capture a i n = (x, i') \<Longrightarrow> i' = i" "ad_Refund a i n = (x, i') \<Longrightarrow> i' = i"
  "ad_Void a i = (x, i') \<Longrightarrow> i' = i" "ad_Verify3DS a i res = (x, i') \<Longrightarrow> i' = i"
  using capture_pure [of i n] refund_pure [of i n] void_pure [of i] verify_pure [of i res] by simp_all

lemma authorize_frame:
  "\<exists>x. snd (ad_Authorize a i) = i\<lparr>iExternalID := x\<rparr>"
proof (cases "ad_Authorize a i")
  case (Pair e i')
  show ?thesis
  proof (cases e)
    case None
    with Pair show ?thesis using authorize_ok [of i i'] by simp
  next
    case (Some err)
    with Pair have "i' = i" using authorize_err [of i err i'] by simp
    with Pair show ?thesis by (intro exI [of _ "iExternalID i"]) simp
  qed
qed

end

text \<open>An adapter that submits for the whole amount or not at all.\<close>

locale full_submit_adapter = rail_adapter +
  assumes submit_full: "ad_Submit a i = (None, i') \<Longrightarrow> iCapturedAmount i' = iAmount i"

lemmas dummy_defs =
  DummyAdapter_def dummy_Authorize_def dummy_Capture_def dummy_Refund_def dummy_Submit_def
  dummy_Void_def dummy_Verify3DS_def

lemmas http_defs =
  HTTPAdapter_def http_Authorize_def http_Capture_def http_Refund_def http_Submit_def
  http_Void_def http_Verify3DS_def

interpretation dummy: full_submit_adapter "DummyAdapter d" for d
  by unfold_locales (auto simp: dummy_defs split: if_splits)

interpretation http: rail_adapter "HTTPAdapter h" for h
  by unfold_locales (fastforce simp: http_defs split: if_splits sum.splits option.splits)+

text \<open>Every adapter a registry can select honours the contract.\<close>

definition rails_ok :: "registry \<Rightarrow> bool" where
  "rails_ok rg \<longleftrightarrow> (\<forall>r a. Registry_For rg r = Some a \<longrightarrow> rail_adapter a)"

lemma rails_okD: "rails_ok rg \<Longrightarrow> Registry_For rg r = Some a \<Longrightarrow> rail_adapter a"
  by (simp add: rails_ok_def)

lemma rails_ok_dummy: "rails_ok (NewRegistry d)"
  by (auto simp: rails_ok_def Registry_For_def NewRegistry_def dummy.rail_adapter_axioms)

text \<open>A registry whose adapters submit for the whole amount, as the dummies do.\<close>

definition rails_full :: "registry \<Rightarrow> bool" where
  "rails_full rg \<longleftrightarrow> (\<forall>r a. Registry_For rg r = Some a \<longrightarrow> full_submit_adapter a)"

lemma rails_fullD: "rails_full rg \<Longrightarrow> Registry_For rg r = Some a \<Longrightarrow> full_submit_adapter a"
  by (simp add: rails_full_def)

lemma rails_full_ok [intro]: "rails_full rg \<Longrightarrow> rails_ok rg"
  by (simp add: rails_ok_def rails_full_def full_submit_adapter_def)

lemma rails_full_dummy: "rails_full (NewRegistry d)"
  by (auto simp: rails_full_def Registry_For_def NewRegistry_def dummy.full_submit_adapter_axioms)

end
