(* ===== verification/Clients.thy ===== *)
theory Clients
  imports Rail
begin

text \<open>
  The two other outbound clients: the 3DS MPI (\<open>internal/mpi\<close>) and fraud detection
  (\<open>internal/fraud\<close>), each with its no-network dummy and its HTTP implementation. The remote
  services are parameters: functions from the request to what became of it.
\<close>

section \<open>3DS MPI\<close>

record challenge =
  chACSURL :: string
  chPayload :: string

record mpi_client =
  mp_Challenge :: "intent \<Rightarrow> error + challenge"
  mp_Resume :: "intent \<Rightarrow> string \<Rightarrow> error option"

record mpi_dummy =
  FailChallenge :: bool
  FailResume :: bool

definition NewMPIDummy :: mpi_dummy where
  "NewMPIDummy = \<lparr>FailChallenge = False, FailResume = False\<rparr>"

definition mpi_dummy_Challenge :: "mpi_dummy \<Rightarrow> intent \<Rightarrow> error + challenge" where
  "mpi_dummy_Challenge d i =
     (if iRail i \<noteq> RailCard then Inl (ErrorString ''3ds only supported for card rail'')
      else if FailChallenge d then Inl ErrChallengeFailed
      else Inr \<lparr>chACSURL = ''https://acs.example/3ds/'' @ iID i, chPayload = ''payload-'' @ iID i\<rparr>)"

definition mpi_dummy_Resume :: "mpi_dummy \<Rightarrow> intent \<Rightarrow> string \<Rightarrow> error option" where
  "mpi_dummy_Resume d i assertion =
     (if FailResume d \<or> assertion = '''' \<or> assertion = ''fail'' then Some ErrChallengeFailed
      else None)"

definition MPIDummyClient :: "mpi_dummy \<Rightarrow> mpi_client" where
  "MPIDummyClient d = \<lparr>mp_Challenge = mpi_dummy_Challenge d, mp_Resume = mpi_dummy_Resume d\<rparr>"

text \<open>
  The bodies of the two MPI calls. \<open>Challenge\<close> leaves the amount of its request unset, so
  the record sent carries Go's empty string there.
\<close>

record challengeReq =
  cqPaymentID :: string
  cqRail :: string
  cqAmount :: string
  cqCurrency :: string
  cqPayerRef :: string

record resumeReq =
  rqPaymentID :: string
  rqAssertion :: string

datatype mpi_req = MpiChallenge string challengeReq | MpiResume string resumeReq

record mpi_http =
  mhBaseURL :: string
  mhSend :: "mpi_req \<Rightarrow> http_out"
  mhDecode :: "bytes \<Rightarrow> string + challenge"

definition mpi_http_Challenge :: "mpi_http \<Rightarrow> intent \<Rightarrow> error + challenge" where
  "mpi_http_Challenge c i =
     (if iRail i \<noteq> RailCard then Inl (ErrorString ''3ds only supported for card rail'')
      else
        (case mhSend c (MpiChallenge (mhBaseURL c @ ''/v1/3ds/challenge'')
                 \<lparr>cqPaymentID = iID i, cqRail = iRail i, cqAmount = '''',
                  cqCurrency = iCurrency i, cqPayerRef = iPayerRef i\<rparr>) of
           NewRequestErr m \<Rightarrow> Inl (ErrorString m)
         | DoErr m \<Rightarrow> Inl (wrap_err ErrChallengeFailed (ErrorString m))
         | HttpResp code body (Some m) \<Rightarrow> Inl (ErrorString m)
         | HttpResp code body None \<Rightarrow>
             (if 400 \<le> code
              then Inl (Errorf '''' ErrChallengeFailed
                     ('': status '' @ nat_text code @ '': '' @ strings_TrimSpace body))
              else (case mhDecode c body of
                      Inl m \<Rightarrow> Inl (Errorf ''mpi: decode: '' (ErrorString m) '''')
                    | Inr ch \<Rightarrow> Inr ch))))"

text \<open>
  \<open>Resume\<close> looks at the status code first and reads the body only for the text of an error,
  using what could be read of it.
\<close>

definition mpi_http_Resume :: "mpi_http \<Rightarrow> intent \<Rightarrow> string \<Rightarrow> error option" where
  "mpi_http_Resume c i assertion =
     (case mhSend c (MpiResume (mhBaseURL c @ ''/v1/3ds/resume'')
              \<lparr>rqPaymentID = iID i, rqAssertion = assertion\<rparr>) of
        NewRequestErr m \<Rightarrow> Some (ErrorString m)
      | DoErr m \<Rightarrow> Some (wrap_err ErrChallengeFailed (ErrorString m))
      | HttpResp code body _ \<Rightarrow>
          (if code = 408 \<or> code = 504 then Some ErrTimeout
           else if 400 \<le> code
           then Some (Errorf '''' ErrChallengeFailed
                  ('': status '' @ nat_text code @ '': '' @ strings_TrimSpace body))
           else None))"

definition mpi_NewHTTP ::
  "(mpi_req \<Rightarrow> http_out) \<Rightarrow> (bytes \<Rightarrow> string + challenge) \<Rightarrow> string \<Rightarrow> mpi_http" where
  "mpi_NewHTTP send dec baseURL =
     \<lparr>mhBaseURL = strings_TrimRight baseURL CHR ''/'', mhSend = send, mhDecode = dec\<rparr>"

definition MPIHTTPClient :: "mpi_http \<Rightarrow> mpi_client" where
  "MPIHTTPClient c = \<lparr>mp_Challenge = mpi_http_Challenge c, mp_Resume = mpi_http_Resume c\<rparr>"

section \<open>Fraud detection\<close>

record decision =
  dcAllowed :: bool
  dcReason :: string
  dcScore :: int

record fraud_client =
  fr_Score :: "intent \<Rightarrow> error + decision"

record fraud_dummy =
  FailScore :: bool

definition NewFraudDummy :: fraud_dummy where
  "NewFraudDummy = \<lparr>FailScore = False\<rparr>"

definition fraud_dummy_Score :: "fraud_dummy \<Rightarrow> intent \<Rightarrow> error + decision" where
  "fraud_dummy_Score d i =
     (if FailScore d
      then Inr \<lparr>dcAllowed = False, dcReason = ''fraud score below threshold'', dcScore = 99\<rparr>
      else Inr \<lparr>dcAllowed = True, dcReason = '''', dcScore = 0\<rparr>)"

definition FraudDummyClient :: "fraud_dummy \<Rightarrow> fraud_client" where
  "FraudDummyClient d = \<lparr>fr_Score = fraud_dummy_Score d\<rparr>"

text \<open>
  The HTTP client posts an empty body to \<open>/v1/fraud/score\<close> and never reads the answer's
  body: the service is a function of the URL alone.
\<close>

record fraud_http =
  fhBaseURL :: string
  fhSend :: "string \<Rightarrow> http_out"

definition fraud_http_Score :: "fraud_http \<Rightarrow> intent \<Rightarrow> error + decision" where
  "fraud_http_Score c i =
     (case fhSend c (fhBaseURL c @ ''/v1/fraud/score'') of
        NewRequestErr m \<Rightarrow> Inl (ErrorString m)
      | DoErr m \<Rightarrow> Inl (ErrorString m)
      | HttpResp code _ _ \<Rightarrow>
          (if 400 \<le> code then Inl (ErrorString (''fraud service returned '' @ nat_text code))
           else Inr \<lparr>dcAllowed = True, dcReason = '''', dcScore = 0\<rparr>))"

text \<open>Unlike the other clients it takes the base URL as it is, a trailing slash included.\<close>

definition fraud_NewHTTP :: "(string \<Rightarrow> http_out) \<Rightarrow> string \<Rightarrow> fraud_http" where
  "fraud_NewHTTP send baseURL = \<lparr>fhBaseURL = baseURL, fhSend = send\<rparr>"

definition FraudHTTPClient :: "fraud_http \<Rightarrow> fraud_client" where
  "FraudHTTPClient c = \<lparr>fr_Score = fraud_http_Score c\<rparr>"

end
