(* ===== verification/Float64.thy ===== *)
theory Float64
  imports Prelude
begin

text \<open>
  The float64 arithmetic of the metrics (\<open>internal/metrics/metrics.go\<close>): a finite value is a
  fraction of a mantissa by a power of two; every operation computes exactly and rounds to 53
  significant bits, to nearest and ties to even. The values here are far from the exponents at
  which float64 overflows or loses bits.
\<close>

record f64 =
  fNeg :: bool
  fMant :: int
  fScale :: nat

text \<open>The number of low bits a mantissa has to give up, and the mantissa without them.\<close>

function excess :: "int \<Rightarrow> nat" where
  "excess m = (if m < 2 ^ 53 then 0 else Suc (excess (m div 2)))"
  by auto
termination by (relation "measure nat") auto

declare excess.simps [simp del]

definition round53 :: "int \<Rightarrow> int" where
  "round53 m =
     (let k = excess m; q = m div 2 ^ k; r = m mod 2 ^ k
      in (if 2 ^ k < 2 * r \<or> 2 ^ k = 2 * r \<and> odd q then q + 1 else q) * 2 ^ k)"

text \<open>
  The operations the code uses, on operands of one sign: conversion of an integer, quotient of
  two integers (a quotient to 128 binary digits and a sticky bit that says whether anything is
  left below), sum, product with an integer, difference with an integer below, and the
  conversions to int64.
\<close>

definition f64_quot :: "int \<Rightarrow> int \<Rightarrow> int" where
  "f64_quot a b =
     round53 (2 * (a * 2 ^ 128 div b) + (if a * 2 ^ 128 mod b = 0 then 0 else 1))"

definition f64_whole :: "f64 \<Rightarrow> int" where
  "f64_whole f = fMant f div 2 ^ fScale f"

definition f64_int64 :: "f64 \<Rightarrow> int64" where
  "f64_int64 f = word_of_int (if fNeg f then - f64_whole f else f64_whole f)"

definition f64_times :: "int \<Rightarrow> f64 \<Rightarrow> f64" where
  "f64_times n f = f\<lparr>fMant := round53 (n * fMant f)\<rparr>"

definition f64_minus :: "f64 \<Rightarrow> int \<Rightarrow> f64" where
  "f64_minus f n = f\<lparr>fMant := round53 (fMant f - round53 n * 2 ^ fScale f)\<rparr>"

text \<open>\<open>time.Duration.Seconds\<close>: the whole seconds plus the rest as a quotient by \<open>1e9\<close>.\<close>

definition duration_Seconds :: "duration \<Rightarrow> f64" where
  "duration_Seconds d =
     (let D = \<bar>sint d\<bar>
      in \<lparr>fNeg = sint d < 0,
          fMant = round53 (round53 (D div 10 ^ 9) * 2 ^ 129 + f64_quot (D mod 10 ^ 9) (10 ^ 9)),
          fScale = 129\<rparr>)"

section \<open>Rounding\<close>

lemma div_less_mult:
  fixes m n p :: int assumes "m < n * p" "0 < p" shows "m div p < n"
proof -
  have "m div p * p \<le> m" using assms(2) div_mult_mod_eq [of m p] pos_mod_sign [of p m] by linarith
  with assms(1) have "m div p * p < n * p" by linarith
  with assms(2) show ?thesis by simp
qed

lemma half_less: "m div 2 < p \<Longrightarrow> m < 2 * p" for m p :: int
  by presburger

lemma half_le: "p \<le> m div 2 \<Longrightarrow> 2 * p \<le> m" for m p :: int
  by presburger

lemma excess_upper: "m < 2 ^ (53 + excess m)"
proof (induction m rule: excess.induct)
  case (1 m)
  show ?case
  proof (cases "m < 2 ^ 53")
    case True
    then show ?thesis by (subst excess.simps) simp
  next
    case False
    with half_less [OF 1 [OF False]] show ?thesis by (subst excess.simps) (simp add: power_add)
  qed
qed

lemma excess_lower: "excess m \<noteq> 0 \<Longrightarrow> 2 ^ (52 + excess m) \<le> m"
proof (induction m rule: excess.induct)
  case (1 m)
  then have m: "\<not> m < 2 ^ 53" by (metis excess.simps)
  then have e: "excess m = Suc (excess (m div 2))" by (subst excess.simps) simp
  show ?case
  proof (cases "excess (m div 2) = 0")
    case True
    with m show ?thesis by (simp add: e)
  next
    case False
    with 1 m have "2 ^ (52 + excess (m div 2)) \<le> m div 2" by blast
    from half_le [OF this] show ?thesis by (simp add: e power_add)
  qed
qed

lemma excess_le: assumes "m < 2 ^ (53 + k)" shows "excess m \<le> k"
proof (rule ccontr)
  assume "\<not> ?thesis"
  then have k: "excess m \<noteq> 0" "53 + k \<le> 52 + excess m" by simp_all
  then have "(2::int) ^ (53 + k) \<le> 2 ^ (52 + excess m)" by (intro power_increasing) simp_all
  with excess_lower [OF k(1)] assms show False by linarith
qed

text \<open>A mantissa fits when 53 bits hold it.\<close>

definition fits :: "int \<Rightarrow> bool" where
  "fits m \<longleftrightarrow> (\<exists>q k. 0 \<le> q \<and> q < 2 ^ 53 \<and> m = q * 2 ^ k)"

lemma fits_small: "0 \<le> m \<Longrightarrow> m < 2 ^ 53 \<Longrightarrow> fits m"
  unfolding fits_def by (rule exI [of _ m], rule exI [of _ 0]) simp

lemma fits_shift: "fits m \<Longrightarrow> fits (m * 2 ^ s)"
  unfolding fits_def by (auto simp: power_add mult.assoc) (metis power_add)

lemma fits_mod: assumes "fits m" shows "fits (m mod 2 ^ s)"
proof -
  obtain q k where q: "0 \<le> q" "q < 2 ^ 53" "m = q * 2 ^ k" using assms by (auto simp: fits_def)
  show ?thesis
  proof (cases "k \<le> s")
    case True
    then have "m mod 2 ^ s = (q mod 2 ^ (s - k)) * 2 ^ k"
      using mult_mod_left [of q "2 ^ (s - k)" "2 ^ k"] q(3) by (simp flip: power_add)
    moreover have "q mod 2 ^ (s - k) \<le> q" using q(1) by (simp add: zmod_le_nonneg_dividend)
    ultimately show ?thesis using q unfolding fits_def
      by (intro exI [of _ "q mod 2 ^ (s - k)"] exI [of _ k]) auto
  next
    case False
    then have "2 ^ s dvd m" using q(3) by (simp add: le_imp_power_dvd)
    then show ?thesis using fits_small [of 0] by (simp add: mod_eq_0_iff_dvd)
  qed
qed

lemma fits_dvd: assumes "fits m" "2 ^ n \<le> m" shows "2 ^ (n - 52) dvd m"
proof -
  obtain q k where q: "0 \<le> q" "q < 2 ^ 53" "m = q * 2 ^ k" using assms by (auto simp: fits_def)
  have "q * 2 ^ k < 2 ^ 53 * 2 ^ k" using q(2) by simp
  then have "(2::int) ^ n < 2 ^ (53 + k)" using assms(2) q(3) unfolding power_add by linarith
  then have "n < 53 + k" by (rule power_less_imp_less_exp [rotated]) simp
  then show ?thesis using q(3) by (simp add: le_imp_power_dvd)
qed

lemma round53_fits: assumes "fits m" shows "round53 m = m"
proof -
  obtain q k where q: "0 \<le> q" "q < 2 ^ 53" "m = q * 2 ^ k" using assms by (auto simp: fits_def)
  then have "m < 2 ^ (53 + k)" by (simp add: power_add)
  from excess_le [OF this] have "2 ^ excess m dvd m" using q(3) by (simp add: le_imp_power_dvd)
  then show ?thesis by (simp add: round53_def Let_def mod_eq_0_iff_dvd)
qed

lemma fits_mult: assumes "0 \<le> q" "q \<le> 2 ^ 53" shows "fits (q * 2 ^ k)"
proof (cases "q = 2 ^ 53")
  case True
  have "(2::int) ^ 53 = 2 ^ 52 * 2" by simp
  then have "q * 2 ^ k = 2 ^ 52 * 2 ^ Suc k" unfolding True power_Suc by (simp only: mult.assoc)
  moreover have "0 \<le> (2::int) ^ 52" "(2::int) ^ 52 < 2 ^ 53" by simp_all
  ultimately show ?thesis unfolding fits_def by blast
next
  case False
  then show ?thesis using assms unfolding fits_def by (intro exI [of _ q] exI [of _ k]) simp
qed

lemma fits_round53: assumes "0 \<le> m" shows "fits (round53 m)"
proof -
  define q where "q = m div 2 ^ excess m"
  have "q < 2 ^ 53" unfolding q_def
    by (rule div_less_mult) (use excess_upper [of m] in \<open>simp_all add: power_add\<close>)
  moreover have "0 \<le> q" using assms by (simp add: q_def pos_imp_zdiv_nonneg_iff)
  ultimately have "fits (q * 2 ^ excess m)" "fits ((q + 1) * 2 ^ excess m)"
    by (intro fits_mult; simp)+
  then show ?thesis by (simp add: round53_def Let_def q_def [symmetric])
qed

lemma round53_nonneg: "0 \<le> m \<Longrightarrow> 0 \<le> round53 m"
  by (simp add: round53_def Let_def pos_imp_zdiv_nonneg_iff)

lemma round53_error: "2 * \<bar>round53 m - m\<bar> \<le> 2 ^ excess m"
proof -
  let ?k = "excess m"
  define q r where "q = m div 2 ^ ?k" and "r = m mod 2 ^ ?k"
  have m: "m = q * 2 ^ ?k + r" unfolding q_def r_def by (rule div_mult_mod_eq [symmetric])
  have r: "0 \<le> r" "r < 2 ^ ?k" by (simp_all add: r_def)
  have e: "round53 m - m = (if 2 ^ ?k < 2 * r \<or> 2 ^ ?k = 2 * r \<and> odd q then 2 ^ ?k - r else - r)"
    unfolding round53_def Let_def q_def [symmetric] r_def [symmetric]
    by (subst (3) m) (simp add: algebra_simps)
  show ?thesis unfolding e using r by auto
qed

text \<open>What is left of the error is relative: half a unit in the 53rd bit.\<close>

lemma round53_error_less: assumes "m < 2 ^ n" shows "2 ^ 54 * \<bar>round53 m - m\<bar> \<le> 2 ^ n"
proof (cases "53 \<le> n")
  case True
  then have n: "(2::int) ^ n = 2 ^ 53 * 2 ^ (n - 53)"
    using power_add [of "2::int" 53 "n - 53"] by (simp only: le_add_diff_inverse)
  have "excess m \<le> n - 53" using excess_le [of m "n - 53"] assms True by simp
  then have "(2::int) ^ excess m \<le> 2 ^ (n - 53)" by (intro power_increasing) simp_all
  with round53_error [of m] have "2 * \<bar>round53 m - m\<bar> \<le> 2 ^ (n - 53)" by linarith
  then show ?thesis by (simp add: n)
next
  case False
  then have "(2::int) ^ n \<le> 2 ^ 53" by (intro power_increasing) simp_all
  with assms have "m < 2 ^ 53" by linarith
  then have "round53 m = m" by (simp add: round53_def excess.simps [of m])
  then show ?thesis by simp
qed

text \<open>
  A product by ten of a fraction below one stays below ten: the largest fraction is half a unit
  of its own too small to be rounded up to one.
\<close>

lemma round53_ten:
  assumes "0 \<le> m" "m < 2 ^ s" "fits m" shows "round53 (10 * m) < 10 * 2 ^ s"
proof (rule ccontr)
  assume "\<not> ?thesis"
  then have ge: "10 * 2 ^ s \<le> round53 (10 * m)" by simp
  have "10 * m < 2 ^ (s + 4)" unfolding power_add using assms(1,2) by simp
  from round53_error_less [OF this] have "2 ^ 53 * \<bar>round53 (10 * m) - 10 * m\<bar> \<le> 8 * 2 ^ s"
    by (simp add: power_add)
  moreover have "10 * 2 ^ s - 10 * m \<le> \<bar>round53 (10 * m) - 10 * m\<bar>" using ge by linarith
  ultimately have "2 ^ 53 * (10 * 2 ^ s - 10 * m) \<le> 8 * 2 ^ s"
    using mult_left_mono [of "10 * 2 ^ s - 10 * m" "\<bar>round53 (10 * m) - 10 * m\<bar>" "2 ^ 53"]
    by (meson order_trans zero_le_numeral zero_le_power)
  then have near: "2 ^ 53 * (2 ^ s - m) < 2 ^ s" using assms(2) by simp
  show False
  proof (cases "s \<le> 52")
    case True
    then have "(2::int) ^ s \<le> 2 ^ 52" by (intro power_increasing) simp_all
    with near assms(2) show False by simp
  next
    case False
    then have s: "s = (s - 53) + 53" by simp
    then have two: "(2::int) ^ s = 2 ^ 53 * 2 ^ (s - 53)" by (metis mult.commute power_add)
    have "2 ^ (s - 1) \<le> m"
    proof -
      have "(2::int) ^ s = 2 * 2 ^ (s - 1)" using False by (simp flip: power_Suc)
      with near assms(2) show ?thesis by simp
    qed
    from fits_dvd [OF assms(3) this] have "2 ^ (s - 53) dvd m" using False by simp
    moreover have "(2::int) ^ (s - 53) dvd 2 ^ s" by (simp add: le_imp_power_dvd)
    ultimately have "2 ^ (s - 53) dvd 2 ^ s - m" by simp
    then have "2 ^ (s - 53) \<le> 2 ^ s - m" using assms(2) by (simp add: zdvd_imp_le)
    with near two show False by simp
  qed
qed

end
