(* ===== verification/Observe.thy ===== *)
theory Observe
  imports Domain Float64
begin

text \<open>
  What the service observes of itself: the audit sinks of \<open>internal/audit/audit.go\<close> and the
  metrics registry of \<open>internal/metrics/metrics.go\<close>.
\<close>

section \<open>Audit\<close>

record audit_event =
  auIntentID :: string
  auFromState :: status
  auToState :: status
  auDetail :: string
  auAt :: time

text \<open>Go's zero time, midnight of 1 January of year 1.\<close>

definition time_zero :: time where
  "time_zero = - 62135596800000000000"

text \<open>
  A message of \<open>KafkaSink\<close>: the key and the fields of the envelope that vary. The payload is
  the marshalled event, the hash is over the payload.
\<close>

record kafka_message =
  kmKey :: string
  kmID :: string
  kmTs :: time
  kmTargetID :: string
  kmPayloadHash :: string
  kmPayload :: bytes

text \<open>
  \<open>json.Marshal\<close> of an event (\<open>None\<close> for an error), SHA-256, and the messages handed to the
  writer so far; the writer's own errors are ignored by the code.
\<close>

record kafka_sink =
  ksWriter :: bool
  ksMarshal :: "audit_event \<Rightarrow> bytes option"
  ksSHA256 :: "bytes \<Rightarrow> bytes"
  ksSent :: "kafka_message list"

datatype sink = Recorder "audit_event list" | NopSink | KafkaSink kafka_sink

definition NewKafkaSink ::
  "(audit_event \<Rightarrow> bytes option) \<Rightarrow> (bytes \<Rightarrow> bytes) \<Rightarrow> string list \<Rightarrow> error + sink" where
  "NewKafkaSink marshal sha brokers =
     (if brokers = [] then Inl (ErrorString ''audit kafka: no brokers provided'')
      else Inr (KafkaSink \<lparr>ksWriter = True, ksMarshal = marshal, ksSHA256 = sha, ksSent = []\<rparr>))"

text \<open>\<open>closeW\<close> is the result of closing the writer.\<close>

definition kafka_Close :: "error option \<Rightarrow> kafka_sink \<Rightarrow> error option" where
  "kafka_Close closeW k = (if \<not> ksWriter k then None else closeW)"

text \<open>An event without a time is stamped with the clock reading \<open>now\<close>.\<close>

definition stamp_event :: "time \<Rightarrow> audit_event \<Rightarrow> audit_event" where
  "stamp_event now e = (if auAt e = time_zero then e\<lparr>auAt := now\<rparr> else e)"

definition kafka_Emit :: "time \<Rightarrow> audit_event \<Rightarrow> kafka_sink \<Rightarrow> kafka_sink" where
  "kafka_Emit now e0 k =
     (if \<not> ksWriter k then k
      else
        let e = stamp_event now e0 in
        case ksMarshal k e of
          None \<Rightarrow> k
        | Some payload \<Rightarrow>
            k\<lparr>ksSent := ksSent k @
               [\<lparr>kmKey = auIntentID e,
                 kmID = ''pay-'' @ strconv_FormatInt (word_of_int (auAt e)),
                 kmTs = auAt e, kmTargetID = auIntentID e,
                 kmPayloadHash = ''sha256:'' @ hex_EncodeToString (ksSHA256 k payload),
                 kmPayload = payload\<rparr>]\<rparr>)"

fun sink_Emit :: "time \<Rightarrow> audit_event \<Rightarrow> sink \<Rightarrow> sink" where
  "sink_Emit now e (Recorder events) = Recorder (events @ [stamp_event now e])"
| "sink_Emit now e NopSink = NopSink"
| "sink_Emit now e (KafkaSink k) = KafkaSink (kafka_Emit now e k)"

text \<open>\<open>Recorder.Events\<close>; the other sinks keep nothing that can be read back.\<close>

fun sink_Events :: "sink \<Rightarrow> audit_event list" where
  "sink_Events (Recorder events) = events"
| "sink_Events _ = []"

section \<open>Metrics\<close>

record metrics =
  mtTransitions :: "string \<rightharpoonup> int64"
  mtWebhookBacklog :: int64
  mtLatencies :: "duration list"

definition NewMetrics :: metrics where
  "NewMetrics = \<lparr>mtTransitions = Map.empty, mtWebhookBacklog = 0, mtLatencies = []\<rparr>"

definition IncTransition :: "string \<Rightarrow> metrics \<Rightarrow> metrics" where
  "IncTransition to m =
     m\<lparr>mtTransitions := (mtTransitions m)
        (to \<mapsto> (case mtTransitions m to of None \<Rightarrow> 0 | Some c \<Rightarrow> c) + 1)\<rparr>"

definition SetWebhookBacklog :: "int64 \<Rightarrow> metrics \<Rightarrow> metrics" where
  "SetWebhookBacklog n m = m\<lparr>mtWebhookBacklog := n\<rparr>"

definition IncWebhookBacklog :: "metrics \<Rightarrow> metrics" where
  "IncWebhookBacklog m = m\<lparr>mtWebhookBacklog := mtWebhookBacklog m + 1\<rparr>"

definition DecWebhookBacklog :: "metrics \<Rightarrow> metrics" where
  "DecWebhookBacklog m = m\<lparr>mtWebhookBacklog := mtWebhookBacklog m - 1\<rparr>"

text \<open>Only the last thousand samples are kept.\<close>

definition ObserveIntentCreation :: "duration \<Rightarrow> metrics \<Rightarrow> metrics" where
  "ObserveIntentCreation d m =
     (let ls = mtLatencies m @ [d] in
      m\<lparr>mtLatencies := (if 1000 < length ls then drop (length ls - 1000) ls else ls)\<rparr>)"

text \<open>
  \<open>p99\<close> reads the sample at \<open>int(float64(n) * 0.99)\<close>, a float64 product with the float64 that is
  nearest to 0.99.
\<close>

definition p99_idx :: "nat \<Rightarrow> int" where
  "p99_idx n =
     f64_whole (f64_times (round53 (int n)) \<lparr>fNeg = False, fMant = f64_quot 99 100, fScale = 129\<rparr>)"

definition p99 :: "metrics \<Rightarrow> duration" where
  "p99 m =
     (if mtLatencies m = [] then 0
      else
        let srt = sort_key sint (mtLatencies m);
            idx = p99_idx (length srt)
        in srt ! (if int (length srt) \<le> idx then length srt - 1 else nat idx))"

definition intToStr :: "int64 \<Rightarrow> string" where
  "intToStr n =
     (if n = 0 then ''0''
      else
        let neg = sint n < 0;
            n' = (if neg then - n else n);
            digits = digit_loop n' []
        in if neg then CHR ''-'' # digits else digits)"

text \<open>\<open>appendInt\<close>, the helper of \<open>floatToStr\<close>: a negative number appends nothing.\<close>

definition appendInt :: "bytes \<Rightarrow> int64 \<Rightarrow> bytes" where
  "appendInt b n = (if n = 0 then b @ ''0'' else b @ digit_loop n [])"

text \<open>\<open>floatToStr\<close>; an index into \<open>digits\<close> that is out of range is a panic, \<open>None\<close>.\<close>

fun frac_digits :: "nat \<Rightarrow> f64 \<Rightarrow> bytes option" where
  "frac_digits 0 frac = Some []"
| "frac_digits (Suc n) frac =
     (let frac = f64_times 10 frac; d = f64_int64 frac
      in if 0 \<le> sint d \<and> sint d < 10
         then map_option (Cons (''0123456789'' ! nat (sint d))) (frac_digits n (f64_minus frac (sint d)))
         else None)"

definition floatToStr :: "f64 \<Rightarrow> bytes option" where
  "floatToStr f =
     (if fMant f = 0 then Some ''0''
      else
        let b = (if fNeg f then ''-'' else '''');
            f = f\<lparr>fNeg := False\<rparr>;
            whole = f64_int64 f;
            frac = f64_minus f (sint whole)
        in map_option (\<lambda>ds. appendInt b whole @ ''.'' @ ds) (frac_digits 6 frac))"

text \<open>
  \<open>FormatPrometheus\<close>: \<open>keys\<close> is the order in which the run-time ranges over the counters.
\<close>

definition metric_line :: "string \<Rightarrow> string \<Rightarrow> string" where
  "metric_line name val = name @ '' '' @ val @ [CHR 0x0A]"

definition FormatPrometheus :: "string list \<Rightarrow> metrics \<Rightarrow> string option" where
  "FormatPrometheus keys m = map_option (\<lambda>p99Text.
     metric_line ''# HELP payment_transitions_total'' ''Number of state transitions by target state.'' @
     metric_line ''# TYPE payment_transitions_total'' ''counter'' @
     concat (map (\<lambda>k. case mtTransitions m k of
         None \<Rightarrow> []
       | Some v \<Rightarrow> metric_line (''payment_transitions_total{state='' @ [CHR 0x22] @ k @ [CHR 0x22] @ ''}'') (intToStr v))
       keys) @
     metric_line ''# HELP payment_webhook_backlog'' ''Current number of unprocessed webhooks.'' @
     metric_line ''# TYPE payment_webhook_backlog'' ''gauge'' @
     metric_line ''payment_webhook_backlog'' (intToStr (mtWebhookBacklog m)) @
     metric_line ''# HELP payment_intent_creation_p99_latency'' ''p99 latency of intent creation.'' @
     metric_line ''# TYPE payment_intent_creation_p99_latency'' ''gauge'' @
     metric_line ''payment_intent_creation_p99_latency_seconds'' p99Text)
     (floatToStr (duration_Seconds (p99 m)))"

section \<open>Lemmas\<close>

lemma appendInt_FormatInt:
  "0 \<le> sint n \<Longrightarrow> appendInt b n = b @ strconv_FormatInt n"
  by (auto simp: appendInt_def strconv_FormatInt_def digit_loop_eq signed_eq_0_iff)

lemma length_latencies_bound:
  "length (mtLatencies m) \<le> 1000 \<Longrightarrow> length (mtLatencies (ObserveIntentCreation d m)) \<le> 1000"
  by (simp add: ObserveIntentCreation_def Let_def)

lemma backlog_round_trip: "DecWebhookBacklog (IncWebhookBacklog m) = m"
  by (simp add: DecWebhookBacklog_def IncWebhookBacklog_def)

lemma sink_Events_Recorder_Emit [simp]:
  "auAt e \<noteq> time_zero \<Longrightarrow> sink_Emit now e (Recorder es) = Recorder (es @ [e])"
  by (simp add: stamp_event_def)

end
