(* ===== verification/Idempotency.thy ===== *)
theory Idempotency
  imports Prelude
begin

text \<open>
  The idempotency-key response store, \<open>internal/idempotency/idempotency.go\<close>: the interface
  \<open>idempotency.Store\<close> as a record of operations, its in-memory implementation and its
  Redis-backed one, whose server and JSON codec are parameters. The locale \<open>idem_store\<close> is the
  contract the HTTP handlers rely on, interpreted on the in-memory store.

  The body of a cached response is a value of type \<open>'b\<close>; the JSON text that carries it
  through the in-memory store is represented by that value.
\<close>

section \<open>The interface\<close>

record 'b entry =
  enStatus :: nat
  enBody :: "'b option"

record ('i, 'b) idem_iface =
  id_LookupResponse :: "time \<Rightarrow> string \<Rightarrow> 'i \<Rightarrow> (error + 'b entry option) \<times> 'i"
  id_Claim :: "time \<Rightarrow> string \<Rightarrow> duration \<Rightarrow> 'i \<Rightarrow> (error + bool) \<times> 'i"
  id_StoreResponse :: "time \<Rightarrow> string \<Rightarrow> 'b entry \<Rightarrow> duration \<Rightarrow> 'i \<Rightarrow> error option \<times> 'i"
  id_Delete :: "string \<Rightarrow> 'i \<Rightarrow> error option \<times> 'i"

section \<open>The in-memory store\<close>

record 'b memEntry =
  meResponse :: "'b entry option"
  meClaimed :: bool
  meExpires :: time

type_synonym 'b idem_mem = "string \<rightharpoonup> 'b memEntry"

definition NewMem :: "'b idem_mem" where
  "NewMem = Map.empty"

definition im_LookupResponse ::
  "time \<Rightarrow> string \<Rightarrow> 'b idem_mem \<Rightarrow> (error + 'b entry option) \<times> 'b idem_mem" where
  "im_LookupResponse now key m =
     (case m key of
        None \<Rightarrow> (Inr None, m)
      | Some e \<Rightarrow>
          (if meExpires e < now then (Inr None, m(key := None))
           else (Inr (meResponse e), m)))"

definition im_Claim ::
  "time \<Rightarrow> string \<Rightarrow> duration \<Rightarrow> 'b idem_mem \<Rightarrow> (error + bool) \<times> 'b idem_mem" where
  "im_Claim now key ttl m =
     (if (case m key of None \<Rightarrow> False | Some e \<Rightarrow> now < meExpires e) then (Inr False, m)
      else (Inr True,
            m(key \<mapsto> \<lparr>meResponse = None, meClaimed = True, meExpires = time_Add now ttl\<rparr>)))"

definition im_StoreResponse ::
  "time \<Rightarrow> string \<Rightarrow> 'b entry \<Rightarrow> duration \<Rightarrow> 'b idem_mem \<Rightarrow> error option \<times> 'b idem_mem" where
  "im_StoreResponse now key e ttl m =
     (None, m(key \<mapsto> \<lparr>meResponse = Some e, meClaimed = False, meExpires = time_Add now ttl\<rparr>))"

definition im_Delete :: "string \<Rightarrow> 'b idem_mem \<Rightarrow> error option \<times> 'b idem_mem" where
  "im_Delete key m = (None, m(key := None))"

definition IdemMem :: "('b idem_mem, 'b) idem_iface" where
  "IdemMem =
     \<lparr>id_LookupResponse = im_LookupResponse, id_Claim = im_Claim,
      id_StoreResponse = im_StoreResponse, id_Delete = im_Delete\<rparr>"

section \<open>The Redis-backed store\<close>

text \<open>
  The Redis server as the client library shows it. Each command may fail with an error text;
  \<open>GET\<close> distinguishes a missing key.
\<close>

datatype redis_get = RNil | RErr string | RBytes bytes

record 'r redis =
  rdGet :: "time \<Rightarrow> string \<Rightarrow> 'r \<Rightarrow> redis_get \<times> 'r"
  rdSetNX :: "time \<Rightarrow> string \<Rightarrow> string \<Rightarrow> duration \<Rightarrow> 'r \<Rightarrow> (string + bool) \<times> 'r"
  rdSet :: "time \<Rightarrow> string \<Rightarrow> bytes \<Rightarrow> duration \<Rightarrow> 'r \<Rightarrow> string option \<times> 'r"
  rdDel :: "string list \<Rightarrow> 'r \<Rightarrow> string option \<times> 'r"

record ('r, 'b) redis_store =
  rsPrefix :: string
  rsServer :: "'r redis"
  rsMarshal :: "'b entry \<Rightarrow> string + bytes"
  rsUnmarshal :: "bytes \<Rightarrow> string + 'b entry"

definition NewRedis ::
  "'r redis \<Rightarrow> ('b entry \<Rightarrow> string + bytes) \<Rightarrow> (bytes \<Rightarrow> string + 'b entry) \<Rightarrow> string
     \<Rightarrow> ('r, 'b) redis_store" where
  "NewRedis server marshal unmarshal pfx =
     \<lparr>rsPrefix = (if pfx = '''' then ''idempot'' else pfx), rsServer = server,
      rsMarshal = marshal, rsUnmarshal = unmarshal\<rparr>"

definition claimKey :: "('r, 'b) redis_store \<Rightarrow> string \<Rightarrow> string" where
  "claimKey s key = rsPrefix s @ '':claim:'' @ key"

definition respKey :: "('r, 'b) redis_store \<Rightarrow> string \<Rightarrow> string" where
  "respKey s key = rsPrefix s @ '':resp:'' @ key"

definition ir_LookupResponse ::
  "('r, 'b) redis_store \<Rightarrow> time \<Rightarrow> string \<Rightarrow> 'r \<Rightarrow> (error + 'b entry option) \<times> 'r" where
  "ir_LookupResponse s now key r =
     (case rdGet (rsServer s) now (respKey s key) r of
        (RNil, r') \<Rightarrow> (Inr None, r')
      | (RErr m, r') \<Rightarrow> (Inl (Errorf ''idempot redis get: '' (ErrorString m) ''''), r')
      | (RBytes raw, r') \<Rightarrow>
          (case rsUnmarshal s raw of
             Inl m \<Rightarrow> (Inl (Errorf ''idempot redis decode: '' (ErrorString m) ''''), r')
           | Inr e \<Rightarrow> (Inr (Some e), r')))"

definition ir_Claim ::
  "('r, 'b) redis_store \<Rightarrow> time \<Rightarrow> string \<Rightarrow> duration \<Rightarrow> 'r \<Rightarrow> (error + bool) \<times> 'r" where
  "ir_Claim s now key ttl r =
     (case rdSetNX (rsServer s) now (claimKey s key) ''1'' ttl r of
        (Inl m, r') \<Rightarrow> (Inl (Errorf ''idempot redis setnx: '' (ErrorString m) ''''), r')
      | (Inr ok, r') \<Rightarrow> (Inr ok, r'))"

definition ir_StoreResponse ::
  "('r, 'b) redis_store \<Rightarrow> time \<Rightarrow> string \<Rightarrow> 'b entry \<Rightarrow> duration \<Rightarrow> 'r \<Rightarrow> error option \<times> 'r" where
  "ir_StoreResponse s now key e ttl r =
     (case rsMarshal s e of
        Inl m \<Rightarrow> (Some (Errorf ''idempot redis encode: '' (ErrorString m) ''''), r)
      | Inr body \<Rightarrow>
          (case rdSet (rsServer s) now (respKey s key) body ttl r of
             (Some m, r') \<Rightarrow> (Some (Errorf ''idempot redis set: '' (ErrorString m) ''''), r')
           | (None, r') \<Rightarrow> (None, r')))"

definition ir_Delete :: "('r, 'b) redis_store \<Rightarrow> string \<Rightarrow> 'r \<Rightarrow> error option \<times> 'r" where
  "ir_Delete s key r =
     (case rdDel (rsServer s) [claimKey s key, respKey s key] r of
        (Some m, r') \<Rightarrow> (Some (Errorf ''idempot redis del: '' (ErrorString m) ''''), r')
      | (None, r') \<Rightarrow> (None, r'))"

definition IdemRedis :: "('r, 'b) redis_store \<Rightarrow> ('r, 'b) idem_iface" where
  "IdemRedis s =
     \<lparr>id_LookupResponse = ir_LookupResponse s, id_Claim = ir_Claim s,
      id_StoreResponse = ir_StoreResponse s, id_Delete = ir_Delete s\<rparr>"

section \<open>What the handlers rely on\<close>

locale idem_store =
  fixes J :: "('i, 'b) idem_iface"
  assumes lookup_hit_state: "id_LookupResponse J t k m = (Inr (Some e), m') \<Longrightarrow> m' = m"
    and lookup_stored:
      "id_StoreResponse J t k e d m = (None, m') \<Longrightarrow> t' < time_Add t d \<Longrightarrow>
       fst (id_LookupResponse J t' k m') = Inr (Some e)"
    and lookup_claimed:
      "id_Claim J t k d m = (Inr True, m') \<Longrightarrow> t' < time_Add t d \<Longrightarrow>
       id_LookupResponse J t' k m' = (Inr None, m')"
    and claim_claimed:
      "id_Claim J t k d m = (Inr True, m') \<Longrightarrow> t' < time_Add t d \<Longrightarrow>
       id_Claim J t' k d' m' = (Inr False, m')"
    and claim_refused: "id_Claim J t k d m = (Inr False, m') \<Longrightarrow> m' = m"
    and lookup_other:
      "k' \<noteq> k \<Longrightarrow> fst (id_LookupResponse J t' k' (snd (id_LookupResponse J t k m))) =
                 fst (id_LookupResponse J t' k' m)"
      "k' \<noteq> k \<Longrightarrow> fst (id_LookupResponse J t' k' (snd (id_Claim J t k d m))) =
                 fst (id_LookupResponse J t' k' m)"
      "k' \<noteq> k \<Longrightarrow> fst (id_LookupResponse J t' k' (snd (id_StoreResponse J t k e d m))) =
                 fst (id_LookupResponse J t' k' m)"

lemmas im_defs =
  im_LookupResponse_def im_Claim_def im_StoreResponse_def im_Delete_def

lemma IdemMem_sel [simp]:
  "id_LookupResponse IdemMem = im_LookupResponse" "id_Claim IdemMem = im_Claim"
  "id_StoreResponse IdemMem = im_StoreResponse" "id_Delete IdemMem = im_Delete"
  by (simp_all add: IdemMem_def)

interpretation idem_mem: idem_store IdemMem
  by unfold_locales (auto simp: im_defs split: option.splits if_splits)

end
