(* ===== verification/Service.thy ===== *)
theory Service
  imports Store Clients Observe Idempotency
begin

text \<open>
  The service object of \<open>internal/api/handlers.go\<close> and the machinery its endpoints share:
  the idempotency cache, the replay wrapper around every mutating endpoint, the emission of
  audit events, and the small helpers (\<open>verifyHMAC\<close>, \<open>abs\<close>, \<open>itoa\<close>).

  A request runs in an environment \<open>env\<close>: what the k-th reading of the clock in the request
  returns, the k-th fresh UUID, the order in which the run-time ranges over a map, and
  HMAC-SHA256. Nothing is assumed of them unless a theorem says so.
\<close>

section \<open>Environment, requests and responses\<close>

record env =
  envNow :: "nat \<Rightarrow> time"
  envUUID :: "nat \<Rightarrow> string"
  envOrder :: "string list"
  envHMAC :: "bytes \<Rightarrow> bytes \<Rightarrow> bytes"

text \<open>A JSON body that may be absent or fail to decode.\<close>

datatype 'a body_in = NoBody | BadJSON | JSONBody 'a

text \<open>The JSON documents the handlers answer with.\<close>

datatype body = BIntent intent | BPayments "intent list" | BError string | BStatus string

record response =
  rsStatus :: nat
  rsReplay :: bool
  rsBody :: "body option"

abbreviation respond :: "nat \<Rightarrow> body \<Rightarrow> response" where
  "respond st b \<equiv> \<lparr>rsStatus = st, rsReplay = False, rsBody = Some b\<rparr>"

abbreviation respondError :: "nat \<Rightarrow> string \<Rightarrow> response" where
  "respondError st msg \<equiv> respond st (BError msg)"

section \<open>The service\<close>

record idemEntry =
  ieStatus :: nat
  ieBody :: "body option"
  ieExpires :: time

text \<open>
  What the callbacks of \<open>UpdateIntent\<close> change besides the intent: the audit sink, the
  metrics, and the record variable of the enclosing handler (\<open>captureRecord\<close>,
  \<open>refundRecord\<close> or \<open>settlementRecord\<close>).
\<close>

record fx =
  fxAudit :: "sink option"
  fxMetrics :: metrics
  fxCapture :: "capture option"
  fxRefund :: "refund option"
  fxSettlement :: "settlement option"

text \<open>
  The store and the idempotency store are interface values: their operations and the state
  behind them. A nil \<open>idemStore\<close> is \<open>None\<close>.
\<close>

record ('s, 'i) service =
  svStoreI :: "('s, fx) store_iface"
  svStore :: 's
  svRails :: registry
  svAudit :: "sink option"
  svWebhookKeys :: "rail \<rightharpoonup> bytes"
  svReplayWindow :: duration
  svMPI :: mpi_client
  svFraud :: fraud_client
  svMetrics :: metrics
  svIdemI :: "('i, body) idem_iface option"
  svIdem :: 'i
  svIdemTTL :: duration
  svIdemCache :: "string \<rightharpoonup> idemEntry"

definition idemTTL :: duration where
  "idemTTL = 86400000000000"

definition NewService ::
  "('s, fx) store_iface \<Rightarrow> 's \<Rightarrow> 'i \<Rightarrow> registry \<Rightarrow> sink option \<Rightarrow> string \<Rightarrow> ('s, 'i) service" where
  "NewService I s idem r a secret =
     \<lparr>svStoreI = I, svStore = s, svRails = r, svAudit = a,
      svWebhookKeys = [RailCard \<mapsto> secret, RailACH \<mapsto> secret, RailSEPA \<mapsto> secret,
                       RailPIX \<mapsto> secret, RailUPI \<mapsto> secret],
      svReplayWindow = 300000000000,
      svMPI = MPIDummyClient NewMPIDummy, svFraud = FraudDummyClient NewFraudDummy,
      svMetrics = NewMetrics, svIdemI = None, svIdem = idem, svIdemTTL = idemTTL,
      svIdemCache = Map.empty\<rparr>"

definition WithIdempotencyStore ::
  "('i, body) idem_iface \<Rightarrow> 'i \<Rightarrow> duration \<Rightarrow> ('s, 'i) service \<Rightarrow> ('s, 'i) service" where
  "WithIdempotencyStore J st ttl svc =
     (let svc1 = svc\<lparr>svIdemI := Some J, svIdem := st\<rparr>
      in if 0 < sint ttl then svc1\<lparr>svIdemTTL := ttl\<rparr> else svc1)"

section \<open>Idempotency cache\<close>

definition idemKey :: "string \<Rightarrow> string \<Rightarrow> string" where
  "idemKey endpoint key = endpoint @ [NUL] @ key"

definition lookupIdem ::
  "time \<Rightarrow> string \<Rightarrow> string \<Rightarrow> ('s, 'i) service \<Rightarrow> (nat \<times> body option) option \<times> ('s, 'i) service" where
  "lookupIdem now endpoint key svc =
     (if key = '''' then (None, svc)
      else
        let k = idemKey endpoint key in
        case svIdemCache svc k of
          None \<Rightarrow> (None, svc)
        | Some e \<Rightarrow>
            (if ieExpires e < now then (None, svc\<lparr>svIdemCache := (svIdemCache svc)(k := None)\<rparr>)
             else (Some (ieStatus e, ieBody e), svc)))"

definition saveIdem ::
  "time \<Rightarrow> string \<Rightarrow> string \<Rightarrow> nat \<Rightarrow> body option \<Rightarrow> ('s, 'i) service \<Rightarrow> ('s, 'i) service" where
  "saveIdem now endpoint key status b svc =
     (if key = '''' then svc
      else svc\<lparr>svIdemCache := (svIdemCache svc)
             (idemKey endpoint key \<mapsto>
                \<lparr>ieStatus = status, ieBody = b, ieExpires = time_Add now idemTTL\<rparr>)\<rparr>)"

section \<open>The replay wrapper\<close>

text \<open>
  A handler closure returns a status and a body, or panics; net/http recovers a panic by
  dropping the connection, which is \<open>None\<close> here, with the state as the panic left it.
\<close>

datatype hres = HRet nat "body option" | HPanic

type_synonym ('s, 'i) handle = "('s, 'i) service \<Rightarrow> hres \<times> ('s, 'i) service"

definition replayOrContinueStore ::
  "env \<Rightarrow> ('i, body) idem_iface \<Rightarrow> string \<Rightarrow> string \<Rightarrow> ('s, 'i) handle \<Rightarrow> ('s, 'i) service
     \<Rightarrow> response option \<times> ('s, 'i) service" where
  "replayOrContinueStore e J endpoint key handle svc =
     (if key = ''''
      then (case handle svc of
              (HPanic, svc') \<Rightarrow> (None, svc')
            | (HRet st v, svc') \<Rightarrow> (Some \<lparr>rsStatus = st, rsReplay = False, rsBody = v\<rparr>, svc'))
      else
        let scoped = idemKey endpoint key in
        case id_LookupResponse J (envNow e 0) scoped (svIdem svc) of
          (Inl err, m1) \<Rightarrow> (Some (respondError 500 ''idempotency lookup failed''), svc\<lparr>svIdem := m1\<rparr>)
        | (Inr (Some ent), m1) \<Rightarrow>
            (Some \<lparr>rsStatus = enStatus ent, rsReplay = True, rsBody = enBody ent\<rparr>,
             svc\<lparr>svIdem := m1\<rparr>)
        | (Inr None, m1) \<Rightarrow>
            (case id_Claim J (envNow e 1) scoped (svIdemTTL svc) m1 of
               (Inl err, m2) \<Rightarrow>
                 (Some (respondError 500 ''idempotency claim failed''), svc\<lparr>svIdem := m2\<rparr>)
             | (Inr False, m2) \<Rightarrow>
                 (Some (respondError 409 ''idempotency key in flight''), svc\<lparr>svIdem := m2\<rparr>)
             | (Inr True, m2) \<Rightarrow>
                 (case handle (svc\<lparr>svIdem := m2\<rparr>) of
                    (HPanic, svc') \<Rightarrow> (None, svc')
                  | (HRet st v, svc') \<Rightarrow>
                      (Some \<lparr>rsStatus = st, rsReplay = False, rsBody = v\<rparr>,
                       svc'\<lparr>svIdem :=
                          snd (id_StoreResponse J (envNow e 2) scoped
                                 \<lparr>enStatus = st, enBody = v\<rparr> (svIdemTTL svc') (svIdem svc'))\<rparr>))))"

definition replayOrContinue ::
  "env \<Rightarrow> string \<Rightarrow> string \<Rightarrow> ('s, 'i) handle \<Rightarrow> ('s, 'i) service
     \<Rightarrow> response option \<times> ('s, 'i) service" where
  "replayOrContinue e endpoint key handle svc =
     (case svIdemI svc of
        Some J \<Rightarrow> replayOrContinueStore e J endpoint key handle svc
      | None \<Rightarrow>
          (case lookupIdem (envNow e 0) endpoint key svc of
             (Some (st, b), svc1) \<Rightarrow>
               (Some \<lparr>rsStatus = st, rsReplay = True, rsBody = b\<rparr>, svc1)
           | (None, svc1) \<Rightarrow>
               (case handle svc1 of
                  (HPanic, svc2) \<Rightarrow> (None, svc2)
                | (HRet st v, svc2) \<Rightarrow>
                    (Some \<lparr>rsStatus = st, rsReplay = False, rsBody = v\<rparr>,
                     saveIdem (envNow e 2) endpoint key st v svc2))))"

section \<open>Audit events and store calls\<close>

text \<open>\<open>emitTransition\<close>: \<open>t\<close> is its own clock reading, \<open>t'\<close> the one of the sink.\<close>

definition emitFx :: "time \<Rightarrow> time \<Rightarrow> intent \<Rightarrow> status \<Rightarrow> status \<Rightarrow> string \<Rightarrow> fx \<Rightarrow> fx" where
  "emitFx t t' i from to detail w =
     w\<lparr>fxAudit :=
         map_option (sink_Emit t' \<lparr>auIntentID = iID i, auFromState = from, auToState = to,
                                  auDetail = detail, auAt = t\<rparr>) (fxAudit w),
       fxMetrics := IncTransition (statusString to) (fxMetrics w)\<rparr>"

definition fx_of :: "('s, 'i) service \<Rightarrow> fx" where
  "fx_of svc = \<lparr>fxAudit = svAudit svc, fxMetrics = svMetrics svc, fxCapture = None,
     fxRefund = None, fxSettlement = None\<rparr>"

definition put_fx :: "fx \<Rightarrow> ('s, 'i) service \<Rightarrow> ('s, 'i) service" where
  "put_fx w svc = svc\<lparr>svAudit := fxAudit w, svMetrics := fxMetrics w\<rparr>"

definition emitTransition ::
  "time \<Rightarrow> time \<Rightarrow> intent \<Rightarrow> status \<Rightarrow> status \<Rightarrow> string \<Rightarrow> ('s, 'i) service \<Rightarrow> ('s, 'i) service" where
  "emitTransition t t' i from to detail svc =
     put_fx (emitFx t t' i from to detail (fx_of svc)) svc"

text \<open>\<open>s.Store.UpdateIntent(id, fn)\<close>: the result, the callback's variables, the service.\<close>

definition updateIntent ::
  "time \<Rightarrow> string \<Rightarrow> fx callback \<Rightarrow> ('s, 'i) service \<Rightarrow> updres \<times> fx \<times> ('s, 'i) service" where
  "updateIntent t iid fn svc =
     (case st_UpdateIntent (svStoreI svc) t iid fn (svStore svc) (fx_of svc) of
        (r, s', w') \<Rightarrow> (r, w', put_fx w' (svc\<lparr>svStore := s'\<rparr>)))"

abbreviation storeOp :: "(('s, fx) store_iface \<Rightarrow> 's \<Rightarrow> 's) \<Rightarrow> ('s, 'i) service \<Rightarrow> ('s, 'i) service" where
  "storeOp f svc \<equiv> svc\<lparr>svStore := f (svStoreI svc) (svStore svc)\<rparr>"

text \<open>The two clock readings of a transition and of an emission, from the k-th on.\<close>

abbreviation transAt :: "env \<Rightarrow> nat \<Rightarrow> status \<Rightarrow> string \<Rightarrow> intent \<Rightarrow> error option \<times> intent" where
  "transAt e k nxt d i \<equiv> Transition (envNow e k) (envNow e (k + 1)) nxt d i"

abbreviation appendAt :: "env \<Rightarrow> nat \<Rightarrow> event_type \<Rightarrow> string \<Rightarrow> intent \<Rightarrow> intent" where
  "appendAt e k ty d i \<equiv> AppendEvent (envNow e k) (envNow e (k + 1)) ty d i"

abbreviation emitAt :: "env \<Rightarrow> nat \<Rightarrow> intent \<Rightarrow> status \<Rightarrow> status \<Rightarrow> string \<Rightarrow> fx \<Rightarrow> fx" where
  "emitAt e k i from to d w \<equiv> emitFx (envNow e k) (envNow e (k + 1)) i from to d w"

abbreviation emitSvcAt ::
  "env \<Rightarrow> nat \<Rightarrow> intent \<Rightarrow> status \<Rightarrow> status \<Rightarrow> string \<Rightarrow> ('s, 'i) service \<Rightarrow> ('s, 'i) service" where
  "emitSvcAt e k i from to d svc \<equiv> emitTransition (envNow e k) (envNow e (k + 1)) i from to d svc"

section \<open>Small helpers\<close>

definition verifyHMAC :: "(bytes \<Rightarrow> bytes \<Rightarrow> bytes) \<Rightarrow> bytes \<Rightarrow> bytes \<Rightarrow> string \<Rightarrow> bool" where
  "verifyHMAC hmac key body sig =
     (let expected = hex_EncodeToString (hmac key body)
      in if sig = '''' then False else strings_TrimPrefix sig ''sha256='' = expected)"

definition absDuration :: "duration \<Rightarrow> duration" where
  "absDuration d = (if sint d < 0 then - d else d)"

definition itoa :: "int64 \<Rightarrow> string" where
  "itoa n =
     (if n = 0 then ''0''
      else
        let neg = sint n < 0;
            n' = (if neg then - n else n);
            digits = digit_loop n' []
        in if neg then CHR ''-'' # digits else digits)"

section \<open>Health\<close>

definition Healthz :: response where
  "Healthz = respond 200 (BStatus ''ok'')"

definition Readyz :: "('s, 'i) service \<Rightarrow> response" where
  "Readyz svc = respond 200 (BStatus ''ready'')"

section \<open>Properties\<close>

text \<open>
  While a claim is held and no response is stored, a second request with the key is refused, on
  any idempotency store that keeps the contract.
\<close>

locale service_idem = idem_store J
  for J :: "('i, body) idem_iface"
begin

lemma in_flight_refused:
  assumes "id_Claim J t (idemKey ep key) ttl m = (Inr True, svIdem svc)"
    and "svIdemI svc = Some J" "key \<noteq> ''''"
    and "envNow e 0 < time_Add t ttl" "envNow e 1 < time_Add t ttl"
  shows "replayOrContinue e ep key h svc =
    (Some (respondError 409 ''idempotency key in flight''), svc)"
  using lookup_claimed [OF assms(1,4)] claim_claimed [OF assms(1,5)] assms(2,3)
  by (simp add: replayOrContinue_def replayOrContinueStore_def Let_def)

end

interpretation idem_svc: service_idem IdemMem
  by (rule service_idem.intro) (rule idem_mem.idem_store_axioms)

text \<open>
  Idempotency keys of different endpoints or different keys of one endpoint never share a
  cache entry, as long as the endpoint names hold no NUL character.
\<close>

lemma idemKey_inj:
  assumes "NUL \<notin> set ep" "NUL \<notin> set ep'" and "idemKey ep key = idemKey ep' key'"
  shows "ep = ep' \<and> key = key'"
  using join_inj_left [of ep NUL key ep' key'] assms by (simp add: idemKey_def)

lemma idemKey_inj_witness:
  "idemKey ''void:p1'' ''k'' \<noteq> idemKey ''refund:p1'' ''k''"
  using idemKey_inj [of "''void:p1''" "''refund:p1''" "''k''" "''k''"] by (auto simp: NUL_def)

lemma hex_digits: "set (hex_EncodeToString bs) \<subseteq> set ''0123456789abcdef''"
proof -
  have "hex_digit n \<in> set ''0123456789abcdef''" for n
    unfolding hex_digit_def by (rule nth_mem) simp
  then show ?thesis by (auto simp: hex_EncodeToString_def)
qed

lemma hex_no_prefix: "\<not> prefix ''sha256='' (hex_EncodeToString bs)"
proof
  assume "prefix ''sha256='' (hex_EncodeToString bs)"
  then have "CHR ''s'' \<in> set (hex_EncodeToString bs)" by (auto simp: prefix_def)
  with hex_digits [of bs] show False by auto
qed

lemma TrimPrefix_iff:
  "\<not> prefix p h \<Longrightarrow> h \<noteq> [] \<Longrightarrow>
   (if sig = [] then False else strings_TrimPrefix sig p = h) \<longleftrightarrow> sig = h \<or> sig = p @ h"
  by (auto simp: strings_TrimPrefix_def prefix_def)

text \<open>
  A webhook signature is accepted exactly when it is the hex-encoded HMAC of the body, bare or
  with the prefix \<open>sha256=\<close>; the empty signature never is. (An HMAC has at least one byte.)
\<close>

lemma verifyHMAC_iff:
  assumes "hmac key body \<noteq> []"
  shows "verifyHMAC hmac key body sig \<longleftrightarrow>
    sig = hex_EncodeToString (hmac key body) \<or> sig = ''sha256='' @ hex_EncodeToString (hmac key body)"
proof -
  have "hex_EncodeToString (hmac key body) \<noteq> []"
    using assms by (cases "hmac key body") (simp_all add: hex_EncodeToString_def)
  with TrimPrefix_iff [OF hex_no_prefix, of "hmac key body" sig] show ?thesis
    by (simp only: verifyHMAC_def Let_def) simp
qed

lemma verifyHMAC_iff_witness:
  "verifyHMAC (\<lambda>k b. k @ b) ''s'' ''ev'' (''sha256='' @ hex_EncodeToString (''s'' @ ''ev''))"
  using verifyHMAC_iff [of "\<lambda>k b. k @ b" "''s''" "''ev''" "''sha256='' @ hex_EncodeToString (''s'' @ ''ev'')"]
  by simp

lemma sint_absDuration:
  "sint (absDuration d) = (if sint d = min_int64 then min_int64 else \<bar>sint d\<bar>)"
proof (cases "sint d = min_int64")
  case True
  then have "d = word_of_int min_int64" by (metis of_int_sint scast_id)
  then have d: "- d = d" by (simp add: min_int64_def)
  have "absDuration d = d" by (simp only: absDuration_def d if_cancel)
  with True show ?thesis by simp
next
  case False
  then have "sint (0 - d) = - sint d"
    using sint_int64_bounds [of d] sint_diff_int64 [of 0 d] by (simp add: min_int64_def max_int64_def)
  with False show ?thesis by (simp add: absDuration_def)
qed

text \<open>
  The replay-window check is exact while the two times are less than about 292 years apart.
  Beyond, a time far enough in the future saturates the difference at the smallest duration,
  whose negation is itself, and the check passes.
\<close>

lemma replay_window_exact:
  assumes "\<bar>now - ts\<bar> \<le> max_int64"
  shows "sint (absDuration (time_Sub now ts)) = \<bar>now - ts\<bar>"
proof -
  have "sint (time_Sub now ts) = now - ts"
    using assms by (auto simp: sint_time_Sub min_int64_def max_int64_def)
  with assms show ?thesis by (auto simp: sint_absDuration min_int64_def max_int64_def)
qed

lemma replay_window_far_future:
  assumes "now - ts < min_int64"
  shows "sint (absDuration (time_Sub now ts)) = min_int64"
proof -
  have "sint (time_Sub now ts) = min_int64"
    using assms by (auto simp: sint_time_Sub min_int64_def max_int64_def)
  then show ?thesis by (simp add: sint_absDuration)
qed

text \<open>
  \<open>itoa\<close> prints every int64 as \<open>strconv.FormatInt\<close> does, but for the smallest one, whose
  negation overflows and which prints as a bare minus sign.
\<close>

lemma itoa_FormatInt:
  "itoa n = (if sint n = min_int64 then ''-'' else strconv_FormatInt n)"
proof -
  have "sint (- n) = (if sint n = min_int64 then min_int64 else - sint n)" if "sint n < 0"
    using sint_absDuration [of n] that by (auto simp: absDuration_def)
  moreover have "n = 0 \<longleftrightarrow> sint n = 0" by (metis of_int_0 of_int_sint scast_id signed_0)
  ultimately show ?thesis
    by (auto simp: itoa_def strconv_FormatInt_def Let_def digit_loop_eq min_int64_def)
qed

end
