(* ===== verification/Payments.thy ===== *)
theory Payments
  imports Service
begin

text \<open>
  The payment endpoints of \<open>internal/api/handlers.go\<close>: create, get, list, capture, void,
  refund and 3DS challenge. Each endpoint is a definition named like its handler; the closure
  it passes to \<open>replayOrContinue\<close> is its \<open>...Handle\<close>, the callback it passes to
  \<open>UpdateIntent\<close> its \<open>...Fn\<close>.
\<close>

section \<open>Create\<close>

record createIntentReq =
  ciRail :: rail
  ciAmount :: int64
  ciCurrency :: string
  ciPayerRef :: string
  ciThreeDSRequired :: bool

definition newIntent :: "env \<Rightarrow> string \<Rightarrow> createIntentReq \<Rightarrow> intent" where
  "newIntent e key req =
     \<lparr>iID = envUUID e 0, iRail = ciRail req, iAmount = ciAmount req, iCurrency = ciCurrency req,
      iPayerRef = ciPayerRef req, iStatus = StatusIntent, iCapturedAmount = 0,
      iRefundedAmount = 0, iSettledAmount = 0, iExternalID = '''', iIdempotencyKey = key,
      iThreeDSRequired = ciThreeDSRequired req, iCreatedAt = envNow e 4, iUpdatedAt = envNow e 4,
      iHistory = [\<lparr>evType = EventCreated, evDetail = '''', evAt = envNow e 4, evAmount = 0\<rparr>]\<rparr>"

text \<open>
  The error branches of the closure: \<open>_ = i.Transition(StatusFailed, detail)\<close>, store the
  intent, emit the transition, answer.
\<close>

definition createFailed ::
  "env \<Rightarrow> string \<Rightarrow> string \<Rightarrow> nat \<Rightarrow> string \<Rightarrow> intent \<Rightarrow> ('s, 'i) service
     \<Rightarrow> hres \<times> ('s, 'i) service" where
  "createFailed e detail emitDetail status msg i svc =
     (let i' = snd (transAt e 5 StatusFailed detail i)
      in (HRet status (Some (BError msg)),
          emitSvcAt e 7 i' StatusIntent StatusFailed emitDetail
            (storeOp (\<lambda>I. st_CreateIntent I i') svc)))"

definition create3DS ::
  "env \<Rightarrow> intent \<Rightarrow> ('s, 'i) handle" where
  "create3DS e i svc =
     (case transAt e 5 Status3DSPending ''3ds challenge required'' i of
        (Some err, i') \<Rightarrow> (HRet 500 (Some (BError (error_text err))), svc)
      | (None, i') \<Rightarrow>
          (HRet 201 (Some (BIntent i')),
           emitSvcAt e 7 i' StatusIntent Status3DSPending ''3ds required''
             (storeOp (\<lambda>I. st_CreateIntent I i') svc)))"

definition createInstant :: "env \<Rightarrow> adapter option \<Rightarrow> intent \<Rightarrow> ('s, 'i) handle" where
  "createInstant e adapter i svc =
     (case adapter of
        None \<Rightarrow> (HPanic, svc)
      | Some a \<Rightarrow>
          (case ad_Submit a i of
             (Some err, i1) \<Rightarrow>
               createFailed e (''submit failed: '' @ error_text err) (error_text err)
                 502 ''submit failed'' i1 svc
           | (None, i1) \<Rightarrow>
               (case transAt e 5 StatusAuthorized ''instant rail authorized via submit'' i1 of
                  (Some err, i2) \<Rightarrow> (HRet 500 (Some (BError (error_text err))), svc)
                | (None, i2) \<Rightarrow>
                    (let svc1 = emitSvcAt e 7 i2 StatusIntent StatusAuthorized
                                  ''instant authorize'' svc in
                     case transAt e 9 StatusCaptured ''instant rail captured via submit'' i2 of
                       (Some err, i3) \<Rightarrow> (HRet 500 (Some (BError (error_text err))), svc1)
                     | (None, i3) \<Rightarrow>
                         (HRet 201 (Some (BIntent i3)),
                          emitSvcAt e 12 i3 StatusAuthorized StatusCaptured ''instant submit''
                            (storeOp (\<lambda>I. st_AddCapture I
                                \<lparr>caID = envUUID e 1, caIntentID = iID i3,
                                 caAmount = iCapturedAmount i3, caExternalRef = iExternalID i3,
                                 caCapturedAt = envNow e 11\<rparr>)
                              (storeOp (\<lambda>I. st_CreateIntent I i3) svc1)))))))"

definition createAuthorize :: "env \<Rightarrow> adapter option \<Rightarrow> intent \<Rightarrow> ('s, 'i) handle" where
  "createAuthorize e adapter i svc =
     (case adapter of
        None \<Rightarrow> (HPanic, svc)
      | Some a \<Rightarrow>
          (case ad_Authorize a i of
             (Some err, i1) \<Rightarrow>
               createFailed e (''authorize failed: '' @ error_text err) (error_text err)
                 502 ''authorize failed'' i1 svc
           | (None, i1) \<Rightarrow>
               (case transAt e 5 StatusAuthorized ''authorized by rail'' i1 of
                  (Some err, i2) \<Rightarrow> (HRet 500 (Some (BError (error_text err))), svc)
                | (None, i2) \<Rightarrow>
                    (HRet 201 (Some (BIntent i2)),
                     emitSvcAt e 7 i2 StatusIntent StatusAuthorized ''authorized''
                       (storeOp (\<lambda>I. st_CreateIntent I i2) svc)))))"

definition createHandle :: "env \<Rightarrow> string \<Rightarrow> createIntentReq \<Rightarrow> ('s, 'i) handle" where
  "createHandle e key req svc =
     (let i = newIntent e key req;
          adapter = Registry_For (svRails svc) (ciRail req)
      in if ciThreeDSRequired req then create3DS e i svc
         else
           (case fr_Score (svFraud svc) i of
              Inl err \<Rightarrow>
                createFailed e (''fraud check failed: '' @ error_text err) (error_text err)
                  502 ''fraud check failed'' i svc
            | Inr dec \<Rightarrow>
                (if \<not> dcAllowed dec
                 then createFailed e (''blocked by fraud: '' @ dcReason dec) ''fraud blocked''
                        403 ''intent blocked by fraud detection'' i svc
                 else if IsInstant (ciRail req) then createInstant e adapter i svc
                 else createAuthorize e adapter i svc)))"

text \<open>The checks on a decoded request, in their order.\<close>

definition createInvalid :: "createIntentReq \<Rightarrow> string option" where
  "createInvalid req =
     (if \<not> IsValidRail (ciRail req) then Some ''unsupported rail''
      else if sint (ciAmount req) \<le> 0 then Some ''amount must be positive''
      else if ciCurrency req = '''' then Some ''currency is required''
      else if ciPayerRef req = '''' then Some ''payer_ref is required''
      else if ciThreeDSRequired req \<and> ciRail req \<noteq> RailCard
           then Some ''three_ds_required only valid for card rail''
      else None)"

text \<open>\<open>None\<close> for the body is a decoding error.\<close>

definition CreateIntent ::
  "env \<Rightarrow> string \<Rightarrow> createIntentReq option \<Rightarrow> ('s, 'i) service
     \<Rightarrow> response option \<times> ('s, 'i) service" where
  "CreateIntent e key body svc =
     (if key = '''' then (Some (respondError 400 ''Idempotency-Key header is required''), svc)
      else
        (case body of
           None \<Rightarrow> (Some (respondError 400 ''invalid JSON body''), svc)
         | Some req \<Rightarrow>
             (case createInvalid req of
                Some msg \<Rightarrow> (Some (respondError 400 msg), svc)
              | None \<Rightarrow>
                  (case replayOrContinue e ''create'' key (createHandle e key req) svc of
                     (None, svc') \<Rightarrow> (None, svc')
                   | (Some r, svc') \<Rightarrow>
                       (Some r,
                        svc'\<lparr>svMetrics :=
                           ObserveIntentCreation (time_Sub (envNow e 14) (envNow e 3))
                             (svMetrics svc')\<rparr>)))))"

section \<open>Get and list\<close>

definition GetIntent :: "string \<Rightarrow> ('s, 'i) service \<Rightarrow> response" where
  "GetIntent iid svc =
     (case st_GetIntent (svStoreI svc) iid (svStore svc) of
        None \<Rightarrow> respondError 404 ''intent not found''
      | Some i \<Rightarrow> respond 200 (BIntent i))"

definition ListPayments :: "env \<Rightarrow> string \<Rightarrow> string \<Rightarrow> ('s, 'i) service \<Rightarrow> response" where
  "ListPayments e status rail svc =
     respond 200 (BPayments (st_ListIntents (svStoreI svc) (envOrder e) status rail (svStore svc)))"

section \<open>Capture\<close>

definition captureAmount :: "int64 option \<Rightarrow> intent \<Rightarrow> error + int64" where
  "captureAmount reqAmount i =
     (case reqAmount of
        Some a \<Rightarrow>
          (if sint a \<le> 0 then Inl (ErrorString ''capture amount must be positive'')
           else if sint (iAmount i - iCapturedAmount i) < sint a
                then Inl (ErrorString ''capture amount exceeds authorized amount'')
           else Inr a)
      | None \<Rightarrow> Inr (iAmount i))"

definition captureDone :: "env \<Rightarrow> int64 \<Rightarrow> intent \<Rightarrow> fx \<Rightarrow> fnres \<times> intent \<times> fx" where
  "captureDone e amount i0 w0 =
     (let i = i0\<lparr>iCapturedAmount := iCapturedAmount i0 + amount\<rparr>;
          w = w0\<lparr>fxCapture := Some \<lparr>caID = envUUID e 1, caIntentID = iID i, caAmount = amount,
                   caExternalRef = iExternalID i, caCapturedAt = envNow e 4\<rparr>\<rparr>;
          prev = iStatus i
      in if sint (iAmount i) \<le> sint (iCapturedAmount i)
         then (case transAt e 5 StatusCaptured ''captured'' i of
                 (Some err, i') \<Rightarrow> (FnErr err, i', w)
               | (None, i') \<Rightarrow> (FnOk, i', emitAt e 7 i' prev StatusCaptured ''capture'' w))
         else
           let i' = appendAt e 5 EventCaptured ''partial capture'' i
           in (FnOk, i', emitAt e 7 i' prev prev ''partial capture'' w))"

definition captureFn :: "env \<Rightarrow> registry \<Rightarrow> int64 option \<Rightarrow> fx callback" where
  "captureFn e rails reqAmount i w =
     (if iRail i \<noteq> RailCard then (FnErr (ErrorString ''capture only supported for card rail''), i, w)
      else if iStatus i \<noteq> StatusAuthorized
           then (FnErr (ErrorString ''intent not in authorized state''), i, w)
      else
        (case captureAmount reqAmount i of
           Inl err \<Rightarrow> (FnErr err, i, w)
         | Inr amount \<Rightarrow>
             (if sint (iAmount i) < sint (iCapturedAmount i + amount)
              then (FnErr (ErrorString ''capture amount exceeds authorized amount''), i, w)
              else
                (case Registry_For rails (iRail i) of
                   None \<Rightarrow> (FnPanic, i, w)
                 | Some a \<Rightarrow>
                     (case ad_Capture a i amount of
                        (Some err, i1) \<Rightarrow> (FnErr err, i1, w)
                      | (None, i1) \<Rightarrow> captureDone e amount i1 w)))))"

definition addCapture :: "fx \<Rightarrow> ('s, 'i) service \<Rightarrow> ('s, 'i) service" where
  "addCapture w svc =
     (case fxCapture w of None \<Rightarrow> svc | Some c \<Rightarrow> storeOp (\<lambda>I. st_AddCapture I c) svc)"

definition captureErr :: "error \<Rightarrow> hres" where
  "captureErr err =
     (if errors_Is err ErrNotFound then HRet 404 (Some (BError ''intent not found''))
      else if errors_Is err ErrInvalidTransition \<or> errors_Is err ErrTerminalState
           then HRet 409 (Some (BError (error_text err)))
      else HRet 502 (Some (BError (error_text err))))"

definition captureHandle :: "env \<Rightarrow> int64 option \<Rightarrow> string \<Rightarrow> ('s, 'i) handle" where
  "captureHandle e reqAmount iid svc =
     (case updateIntent (envNow e 9) iid (captureFn e (svRails svc) reqAmount) svc of
        (UpdPanic, w, svc1) \<Rightarrow> (HPanic, svc1)
      | (UpdErr err, w, svc1) \<Rightarrow> (captureErr err, addCapture w svc1)
      | (UpdOk i, w, svc1) \<Rightarrow> (HRet 200 (Some (BIntent i)), addCapture w svc1))"

text \<open>
  The optional \<open>amount\<close> of the capture and refund bodies; with no body at all the request
  struct keeps its nil pointer.
\<close>

definition Capture ::
  "env \<Rightarrow> string \<Rightarrow> string \<Rightarrow> int64 option body_in \<Rightarrow> ('s, 'i) service
     \<Rightarrow> response option \<times> ('s, 'i) service" where
  "Capture e iid key body svc =
     (case body of
        BadJSON \<Rightarrow> (Some (respondError 400 ''invalid JSON body''), svc)
      | NoBody \<Rightarrow> replayOrContinue e (''capture:'' @ iid) key (captureHandle e None iid) svc
      | JSONBody amt \<Rightarrow> replayOrContinue e (''capture:'' @ iid) key (captureHandle e amt iid) svc)"

section \<open>Void\<close>

definition voidFn :: "env \<Rightarrow> registry \<Rightarrow> fx callback" where
  "voidFn e rails i w =
     (if iStatus i \<noteq> StatusAuthorized then (FnErr ErrInvalidTransition, i, w)
      else
        (case Registry_For rails (iRail i) of
           None \<Rightarrow> (FnPanic, i, w)
         | Some a \<Rightarrow>
             (case ad_Void a i of
                (Some err, i1) \<Rightarrow> (FnErr err, i1, w)
              | (None, i1) \<Rightarrow>
                  (let prev = iStatus i1 in
                   case transAt e 5 StatusVoided ''voided'' i1 of
                     (Some err, i2) \<Rightarrow> (FnErr err, i2, w)
                   | (None, i2) \<Rightarrow> (FnOk, i2, emitAt e 7 i2 prev StatusVoided ''void'' w)))))"

definition voidErr :: "error \<Rightarrow> hres" where
  "voidErr err =
     (if errors_Is err ErrNotFound then HRet 404 (Some (BError ''intent not found''))
      else if errors_Is err ErrInvalidTransition \<or> errors_Is err ErrTerminalState
           then HRet 409 (Some (BError ''void not allowed from current state''))
      else HRet 502 (Some (BError (error_text err))))"

definition voidHandle :: "env \<Rightarrow> string \<Rightarrow> ('s, 'i) handle" where
  "voidHandle e iid svc =
     (case updateIntent (envNow e 9) iid (voidFn e (svRails svc)) svc of
        (UpdPanic, w, svc1) \<Rightarrow> (HPanic, svc1)
      | (UpdErr err, w, svc1) \<Rightarrow> (voidErr err, svc1)
      | (UpdOk i, w, svc1) \<Rightarrow> (HRet 200 (Some (BIntent i)), svc1))"

definition Void ::
  "env \<Rightarrow> string \<Rightarrow> string \<Rightarrow> ('s, 'i) service \<Rightarrow> response option \<times> ('s, 'i) service" where
  "Void e iid key svc = replayOrContinue e (''void:'' @ iid) key (voidHandle e iid) svc"

section \<open>Refund\<close>

definition refundAmount :: "int64 option \<Rightarrow> intent \<Rightarrow> error + int64" where
  "refundAmount reqAmount i =
     (case reqAmount of
        Some a \<Rightarrow>
          (if sint a \<le> 0 then Inl (ErrorString ''refund amount must be positive'') else Inr a)
      | None \<Rightarrow> Inr (iCapturedAmount i))"

definition refundDone :: "env \<Rightarrow> int64 \<Rightarrow> intent \<Rightarrow> fx \<Rightarrow> fnres \<times> intent \<times> fx" where
  "refundDone e amount i0 w0 =
     (let i = i0\<lparr>iRefundedAmount := iRefundedAmount i0 + amount\<rparr>;
          w = w0\<lparr>fxRefund := Some \<lparr>reID = envUUID e 1, reIntentID = iID i, reAmount = amount,
                   reExternalRef = iExternalID i, reRefundedAt = envNow e 4,
                   reState = ''refunded''\<rparr>\<rparr>;
          prev = iStatus i
      in case transAt e 5 StatusRefunding ''refund initiated'' i of
           (Some err, i1) \<Rightarrow> (FnErr err, i1, w)
         | (None, i1) \<Rightarrow>
             (case transAt e 7 StatusRefunded ''refunded'' i1 of
                (Some err, i2) \<Rightarrow> (FnErr err, i2, w)
              | (None, i2) \<Rightarrow> (FnOk, i2, emitAt e 9 i2 prev StatusRefunded ''refund'' w)))"

definition refundFn :: "env \<Rightarrow> registry \<Rightarrow> int64 option \<Rightarrow> fx callback" where
  "refundFn e rails reqAmount i w =
     (if iStatus i \<noteq> StatusCaptured \<and> iStatus i \<noteq> StatusSettled
      then (FnErr ErrInvalidTransition, i, w)
      else
        (case refundAmount reqAmount i of
           Inl err \<Rightarrow> (FnErr err, i, w)
         | Inr amount \<Rightarrow>
             (if sint (iCapturedAmount i) < sint (iRefundedAmount i + amount)
              then (FnErr (ErrorString ''refund amount exceeds captured amount''), i, w)
              else
                (case Registry_For rails (iRail i) of
                   None \<Rightarrow> (FnPanic, i, w)
                 | Some a \<Rightarrow>
                     (case ad_Refund a i amount of
                        (Some err, i1) \<Rightarrow> (FnErr err, i1, w)
                      | (None, i1) \<Rightarrow> refundDone e amount i1 w)))))"

definition addRefund :: "fx \<Rightarrow> ('s, 'i) service \<Rightarrow> ('s, 'i) service" where
  "addRefund w svc =
     (case fxRefund w of None \<Rightarrow> svc | Some r \<Rightarrow> storeOp (\<lambda>I. st_AddRefund I r) svc)"

definition refundErr :: "error \<Rightarrow> hres" where
  "refundErr err =
     (if errors_Is err ErrNotFound then HRet 404 (Some (BError ''intent not found''))
      else if errors_Is err ErrInvalidTransition \<or> errors_Is err ErrTerminalState
           then HRet 409 (Some (BError ''refund not allowed from current state''))
      else HRet 502 (Some (BError (error_text err))))"

definition refundHandle :: "env \<Rightarrow> int64 option \<Rightarrow> string \<Rightarrow> ('s, 'i) handle" where
  "refundHandle e reqAmount iid svc =
     (case updateIntent (envNow e 11) iid (refundFn e (svRails svc) reqAmount) svc of
        (UpdPanic, w, svc1) \<Rightarrow> (HPanic, svc1)
      | (UpdErr err, w, svc1) \<Rightarrow> (refundErr err, addRefund w svc1)
      | (UpdOk i, w, svc1) \<Rightarrow> (HRet 200 (Some (BIntent i)), addRefund w svc1))"

definition Refund ::
  "env \<Rightarrow> string \<Rightarrow> string \<Rightarrow> int64 option body_in \<Rightarrow> ('s, 'i) service
     \<Rightarrow> response option \<times> ('s, 'i) service" where
  "Refund e iid key body svc =
     (case body of
        BadJSON \<Rightarrow> (Some (respondError 400 ''invalid JSON body''), svc)
      | NoBody \<Rightarrow> replayOrContinue e (''refund:'' @ iid) key (refundHandle e None iid) svc
      | JSONBody amt \<Rightarrow> replayOrContinue e (''refund:'' @ iid) key (refundHandle e amt iid) svc)"

section \<open>3DS challenge\<close>

text \<open>The last \<open>3ds_pending\<close> event of the history dates the challenge.\<close>

definition is3DSExpired :: "duration \<Rightarrow> time \<Rightarrow> intent \<Rightarrow> bool" where
  "is3DSExpired window now i =
     (if sint window \<le> 0 then False
      else
        (case find (\<lambda>ev. evType ev = Event3DSPending) (rev (iHistory i)) of
           None \<Rightarrow> False
         | Some ev \<Rightarrow> sint window < sint (time_Sub now (evAt ev))))"

text \<open>A failing step of the callback: transition to failed, emit, return the error.\<close>

definition threeDSFail :: "env \<Rightarrow> string \<Rightarrow> string \<Rightarrow> error \<Rightarrow> fx callback" where
  "threeDSFail e detail emitDetail err i w =
     (let prev = iStatus i; i' = snd (transAt e 5 StatusFailed detail i)
      in (FnErr err, i', emitAt e 7 i' prev StatusFailed emitDetail w))"

definition threeDSAuthorize :: "env \<Rightarrow> adapter \<Rightarrow> fx callback" where
  "threeDSAuthorize e a i w =
     (case ad_Authorize a i of
        (Some err, i1) \<Rightarrow>
          threeDSFail e (''authorize failed after 3ds: '' @ error_text err) (error_text err) err i1 w
      | (None, i1) \<Rightarrow>
          (let prev = iStatus i1 in
           case transAt e 5 StatusAuthorized ''3ds verified, authorized'' i1 of
             (Some err, i2) \<Rightarrow> (FnErr err, i2, w)
           | (None, i2) \<Rightarrow> (FnOk, i2, emitAt e 7 i2 prev StatusAuthorized ''3ds verified'' w)))"

definition threeDSFn ::
  "env \<Rightarrow> duration \<Rightarrow> mpi_client \<Rightarrow> registry \<Rightarrow> string \<Rightarrow> fx callback" where
  "threeDSFn e window mpi rails result i w =
     (if iStatus i \<noteq> Status3DSPending then (FnErr ErrInvalidTransition, i, w)
      else if is3DSExpired window (envNow e 4) i
           then threeDSFail e ''3ds challenge timed out'' ''3ds timeout'' ErrTimeout i w
      else
        (case mp_Resume mpi i result of
           Some err \<Rightarrow>
             threeDSFail e (''3ds verification failed: '' @ error_text err) (error_text err) err i w
         | None \<Rightarrow>
             (case Registry_For rails (iRail i) of
                None \<Rightarrow> (FnPanic, i, w)
              | Some a \<Rightarrow>
                  (case ad_Verify3DS a i result of
                     (Some err, i1) \<Rightarrow>
                       threeDSFail e (''3ds verification failed: '' @ error_text err)
                         (error_text err) err i1 w
                   | (None, i1) \<Rightarrow>
                       (case Registry_For rails (iRail i1) of
                          None \<Rightarrow> (FnPanic, i1, w)
                        | Some a' \<Rightarrow> threeDSAuthorize e a' i1 w)))))"

definition threeDSErr :: "error \<Rightarrow> hres" where
  "threeDSErr err =
     (if errors_Is err ErrNotFound then HRet 404 (Some (BError ''intent not found''))
      else if errors_Is err ErrTimeout then HRet 409 (Some (BError ''3ds challenge timed out''))
      else if errors_Is err ErrInvalidTransition \<or> errors_Is err ErrTerminalState
           then HRet 409 (Some (BError ''3ds challenge not allowed from current state''))
      else if errors_Is err ErrChallengeFailed then HRet 502 (Some (BError (error_text err)))
      else if errors_Is err Err3DSVerify \<or> errors_Is err ErrUnsupported3DS
           then HRet 502 (Some (BError (error_text err)))
      else HRet 502 (Some (BError (error_text err))))"

definition threeDSHandle :: "env \<Rightarrow> string \<Rightarrow> string \<Rightarrow> ('s, 'i) handle" where
  "threeDSHandle e result iid svc =
     (case updateIntent (envNow e 9) iid
             (threeDSFn e (svReplayWindow svc) (svMPI svc) (svRails svc) result) svc of
        (UpdPanic, w, svc1) \<Rightarrow> (HPanic, svc1)
      | (UpdErr err, w, svc1) \<Rightarrow> (threeDSErr err, svc1)
      | (UpdOk i, w, svc1) \<Rightarrow> (HRet 200 (Some (BIntent i)), svc1))"

definition ThreeDSChallenge ::
  "env \<Rightarrow> string \<Rightarrow> string \<Rightarrow> string option \<Rightarrow> ('s, 'i) service
     \<Rightarrow> response option \<times> ('s, 'i) service" where
  "ThreeDSChallenge e iid key body svc =
     (case body of
        None \<Rightarrow> (Some (respondError 400 ''invalid JSON body''), svc)
      | Some result \<Rightarrow> replayOrContinue e (''3ds:'' @ iid) key (threeDSHandle e result iid) svc)"

end
