(* ===== verification/Webhooks.thy ===== *)
theory Webhooks
  imports Service
begin

text \<open>
  Webhook ingestion, \<open>internal/api/handlers.go\<close>: signature and replay-window checks,
  de-duplication, and the settlement and chargeback handlers. The JSON decoder of the body is a
  parameter: it fills what it can of the record and its error is ignored, as in the code.
\<close>

record webhookBody =
  wbPaymentID :: string
  wbType :: string
  wbExternalEventID :: string
  wbTimestamp :: int64
  wbAmount :: int64
  wbReason :: string
  wbCaseRef :: string
  wbStage :: string
  wbRailRef :: string

abbreviation received :: response where
  "received \<equiv> respond 200 (BStatus ''received'')"

text \<open>
  \<open>if err != nil && !errors.Is(err, store.ErrNotFound)\<close> answers 500, anything else is
  received. A callback of a webhook never panics.
\<close>

definition webhookResult :: "updres \<Rightarrow> response" where
  "webhookResult r =
     (case r of
        UpdErr err \<Rightarrow>
          (if errors_Is err ErrNotFound then received else respondError 500 (error_text err))
      | _ \<Rightarrow> received)"

section \<open>Settlement\<close>

definition settlementFn :: "env \<Rightarrow> rail \<Rightarrow> webhookBody \<Rightarrow> fx callback" where
  "settlementFn e rail wb i0 w0 =
     (if iStatus i0 \<noteq> StatusCaptured
      then (FnOk, appendAt e 4 EventWebhook (rail @ '':settlement (ignored)'') i0, w0)
      else
        let i = i0\<lparr>iSettledAmount := iSettledAmount i0 + wbAmount wb\<rparr>;
            w = w0\<lparr>fxSettlement := Some \<lparr>seID = envUUID e 1, seIntentID = iID i,
                     seSettledAmount = wbAmount wb, seSettledAt = envNow e 4,
                     seRailRef = wbRailRef wb\<rparr>\<rparr>;
            prev = iStatus i
        in case transAt e 5 StatusSettled ''settled via webhook'' i of
             (Some err, i1) \<Rightarrow> (FnErr err, i1, w)
           | (None, i1) \<Rightarrow>
               (let w1 = emitAt e 7 i1 prev StatusSettled ''settlement'' w in
                if iSettledAmount i1 \<noteq> iCapturedAmount i1
                then
                  let i2 = appendAt e 9 EventReconciliation
                             ''settled amount does not match captured amount'' i1
                  in (FnOk, i2,
                      emitAt e 11 i2 StatusSettled StatusSettled
                        (''reconciliation break: captured='' @ itoa (iCapturedAmount i2) @
                         '' settled='' @ itoa (iSettledAmount i2)) w1)
                else (FnOk, i1, w1)))"

definition addSettlement :: "fx \<Rightarrow> ('s, 'i) service \<Rightarrow> ('s, 'i) service" where
  "addSettlement w svc =
     (case fxSettlement w of None \<Rightarrow> svc | Some x \<Rightarrow> storeOp (\<lambda>I. st_AddSettlement I x) svc)"

definition handleSettlementWebhook ::
  "env \<Rightarrow> rail \<Rightarrow> webhookBody \<Rightarrow> ('s, 'i) service \<Rightarrow> response \<times> ('s, 'i) service" where
  "handleSettlementWebhook e rail wb svc =
     (case updateIntent (envNow e 13) (wbPaymentID wb) (settlementFn e rail wb) svc of
        (r, w, svc1) \<Rightarrow> (webhookResult r, addSettlement w svc1))"

section \<open>Chargeback\<close>

definition chargebackOpenedFn :: "env \<Rightarrow> rail \<Rightarrow> fx callback" where
  "chargebackOpenedFn e rail i w =
     (if iStatus i \<noteq> StatusCaptured \<and> iStatus i \<noteq> StatusSettled
      then (FnOk, appendAt e 6 EventWebhook (rail @ '':chargeback (ignored)'') i, w)
      else
        let prev = iStatus i in
        case transAt e 6 StatusChargedBack ''chargeback opened'' i of
          (Some err, i1) \<Rightarrow> (FnErr err, i1, w)
        | (None, i1) \<Rightarrow> (FnOk, i1, emitAt e 8 i1 prev StatusChargedBack ''chargeback opened'' w))"

definition reversalFn :: "env \<Rightarrow> webhookBody \<Rightarrow> fx callback" where
  "reversalFn e wb i w =
     (if iStatus i \<noteq> StatusChargedBack then (FnOk, i, w)
      else
        let outcome = (if wbAmount wb = 0 then StatusChargebackWon else StatusChargebackLost);
            detail = (if wbAmount wb = 0 then ''chargeback won'' else ''chargeback lost'');
            prev = iStatus i
        in case transAt e 6 outcome detail i of
             (Some err, i1) \<Rightarrow> (FnErr err, i1, w)
           | (None, i1) \<Rightarrow> (FnOk, i1, emitAt e 8 i1 prev outcome detail w))"

text \<open>A new dispute: record the row, and for the opened stage move the intent.\<close>

definition chargebackNew ::
  "env \<Rightarrow> rail \<Rightarrow> webhookBody \<Rightarrow> chargeback_stage \<Rightarrow> ('s, 'i) service
     \<Rightarrow> response \<times> ('s, 'i) service" where
  "chargebackNew e rail wb stage svc =
     (let cb = \<lparr>cbID = envUUID e 1, cbIntentID = wbPaymentID wb, cbAmount = wbAmount wb,
                cbReason = wbReason wb, cbStage = stage, cbCaseRef = wbCaseRef wb,
                cbCreatedAt = envNow e 4, cbUpdatedAt = envNow e 5\<rparr>;
          svc1 = storeOp (\<lambda>I. st_AddChargeback I cb) svc
      in if stage = StageOpened
         then (case updateIntent (envNow e 10) (wbPaymentID wb) (chargebackOpenedFn e rail) svc1 of
                 (r, w, svc2) \<Rightarrow> (webhookResult r, svc2))
         else (received, svc1))"

text \<open>A known dispute: its stage progresses, and a reversal decides the intent.\<close>

definition chargebackKnown ::
  "env \<Rightarrow> webhookBody \<Rightarrow> chargeback_stage \<Rightarrow> ('s, 'i) service \<Rightarrow> response \<times> ('s, 'i) service" where
  "chargebackKnown e wb stage svc =
     (let svc1 = storeOp (\<lambda>I s. snd (st_UpdateChargeback I (envNow e 5) (envOrder e) (wbCaseRef wb)
                   (\<lambda>c. (None, c\<lparr>cbStage := stage, cbUpdatedAt := envNow e 4\<rparr>)) s)) svc
      in if stage = StageReversal
         then (case updateIntent (envNow e 10) (wbPaymentID wb) (reversalFn e wb) svc1 of
                 (r, w, svc2) \<Rightarrow> (webhookResult r, svc2))
         else (received, svc1))"

definition handleChargebackWebhook ::
  "env \<Rightarrow> rail \<Rightarrow> webhookBody \<Rightarrow> ('s, 'i) service \<Rightarrow> response \<times> ('s, 'i) service" where
  "handleChargebackWebhook e rail wb svc =
     (let stage = (if wbStage wb = '''' then StageOpened else wbStage wb) in
      if \<not> IsValidChargebackStage stage then (respondError 400 ''invalid chargeback stage'', svc)
      else if wbCaseRef wb = ''''
           then (respondError 400 ''case_ref required for chargeback webhook'', svc)
      else
        (case find (\<lambda>c. cbCaseRef c = wbCaseRef wb)
                (st_ChargebacksFor (svStoreI svc) (wbPaymentID wb) (svStore svc)) of
           None \<Rightarrow> chargebackNew e rail wb stage svc
         | Some existing \<Rightarrow> chargebackKnown e wb stage svc))"

section \<open>Dispatch\<close>

definition noteFn :: "env \<Rightarrow> rail \<Rightarrow> webhookBody \<Rightarrow> fx callback" where
  "noteFn e rail wb i w = (FnOk, appendAt e 4 EventWebhook (rail @ '':'' @ wbType wb) i, w)"

definition processWebhook ::
  "env \<Rightarrow> rail \<Rightarrow> webhookBody \<Rightarrow> ('s, 'i) service \<Rightarrow> response \<times> ('s, 'i) service" where
  "processWebhook e rail wb svc =
     (if wbPaymentID wb = '''' then (received, svc)
      else if wbType wb = ''settlement'' then handleSettlementWebhook e rail wb svc
      else if wbType wb = ''chargeback'' \<or> wbStage wb \<noteq> '''' then handleChargebackWebhook e rail wb svc
      else
        (case updateIntent (envNow e 13) (wbPaymentID wb) (noteFn e rail wb) svc of
           (r, w, svc1) \<Rightarrow> (webhookResult r, svc1)))"

text \<open>
  The checks at the entry of the endpoint, in their order: the response that refuses the
  request, or the decoded webhook. \<open>body\<close> is what \<open>io.ReadAll\<close> gives (\<open>None\<close> for an error),
  \<open>decode\<close> is \<open>json.Unmarshal\<close> into the webhook record.
\<close>

definition webhookCheck ::
  "env \<Rightarrow> (bytes \<Rightarrow> webhookBody) \<Rightarrow> string \<Rightarrow> bytes option \<Rightarrow> string \<Rightarrow> ('s, 'i) service
     \<Rightarrow> response + webhookBody" where
  "webhookCheck e decode railName body sig svc =
     (if \<not> IsValidRail railName then Inl (respondError 400 ''unsupported rail'')
      else
        (case body of
           None \<Rightarrow> Inl (respondError 400 ''failed to read body'')
         | Some b \<Rightarrow>
             (case svWebhookKeys svc railName of
                None \<Rightarrow> Inl (respondError 401 ''no secret configured for rail'')
              | Some key \<Rightarrow>
                  (if key = [] then Inl (respondError 401 ''no secret configured for rail'')
                   else if \<not> verifyHMAC (envHMAC e) key b sig
                        then Inl (respondError 401 ''invalid signature'')
                   else
                     let wb = decode b in
                     if wbTimestamp wb \<noteq> 0 \<and>
                        sint (svReplayWindow svc) <
                          sint (absDuration (time_Sub (envNow e 0) (time_Unix (wbTimestamp wb))))
                     then Inl (respondError 401 ''webhook timestamp outside replay window'')
                     else Inr wb))))"

text \<open>
  The rest of the endpoint. The deferred calls run when the handler returns: first the backlog
  gauge is decremented, then the webhook is marked as processed.
\<close>

definition deliverWebhook ::
  "env \<Rightarrow> string \<Rightarrow> webhookBody \<Rightarrow> ('s, 'i) service \<Rightarrow> response \<times> ('s, 'i) service" where
  "deliverWebhook e railName wb svc =
     (if wbExternalEventID wb = '''' then processWebhook e railName wb svc
      else
        (case st_RecordWebhook (svStoreI svc)
                \<lparr>whID = envUUID e 0, whRail = railName, whExternalEventID = wbExternalEventID wb,
                 whSignature = ''verified'', whReceivedAt = envNow e 1, whProcessedAt = None\<rparr>
                (svStore svc) of
           (Some err, s1) \<Rightarrow>
             (if errors_Is err ErrDuplicateWebhook
              then (respond 200 (BStatus ''duplicate''), svc\<lparr>svStore := s1\<rparr>)
              else (respondError 500 (error_text err), svc\<lparr>svStore := s1\<rparr>))
         | (None, s1) \<Rightarrow>
             (case processWebhook e railName wb
                     (svc\<lparr>svStore := s1, svMetrics := IncWebhookBacklog (svMetrics svc)\<rparr>) of
                (resp, svc2) \<Rightarrow>
                  (resp,
                   storeOp (\<lambda>I. st_MarkWebhookProcessed I (envNow e 15) railName
                              (wbExternalEventID wb))
                     (svc2\<lparr>svMetrics := DecWebhookBacklog (svMetrics svc2)\<rparr>)))))"

definition Webhook ::
  "env \<Rightarrow> (bytes \<Rightarrow> webhookBody) \<Rightarrow> string \<Rightarrow> bytes option \<Rightarrow> string \<Rightarrow> ('s, 'i) service
     \<Rightarrow> response \<times> ('s, 'i) service" where
  "Webhook e decode railName body sig svc =
     (case webhookCheck e decode railName body sig svc of
        Inl resp \<Rightarrow> (resp, svc)
      | Inr wb \<Rightarrow> deliverWebhook e railName wb svc)"

end
