(* ===== verification/Invariants.thy ===== *)
theory Invariants
  imports Payments Webhooks
begin

text \<open>
  Invariants of the running service. A callback specification says what one callback of
  \<open>UpdateIntent\<close> does to the intent and to the audit log; the locale of the store lifts it to
  a whole request; the replay wrapper adds nothing to it; and the step relation \<open>svc_step\<close>,
  one rule per mutating endpoint, lifts it to every reachable state.
\<close>

section \<open>The part of the service an invariant talks about\<close>

record 's core =
  coStoreI :: "('s, fx) store_iface"
  coStore :: 's
  coRails :: registry
  coAudit :: "sink option"

definition core :: "('s, 'i) service \<Rightarrow> 's core" where
  "core svc = \<lparr>coStoreI = svStoreI svc, coStore = svStore svc, coRails = svRails svc,
     coAudit = svAudit svc\<rparr>"

lemma core_frame [simp]:
  "core (svc\<lparr>svIdem := m\<rparr>) = core svc"
  "core (svc\<lparr>svIdemCache := c\<rparr>) = core svc"
  "core (svc\<lparr>svMetrics := mt\<rparr>) = core svc"
  "core (saveIdem t ep k st b svc) = core svc"
  "core (snd (lookupIdem t ep k svc)) = core svc"
  by (simp_all add: core_def saveIdem_def lookupIdem_def Let_def split: option.split)

text \<open>
  The replay wrapper either leaves the core alone or runs the closure once, on a service with
  the same core.
\<close>

lemma replayOrContinueStore_core:
  "\<exists>svc1. core svc1 = core svc \<and>
     core (snd (replayOrContinueStore e J ep key h svc)) \<in> {core svc, core (snd (h svc1))}"
proof (cases "key = ''''")
  case True
  then show ?thesis
    by (intro exI [of _ svc]) (auto simp: replayOrContinueStore_def split: prod.split hres.split)
next
  case False
  obtain l m1 where l: "id_LookupResponse J (envNow e 0) (idemKey ep key) (svIdem svc) = (l, m1)"
    by (cases "id_LookupResponse J (envNow e 0) (idemKey ep key) (svIdem svc)")
  obtain c m2 where c: "id_Claim J (envNow e 1) (idemKey ep key) (svIdemTTL svc) m1 = (c, m2)"
    by (cases "id_Claim J (envNow e 1) (idemKey ep key) (svIdemTTL svc) m1")
  show ?thesis
    using False l c
    by (intro exI [of _ "svc\<lparr>svIdem := m2\<rparr>"])
       (auto simp: replayOrContinueStore_def Let_def split: prod.split hres.split sum.split
          option.split bool.split)
qed

lemma replayOrContinue_core:
  "\<exists>svc1. core svc1 = core svc \<and>
     core (snd (replayOrContinue e ep key h svc)) \<in> {core svc, core (snd (h svc1))}"
proof (cases "svIdemI svc")
  case None
  obtain res svc1 where l: "lookupIdem (envNow e 0) ep key svc = (res, svc1)"
    by (cases "lookupIdem (envNow e 0) ep key svc")
  then have "core svc1 = core svc"
    using core_frame(5) [of "envNow e 0" ep key svc] by simp
  with None l show ?thesis
    by (intro exI [of _ svc1])
       (auto simp: replayOrContinue_def split: prod.split hres.split option.split)
next
  case (Some J)
  then show ?thesis
    using replayOrContinueStore_core [of svc e J ep key h] by (simp add: replayOrContinue_def)
qed

lemma replayOrContinue_preserves:
  assumes "P (core svc)"
    and "\<And>svc1. P (core svc1) \<Longrightarrow> P (core (snd (h svc1)))"
  shows "P (core (snd (replayOrContinue e ep key h svc)))"
  using replayOrContinue_core [of svc e ep key h] assms by fastforce

section \<open>Audit chains: one callback\<close>

abbreviation edge :: "audit_event \<Rightarrow> status \<times> status" where
  "edge a \<equiv> (auFromState a, auToState a)"

lemma stamp_event_frame [simp]:
  "auIntentID (stamp_event t a) = auIntentID a"
  "auFromState (stamp_event t a) = auFromState a"
  "auToState (stamp_event t a) = auToState a"
  by (simp_all add: stamp_event_def)

text \<open>
  The moves an audit entry may record: a step of the state machine (a refund, which takes the
  two steps over \<open>refunding\<close>, is recorded as the direct one), or a note that keeps the status.
\<close>

definition legal :: "status \<Rightarrow> status \<Rightarrow> bool" where
  "legal s s' \<longleftrightarrow> s = s' \<or> moves s s'"

lemma legal_refl [simp]: "legal s s"
  by (simp add: legal_def)

lemma legal_moves: "moves s s' \<Longrightarrow> legal s s'"
  by (simp add: legal_def)

lemma legal_simps [simp]:
  "legal StatusIntent StatusAuthorized" "legal StatusIntent Status3DSPending"
  "legal StatusIntent StatusFailed" "legal StatusAuthorized StatusCaptured"
  "legal StatusAuthorized StatusVoided" "legal Status3DSPending StatusAuthorized"
  "legal Status3DSPending StatusFailed" "legal StatusCaptured StatusSettled"
  "legal StatusCaptured StatusRefunded" "legal StatusCaptured StatusChargedBack"
  "legal StatusChargedBack StatusChargebackWon" "legal StatusChargedBack StatusChargebackLost"
  by (simp_all add: legal_moves moves_table)

abbreviation entry_ok :: "string \<Rightarrow> audit_event \<Rightarrow> bool" where
  "entry_ok k a \<equiv> auIntentID a = k \<and> legal (auFromState a) (auToState a)"

text \<open>
  A callback is audited when the events it emits belong to its intent, record legal moves and
  lead from the status it found to the status it left.
\<close>

definition cb_audited :: "fx callback \<Rightarrow> bool" where
  "cb_audited fn \<longleftrightarrow>
     (\<forall>i w es r i' w'. fxAudit w = Some (Recorder es) \<longrightarrow> fn i w = (r, i', w') \<longrightarrow>
        iID i' = iID i \<and>
        (\<exists>es'. fxAudit w' = Some (Recorder (es @ es')) \<and>
               (\<forall>a \<in> set es'. entry_ok (iID i) a) \<and>
               chain (iStatus i) (map edge es') (iStatus i')))"

lemma cb_auditedI:
  assumes "\<And>i w es r i' w'. fxAudit w = Some (Recorder es) \<Longrightarrow> fn i w = (r, i', w') \<Longrightarrow>
        iID i' = iID i \<and>
        (\<exists>es'. fxAudit w' = Some (Recorder (es @ es')) \<and>
               (\<forall>a \<in> set es'. entry_ok (iID i) a) \<and>
               chain (iStatus i) (map edge es') (iStatus i'))"
  shows "cb_audited fn"
  using assms unfolding cb_audited_def by blast

lemma emitFx_audit [simp]:
  "fxAudit w = Some (Recorder es) \<Longrightarrow>
   fxAudit (emitFx t t' i from to d w) =
     Some (Recorder (es @ [stamp_event t' \<lparr>auIntentID = iID i, auFromState = from, auToState = to,
                             auDetail = d, auAt = t\<rparr>]))"
  by (simp add: emitFx_def)

lemma emitFx_records [simp]:
  "fxCapture (emitFx t t' i from to d w) = fxCapture w"
  "fxRefund (emitFx t t' i from to d w) = fxRefund w"
  "fxSettlement (emitFx t t' i from to d w) = fxSettlement w"
  by (simp_all add: emitFx_def)

lemmas cb_unfold = Transition_def CanTransition_def Let_def
lemmas cb_splits = if_splits sum.splits option.splits prod.splits

lemma captureFn_audited:
  assumes "rails_ok rg" shows "cb_audited (captureFn e rg amt)"
  by (rule cb_auditedI)
     (auto simp: captureFn_def captureDone_def cb_unfold
        dest!: rail_adapter.pure_results(1) [OF rails_okD [OF assms]] split: cb_splits)

lemma voidFn_audited:
  assumes "rails_ok rg" shows "cb_audited (voidFn e rg)"
  by (rule cb_auditedI)
     (auto simp: voidFn_def cb_unfold
        dest!: rail_adapter.pure_results(3) [OF rails_okD [OF assms]] split: cb_splits)

lemma refundFn_audited:
  assumes "rails_ok rg" shows "cb_audited (refundFn e rg amt)"
  by (rule cb_auditedI)
     (auto simp: refundFn_def refundDone_def cb_unfold
        dest!: rail_adapter.pure_results(2) [OF rails_okD [OF assms]] split: cb_splits)

lemma settlementFn_audited: "cb_audited (settlementFn e rl wb)"
  by (rule cb_auditedI)
     (auto simp: settlementFn_def cb_unfold split: cb_splits)

lemma chargebackOpenedFn_audited: "cb_audited (chargebackOpenedFn e rl)"
  by (rule cb_auditedI)
     (auto simp: chargebackOpenedFn_def cb_unfold split: cb_splits)

lemma reversalFn_audited: "cb_audited (reversalFn e wb)"
  by (rule cb_auditedI)
     (auto simp: reversalFn_def cb_unfold split: cb_splits)

lemma noteFn_audited: "cb_audited (noteFn e rl wb)"
  by (rule cb_auditedI) (auto simp: noteFn_def)

lemma threeDSFail_audited:
  assumes "fxAudit w = Some (Recorder es)" "iStatus i = Status3DSPending"
    "threeDSFail e d ed err i w = (r, i', w')"
  shows "iID i' = iID i \<and>
        (\<exists>es'. fxAudit w' = Some (Recorder (es @ es')) \<and>
               (\<forall>a \<in> set es'. entry_ok (iID i) a) \<and>
               chain (iStatus i) (map edge es') (iStatus i'))"
  using assms by (auto simp: threeDSFail_def cb_unfold)

lemma threeDSAuthorize_audited:
  assumes a: "rail_adapter a" and w: "fxAudit w = Some (Recorder es)"
    and i: "iStatus i = Status3DSPending" and f: "threeDSAuthorize e a i w = (r, i', w')"
  shows "iID i' = iID i \<and>
        (\<exists>es'. fxAudit w' = Some (Recorder (es @ es')) \<and>
               (\<forall>a \<in> set es'. entry_ok (iID i) a) \<and>
               chain (iStatus i) (map edge es') (iStatus i'))"
proof (cases "ad_Authorize a i")
  case (Pair res i1)
  obtain x where i1: "i1 = i\<lparr>iExternalID := x\<rparr>"
    using rail_adapter.authorize_frame [OF a, of i] Pair by auto
  show ?thesis
  proof (cases res)
    case None
    with Pair i1 i w f show ?thesis by (auto simp: threeDSAuthorize_def cb_unfold)
  next
    case (Some err)
    with Pair f have "threeDSFail e (''authorize failed after 3ds: '' @ error_text err)
        (error_text err) err i1 w = (r, i', w')" by (simp add: threeDSAuthorize_def)
    from threeDSFail_audited [OF w _ this] i1 i show ?thesis by simp
  qed
qed

text \<open>The ways the callback of a 3DS challenge can end.\<close>

lemma threeDSFn_cases:
  assumes "rails_ok rg" and f: "threeDSFn e window mpi rg res i w = (r, i', w')"
  obtains (same) "(i', w') = (i, w)" "r \<noteq> FnOk"
        "iStatus i \<noteq> Status3DSPending \<or> Registry_For rg (iRail i) = None"
    | (fail) d ed err where "iStatus i = Status3DSPending" "threeDSFail e d ed err i w = (r, i', w')"
    | (auth) a where "iStatus i = Status3DSPending" "Registry_For rg (iRail i) = Some a"
        "rail_adapter a" "fst (ad_Verify3DS a i res) = None" "mp_Resume mpi i res = None"
        "\<not> is3DSExpired window (envNow e 4) i"
        "threeDSAuthorize e a i w = (r, i', w')"
proof (cases "Registry_For rg (iRail i)")
  case None
  with f that show ?thesis by (auto simp: threeDSFn_def split: cb_splits)
next
  case (Some a)
  then have a: "rail_adapter a" by (rule rails_okD [OF assms(1)])
  obtain v where "ad_Verify3DS a i res = (v, i)"
    using rail_adapter.verify_pure [OF a, of i res] by (cases "ad_Verify3DS a i res") auto
  with Some a f that show ?thesis by (auto simp: threeDSFn_def split: cb_splits)
qed

lemma threeDSFn_audited:
  assumes "rails_ok rg" shows "cb_audited (threeDSFn e window mpi rg res)"
proof (rule cb_auditedI)
  fix i w es r i' w'
  assume w: "fxAudit w = Some (Recorder es)" and f: "threeDSFn e window mpi rg res i w = (r, i', w')"
  from assms f show "iID i' = iID i \<and> (\<exists>es'. fxAudit w' = Some (Recorder (es @ es')) \<and>
      (\<forall>a \<in> set es'. entry_ok (iID i) a) \<and> chain (iStatus i) (map edge es') (iStatus i'))"
  proof (cases rule: threeDSFn_cases)
    case same
    with w show ?thesis by (intro conjI exI [of _ "[]"]) auto
  next
    case fail
    from threeDSFail_audited [OF w this] show ?thesis .
  next
    case auth
    from threeDSAuthorize_audited [OF auth(3) w auth(1,7)] show ?thesis .
  qed
qed

section \<open>Ledger rows: one callback\<close>

fun opt_list :: "'a option \<Rightarrow> 'a list" where
  "opt_list None = []"
| "opt_list (Some x) = [x]"

text \<open>
  The sums of the amounts of capture, refund and settlement rows. Sums wrap around as the
  int64 totals of the intent do.
\<close>

abbreviation sumCaptures :: "capture list \<Rightarrow> int64" where
  "sumCaptures cs \<equiv> sum_list (map caAmount cs)"

abbreviation sumRefunds :: "refund list \<Rightarrow> int64" where
  "sumRefunds rs \<equiv> sum_list (map reAmount rs)"

abbreviation sumSettlements :: "settlement list \<Rightarrow> int64" where
  "sumSettlements ss \<equiv> sum_list (map seSettledAmount ss)"

text \<open>Which record variable a callback may set.\<close>

datatype row_kind = NoRow | CaptureRow | RefundRow | SettlementRow

text \<open>
  A callback is balanced when it changes the totals of its intent by exactly the record it
  leaves for the handler, and that record belongs to the intent.
\<close>

definition cb_balanced :: "row_kind \<Rightarrow> fx callback \<Rightarrow> bool" where
  "cb_balanced kd fn \<longleftrightarrow>
     (\<forall>i w r i' w'. fxCapture w = None \<longrightarrow> fxRefund w = None \<longrightarrow> fxSettlement w = None \<longrightarrow>
        fn i w = (r, i', w') \<longrightarrow>
        iID i' = iID i \<and>
        iCapturedAmount i' = iCapturedAmount i + sumCaptures (opt_list (fxCapture w')) \<and>
        iRefundedAmount i' = iRefundedAmount i + sumRefunds (opt_list (fxRefund w')) \<and>
        iSettledAmount i' = iSettledAmount i + sumSettlements (opt_list (fxSettlement w')) \<and>
        (\<forall>c. fxCapture w' = Some c \<longrightarrow> caIntentID c = iID i \<and> kd = CaptureRow \<and> r \<noteq> FnPanic) \<and>
        (\<forall>x. fxRefund w' = Some x \<longrightarrow> reIntentID x = iID i \<and> kd = RefundRow \<and> r \<noteq> FnPanic) \<and>
        (\<forall>x. fxSettlement w' = Some x \<longrightarrow> seIntentID x = iID i \<and> kd = SettlementRow \<and> r \<noteq> FnPanic))"

lemma captureFn_balanced:
  assumes "rails_ok rg" shows "cb_balanced CaptureRow (captureFn e rg amt)"
  unfolding cb_balanced_def
  by (auto simp: captureFn_def captureDone_def cb_unfold
        dest!: rail_adapter.pure_results(1) [OF rails_okD [OF assms]] split: cb_splits)

lemma voidFn_balanced:
  assumes "rails_ok rg" shows "cb_balanced NoRow (voidFn e rg)"
  unfolding cb_balanced_def
  by (auto simp: voidFn_def cb_unfold
        dest!: rail_adapter.pure_results(3) [OF rails_okD [OF assms]] split: cb_splits)

lemma refundFn_balanced:
  assumes "rails_ok rg" shows "cb_balanced RefundRow (refundFn e rg amt)"
  unfolding cb_balanced_def
  by (auto simp: refundFn_def refundDone_def cb_unfold
        dest!: rail_adapter.pure_results(2) [OF rails_okD [OF assms]] split: cb_splits)

lemma settlementFn_balanced: "cb_balanced SettlementRow (settlementFn e rl wb)"
  unfolding cb_balanced_def
  by (auto simp: settlementFn_def cb_unfold split: cb_splits)

lemma chargebackOpenedFn_balanced: "cb_balanced NoRow (chargebackOpenedFn e rl)"
  unfolding cb_balanced_def
  by (auto simp: chargebackOpenedFn_def cb_unfold split: cb_splits)

lemma reversalFn_balanced: "cb_balanced NoRow (reversalFn e wb)"
  unfolding cb_balanced_def
  by (auto simp: reversalFn_def cb_unfold split: cb_splits)

lemma noteFn_balanced: "cb_balanced NoRow (noteFn e rl wb)"
  unfolding cb_balanced_def by (auto simp: noteFn_def)

text \<open>A 3DS challenge touches no amount and no record.\<close>

lemma threeDSFail_frame:
  assumes "threeDSFail e d ed err i w = (r, i', w')"
  shows "iID i' = iID i \<and> iAmount i' = iAmount i \<and> iCapturedAmount i' = iCapturedAmount i \<and>
    iRefundedAmount i' = iRefundedAmount i \<and> iSettledAmount i' = iSettledAmount i \<and>
    fxCapture w' = fxCapture w \<and> fxRefund w' = fxRefund w \<and> fxSettlement w' = fxSettlement w"
  using assms by (auto simp: threeDSFail_def Let_def)

lemma threeDSAuthorize_frame:
  assumes a: "rail_adapter a" and f: "threeDSAuthorize e a i w = (r, i', w')"
  shows "iID i' = iID i \<and> iAmount i' = iAmount i \<and> iCapturedAmount i' = iCapturedAmount i \<and>
    iRefundedAmount i' = iRefundedAmount i \<and> iSettledAmount i' = iSettledAmount i \<and>
    fxCapture w' = fxCapture w \<and> fxRefund w' = fxRefund w \<and> fxSettlement w' = fxSettlement w"
proof (cases "ad_Authorize a i")
  case (Pair res i1)
  obtain x where i1: "i1 = i\<lparr>iExternalID := x\<rparr>"
    using rail_adapter.authorize_frame [OF a, of i] Pair by auto
  then show ?thesis
    using Pair f threeDSFail_frame
    by (cases res) (fastforce simp: threeDSAuthorize_def Transition_def Let_def split: if_splits)+
qed

lemma threeDSFn_frame:
  assumes "rails_ok rg" and f: "threeDSFn e window mpi rg res i w = (r, i', w')"
  shows "iID i' = iID i \<and> iAmount i' = iAmount i \<and> iCapturedAmount i' = iCapturedAmount i \<and>
    iRefundedAmount i' = iRefundedAmount i \<and> iSettledAmount i' = iSettledAmount i \<and>
    fxCapture w' = fxCapture w \<and> fxRefund w' = fxRefund w \<and> fxSettlement w' = fxSettlement w"
  using assms
  by (cases rule: threeDSFn_cases) (auto dest: threeDSFail_frame threeDSAuthorize_frame)

lemma threeDSFn_balanced:
  assumes "rails_ok rg" shows "cb_balanced NoRow (threeDSFn e window mpi rg res)"
  unfolding cb_balanced_def using threeDSFn_frame [OF assms] by fastforce

section \<open>Bounds on amounts: one callback\<close>

text \<open>
  The amounts of an intent are in order: captured at most what was authorized, refunded at most
  what was captured. The bound on the authorized amount keeps the sums of the code exact.
\<close>

definition in_order :: "intent \<Rightarrow> bool" where
  "in_order i \<longleftrightarrow>
     0 < sint (iAmount i) \<and> sint (iAmount i) < 2 ^ 62 \<and>
     0 \<le> sint (iRefundedAmount i) \<and> sint (iRefundedAmount i) \<le> sint (iCapturedAmount i) \<and>
     sint (iCapturedAmount i) \<le> sint (iAmount i)"

definition cb_in_order :: "fx callback \<Rightarrow> bool" where
  "cb_in_order fn \<longleftrightarrow>
     (\<forall>i w r i' w'. in_order i \<longrightarrow> fn i w = (r, i', w') \<longrightarrow> iID i' = iID i \<and> in_order i')"

lemma sint_add_small:
  "\<bar>sint (x :: int64)\<bar> \<le> 2 ^ 62 \<Longrightarrow> \<bar>sint y\<bar> < 2 ^ 62 \<Longrightarrow> sint (x + y) = sint x + sint y"
  by (rule sint_add_int64) (auto simp: min_int64_def max_int64_def)

lemma in_order_frame:
  "in_order i \<Longrightarrow> iAmount i' = iAmount i \<Longrightarrow> iCapturedAmount i' = iCapturedAmount i \<Longrightarrow>
   iRefundedAmount i' = iRefundedAmount i \<Longrightarrow> in_order i'"
  by (simp add: in_order_def)

lemma in_order_capture:
  assumes i: "in_order i" and amt: "captureAmount amt i = Inr n"
    and le: "sint (iCapturedAmount i + n) \<le> sint (iAmount i)"
    and i': "iAmount i' = iAmount i" "iCapturedAmount i' = iCapturedAmount i + n"
      "iRefundedAmount i' = iRefundedAmount i"
  shows "in_order i'"
proof -
  have diff: "sint (iAmount i - iCapturedAmount i) = sint (iAmount i) - sint (iCapturedAmount i)"
    using i by (intro sint_diff_int64) (auto simp: in_order_def min_int64_def max_int64_def)
  have n: "0 < sint n" "sint n < 2 ^ 62"
    using i amt diff by (auto simp: captureAmount_def in_order_def split: option.splits if_splits)
  then have "sint (iCapturedAmount i + n) = sint (iCapturedAmount i) + sint n"
    using i by (intro sint_add_small) (auto simp: in_order_def)
  with i le n i' show ?thesis by (auto simp: in_order_def)
qed

lemma in_order_refund:
  assumes i: "in_order i" and amt: "refundAmount amt i = Inr n"
    and small: "\<forall>a. amt = Some a \<longrightarrow> sint a < 2 ^ 62"
    and le: "sint (iRefundedAmount i + n) \<le> sint (iCapturedAmount i)"
    and i': "iAmount i' = iAmount i" "iRefundedAmount i' = iRefundedAmount i + n"
      "iCapturedAmount i' = iCapturedAmount i"
  shows "in_order i'"
proof -
  have n: "0 \<le> sint n" "sint n < 2 ^ 62"
    using i amt small by (auto simp: refundAmount_def in_order_def split: option.splits if_splits)
  then have "sint (iRefundedAmount i + n) = sint (iRefundedAmount i) + sint n"
    using i by (intro sint_add_small) (auto simp: in_order_def)
  with i le n i' show ?thesis by (auto simp: in_order_def)
qed

lemma captureFn_in_order:
  assumes "rails_ok rg" shows "cb_in_order (captureFn e rg amt)"
  unfolding cb_in_order_def
  by (auto simp: captureFn_def captureDone_def cb_unfold not_less
        dest!: rail_adapter.pure_results(1) [OF rails_okD [OF assms]] split: cb_splits
        intro: in_order_capture)

lemma refundFn_in_order:
  assumes "rails_ok rg" and "\<forall>a. amt = Some a \<longrightarrow> sint a < 2 ^ 62"
  shows "cb_in_order (refundFn e rg amt)"
  unfolding cb_in_order_def using assms(2)
  by (auto simp: refundFn_def refundDone_def cb_unfold not_less
        dest!: rail_adapter.pure_results(2) [OF rails_okD [OF assms(1)]] split: cb_splits
        intro: in_order_refund)

lemma voidFn_in_order:
  assumes "rails_ok rg" shows "cb_in_order (voidFn e rg)"
  unfolding cb_in_order_def
  by (auto simp: voidFn_def cb_unfold
        dest!: rail_adapter.pure_results(3) [OF rails_okD [OF assms]] split: cb_splits
        intro: in_order_frame)

lemma threeDSFn_in_order:
  assumes "rails_ok rg" shows "cb_in_order (threeDSFn e window mpi rg res)"
  unfolding cb_in_order_def using threeDSFn_frame [OF assms] in_order_frame by blast

lemma webhookFns_in_order:
  "cb_in_order (settlementFn e rl wb)" "cb_in_order (chargebackOpenedFn e rl)"
  "cb_in_order (reversalFn e wb)" "cb_in_order (noteFn e rl wb)"
  unfolding cb_in_order_def
  by (auto simp: settlementFn_def chargebackOpenedFn_def reversalFn_def noteFn_def cb_unfold
      split: cb_splits intro: in_order_frame)

section \<open>The invariants of a service\<close>

text \<open>
  The status an intent has or is created with, and the log entries of one intent.
\<close>

definition status_at :: "(string \<rightharpoonup> intent) \<Rightarrow> string \<Rightarrow> status" where
  "status_at m k = (case m k of None \<Rightarrow> StatusIntent | Some i \<Rightarrow> iStatus i)"

abbreviation entries :: "string \<Rightarrow> audit_event list \<Rightarrow> audit_event list" where
  "entries k es \<equiv> filter (\<lambda>a. auIntentID a = k) es"

text \<open>
  Every stored intent is filed under its own id, the audit log holds for each of them a chain of
  legal moves from \<open>intent\<close> to its current status, and the log speaks of no other intent.
\<close>

definition audit_ok :: "(string \<rightharpoonup> intent) \<Rightarrow> audit_event list \<Rightarrow> bool" where
  "audit_ok m es \<longleftrightarrow>
     (\<forall>k i. m k = Some i \<longrightarrow> iID i = k \<and> chain StatusIntent (map edge (entries k es)) (iStatus i)) \<and>
     (\<forall>a \<in> set es. auIntentID a \<in> dom m \<and> legal (auFromState a) (auToState a))"

text \<open>
  The totals of every stored intent are the sums of its rows, and there are no rows of an
  intent that is not stored.
\<close>

definition totals_ok :: "rows \<Rightarrow> string \<Rightarrow> intent \<Rightarrow> bool" where
  "totals_ok rw k i \<longleftrightarrow>
     iCapturedAmount i = sumCaptures (rwCaptures rw k) \<and>
     iRefundedAmount i = sumRefunds (rwRefunds rw k) \<and>
     iSettledAmount i = sumSettlements (rwSettlements rw k)"

definition no_rows :: "rows \<Rightarrow> string \<Rightarrow> bool" where
  "no_rows rw k \<longleftrightarrow> rwCaptures rw k = [] \<and> rwRefunds rw k = [] \<and> rwSettlements rw k = []"

definition ledger_ok :: "(string \<rightharpoonup> intent) \<Rightarrow> rows \<Rightarrow> bool" where
  "ledger_ok m rw \<longleftrightarrow>
     (\<forall>k i. m k = Some i \<longrightarrow> totals_ok rw k i) \<and> (\<forall>k. m k = None \<longrightarrow> no_rows rw k)"

definition order_ok :: "(string \<rightharpoonup> intent) \<Rightarrow> bool" where
  "order_ok m \<longleftrightarrow> (\<forall>k i. m k = Some i \<longrightarrow> iID i = k \<and> in_order i)"

definition good :: "('s, fx) store_iface \<Rightarrow> 's core \<Rightarrow> bool" where
  "good I co \<longleftrightarrow>
     coStoreI co = I \<and> rails_ok (coRails co) \<and>
     (\<exists>es. coAudit co = Some (Recorder es) \<and> audit_ok (intents_of I (coStore co)) es) \<and>
     ledger_ok (intents_of I (coStore co)) (rows_of I (coStore co))"

text \<open>\<open>stored\<close> are the intents behind the store, whether or not a read succeeds.\<close>

definition orderly ::
  "('s, fx) store_iface \<Rightarrow> ('s \<Rightarrow> (string \<rightharpoonup> intent)) \<Rightarrow> 's core \<Rightarrow> bool" where
  "orderly I stored co \<longleftrightarrow>
     coStoreI co = I \<and> rails_full (coRails co) \<and> order_ok (stored (coStore co))"

subsection \<open>One intent changes\<close>

lemma entries_append_same [simp]: "\<forall>a \<in> set es'. auIntentID a = k \<Longrightarrow> entries k es' = es'"
  by (simp add: filter_id_conv)

lemma entries_append_other [simp]:
  "\<forall>a \<in> set es'. auIntentID a = k \<Longrightarrow> k' \<noteq> k \<Longrightarrow> entries k' es' = []"
  by (auto simp: filter_empty_conv)

lemma audit_ok_status:
  assumes "audit_ok m es"
  shows "chain StatusIntent (map edge (entries k es)) (status_at m k)"
proof (cases "m k")
  case None
  with assms have "entries k es = []" by (auto simp: audit_ok_def filter_empty_conv)
  with None show ?thesis by (simp add: status_at_def)
next
  case (Some i)
  with assms show ?thesis by (simp add: audit_ok_def status_at_def)
qed

lemma audit_ok_upd:
  assumes m: "audit_ok m es" and j: "iID j = k" "chain (status_at m k) (map edge es') (iStatus j)"
    and es': "\<forall>a \<in> set es'. entry_ok k a"
  shows "audit_ok (m(k \<mapsto> j)) (es @ es')"
proof -
  have "chain StatusIntent (map edge (entries k (es @ es'))) (iStatus j)"
    using audit_ok_status [OF m, of k] j(2) es' by auto
  moreover have "entries k' (es @ es') = entries k' es" if "k' \<noteq> k" for k'
    using that es' by simp
  ultimately show ?thesis
    using m j(1) es' by (auto simp: audit_ok_def)
qed

lemma order_ok_upd: "order_ok m \<Longrightarrow> iID j = k \<Longrightarrow> in_order j \<Longrightarrow> order_ok (m(k \<mapsto> j))"
  by (simp add: order_ok_def)

text \<open>Rows appended to the lists of one intent.\<close>

definition add_rows ::
  "string \<Rightarrow> capture list \<Rightarrow> refund list \<Rightarrow> settlement list \<Rightarrow> rows \<Rightarrow> rows" where
  "add_rows k cs rs ss rw =
     \<lparr>rwCaptures = (rwCaptures rw)(k := rwCaptures rw k @ cs),
      rwRefunds = (rwRefunds rw)(k := rwRefunds rw k @ rs),
      rwSettlements = (rwSettlements rw)(k := rwSettlements rw k @ ss)\<rparr>"

lemma add_rows_none [simp]: "add_rows k [] [] [] rw = rw"
  by (simp add: add_rows_def)

lemma add_rows_other [simp]:
  "k' \<noteq> k \<Longrightarrow> totals_ok (add_rows k cs rs ss rw) k' i = totals_ok rw k' i"
  "k' \<noteq> k \<Longrightarrow> no_rows (add_rows k cs rs ss rw) k' = no_rows rw k'"
  by (simp_all add: totals_ok_def no_rows_def add_rows_def)

lemma ledger_ok_upd:
  assumes m: "ledger_ok m rw" and k: "m k = Some i"
    and j: "iCapturedAmount j = iCapturedAmount i + sumCaptures cs"
      "iRefundedAmount j = iRefundedAmount i + sumRefunds rs"
      "iSettledAmount j = iSettledAmount i + sumSettlements ss"
  shows "ledger_ok (m(k \<mapsto> j)) (add_rows k cs rs ss rw)"
proof -
  have "totals_ok rw k i" using m k by (simp add: ledger_ok_def)
  with j have "totals_ok (add_rows k cs rs ss rw) k j" by (simp add: totals_ok_def add_rows_def)
  with m show ?thesis by (simp add: ledger_ok_def)
qed

lemma ledger_ok_new:
  assumes m: "ledger_ok m rw" and k: "m k = None"
    and j: "iCapturedAmount j = sumCaptures cs" "iRefundedAmount j = 0" "iSettledAmount j = 0"
  shows "ledger_ok (m(k \<mapsto> j)) (add_rows k cs [] [] rw)"
proof -
  have "no_rows rw k" using m k by (simp add: ledger_ok_def)
  with j have "totals_ok (add_rows k cs [] [] rw) k j"
    by (simp add: totals_ok_def no_rows_def add_rows_def)
  with m show ?thesis by (simp add: ledger_ok_def)
qed

subsection \<open>What a handler adds after its callback\<close>

definition commit :: "row_kind \<Rightarrow> fx \<Rightarrow> ('s, 'i) service \<Rightarrow> ('s, 'i) service" where
  "commit kd w svc =
     (case kd of
        NoRow \<Rightarrow> svc
      | CaptureRow \<Rightarrow> addCapture w svc
      | RefundRow \<Rightarrow> addRefund w svc
      | SettlementRow \<Rightarrow> addSettlement w svc)"

lemmas commit_defs = commit_def addCapture_def addRefund_def addSettlement_def

lemma put_fx_core [simp]:
  "core (put_fx w svc) = (core svc)\<lparr>coAudit := fxAudit w\<rparr>"
  "svStoreI (put_fx w svc) = svStoreI svc" "svStore (put_fx w svc) = svStore svc"
  "svRails (put_fx w svc) = svRails svc"
  by (simp_all add: core_def put_fx_def)

lemma fx_of_sel [simp]:
  "fxAudit (fx_of svc) = svAudit svc" "fxCapture (fx_of svc) = None"
  "fxRefund (fx_of svc) = None" "fxSettlement (fx_of svc) = None"
  by (simp_all add: fx_of_def)

lemma core_sel [simp]:
  "coStoreI (core svc) = svStoreI svc" "coStore (core svc) = svStore svc"
  "coRails (core svc) = svRails svc" "coAudit (core svc) = svAudit svc"
  "core (svc\<lparr>svStore := s\<rparr>) = (core svc)\<lparr>coStore := s\<rparr>"
  by (simp_all add: core_def)

text \<open>Operations that no observer of intents and rows can see keep the invariants.\<close>

lemma good_frame:
  "good I co \<Longrightarrow> coStoreI co' = coStoreI co \<Longrightarrow> coRails co' = coRails co \<Longrightarrow>
   coAudit co' = coAudit co \<Longrightarrow> intents_of I (coStore co') = intents_of I (coStore co) \<Longrightarrow>
   rows_of I (coStore co') = rows_of I (coStore co) \<Longrightarrow> good I co'"
  by (simp add: good_def)


lemma cb_auditedD:
  assumes "cb_audited fn" "fn i w = (r, i', w')" "fxAudit w = Some (Recorder es)"
  obtains es' where "iID i' = iID i" "fxAudit w' = Some (Recorder (es @ es'))"
    "\<forall>a \<in> set es'. entry_ok (iID i) a" "chain (iStatus i) (map edge es') (iStatus i')"
  using assms unfolding cb_audited_def by blast

lemma cb_in_orderD:
  "cb_in_order fn \<Longrightarrow> fn i w = (r, i', w') \<Longrightarrow> in_order i \<Longrightarrow> iID i' = iID i \<and> in_order i'"
  unfolding cb_in_order_def by blast

section \<open>Lifting a callback through the store\<close>

text \<open>The store of a service: its callbacks change the effects record \<open>fx\<close>.\<close>

locale service_store = intent_store I stored
  for I :: "('s, fx) store_iface" and stored
begin

text \<open>What a handler sees of \<open>UpdateIntent\<close>: an error, or a run of its callback.\<close>

lemma updateIntent_cases:
  assumes "svStoreI svc = I" and "updateIntent t iid fn svc = (r, w, svc1)"
  obtains (refused) e where "r = UpdErr e" "w = fx_of svc" "\<exists>s'. svc1 = put_fx w (svc\<lparr>svStore := s'\<rparr>) \<and>
      stored s' = stored (svStore svc)"
  | (ran) i r0 i' s' where "stored (svStore svc) iid = Some i" "fn i (fx_of svc) = (r0, i', w)"
      "r = UpdPanic \<Longrightarrow> r0 = FnPanic" "svc1 = put_fx w (svc\<lparr>svStore := s'\<rparr>)"
      "iID i = iid \<Longrightarrow> iID i' = iid \<Longrightarrow> stored s' = stored (svStore svc) \<or>
         (\<exists>j. same_intent i' j \<and> stored s' = (stored (svStore svc))(iid \<mapsto> j))"
proof -
  obtain s' where u: "st_UpdateIntent I t iid fn (svStore svc) (fx_of svc) = (r, s', w)"
    and svc1: "svc1 = put_fx w (svc\<lparr>svStore := s'\<rparr>)"
    using assms by (auto simp: updateIntent_def split: prod.splits)
  from update_stored [OF u] refused ran svc1 show thesis by blast
qed

lemma commit_orderly:
  assumes "orderly I stored (core svc)" shows "orderly I stored (core (commit kd w svc))"
proof -
  have "svStoreI svc = I" using assms by (simp add: orderly_def)
  with assms show ?thesis
    by (auto simp: commit_defs orderly_def split: row_kind.split option.split)
qed

lemma updateIntent_orderly:
  assumes o: "orderly I stored (core svc)" and fn: "cb_in_order fn"
    and u: "updateIntent t iid fn svc = (r, w, svc1)"
  shows "orderly I stored (core (commit kd w svc1))"
proof -
  have I: "svStoreI svc = I" and m: "order_ok (stored (svStore svc))"
    using o by (simp_all add: orderly_def)
  from I u have "orderly I stored (core svc1)"
  proof (cases rule: updateIntent_cases)
    case (refused e)
    with o show ?thesis by (auto simp: orderly_def)
  next
    case (ran i r0 i' s')
    from m ran(1) have i: "iID i = iid" "in_order i" by (auto simp: order_ok_def)
    with cb_in_orderD [OF fn ran(2)] have i': "iID i' = iid" "in_order i'" by auto
    have j: "order_ok ((stored (svStore svc))(iid \<mapsto> j))" if "same_intent i' j" for j
      using order_ok_upd [OF m, of j iid] in_order_frame [of i' j] same_intent_frame [OF that] i' by simp
    from ran(5) [OF i(1) i'(1)] o m I j ran(4) show ?thesis by (auto simp: orderly_def)
  qed
  then show ?thesis by (rule commit_orderly)
qed

lemma updateIntent_no_panic:
  assumes "svStoreI svc = I" "\<And>i w. fst (fn i w) \<noteq> FnPanic"
    "updateIntent t iid fn svc = (r, w, svc1)"
  shows "r \<noteq> UpdPanic"
  using assms(1,3)
proof (cases rule: updateIntent_cases)
  case (ran i r0 i' s')
  with assms(2) [of i "fx_of svc"] show ?thesis by auto
qed simp

end

text \<open>
  A store that mutates in place: on every path, errors included, the audit log and the rows
  follow the stored intent.
\<close>

locale ledger_store = row_store I
  for I :: "('s, fx) store_iface"

sublocale ledger_store \<subseteq> service_store I "intents_of I"
  by unfold_locales

lemma cb_balancedD:
  assumes "cb_balanced kd fn" "fn i w = (r, i', w')"
    "fxCapture w = None" "fxRefund w = None" "fxSettlement w = None"
  shows "iCapturedAmount i' = iCapturedAmount i + sumCaptures (opt_list (fxCapture w'))"
    "iRefundedAmount i' = iRefundedAmount i + sumRefunds (opt_list (fxRefund w'))"
    "iSettledAmount i' = iSettledAmount i + sumSettlements (opt_list (fxSettlement w'))"
    "fxCapture w' = Some c \<Longrightarrow> caIntentID c = iID i \<and> kd = CaptureRow \<and> r \<noteq> FnPanic"
    "fxRefund w' = Some x \<Longrightarrow> reIntentID x = iID i \<and> kd = RefundRow \<and> r \<noteq> FnPanic"
    "fxSettlement w' = Some y \<Longrightarrow> seIntentID y = iID i \<and> kd = SettlementRow \<and> r \<noteq> FnPanic"
  using assms unfolding cb_balanced_def by blast+

context ledger_store
begin

lemma updateIntent_missing:
  assumes "svStoreI svc = I" and "intents_of I (svStore svc) iid = None"
  shows "updateIntent t iid fn svc = (UpdErr ErrNotFound, fx_of svc, svc)"
proof -
  have "put_fx (fx_of svc) svc = svc" by (simp add: put_fx_def fx_of_def)
  with assms update_missing [of "svStore svc" iid t fn "fx_of svc"] show ?thesis
    by (simp add: updateIntent_def)
qed

lemma updateIntent_found:
  assumes "svStoreI svc = I" and "intents_of I (svStore svc) iid = Some i"
  obtains r i' w' s' where "fn i (fx_of svc) = (r, i', w')"
    "updateIntent t iid fn svc = (updres_of r i', w', put_fx w' (svc\<lparr>svStore := s'\<rparr>))"
    "intents_of I s' = (intents_of I (svStore svc))(iid \<mapsto> i')"
    "rows_of I s' = rows_of I (svStore svc)"
proof -
  obtain r i' w' where f: "fn i (fx_of svc) = (r, i', w')" by (cases "fn i (fx_of svc)")
  from update_found [of "svStore svc" iid i fn "fx_of svc" r i' w' t] f assms that show thesis
    by (auto simp: updateIntent_def)
qed

lemma commit_rows:
  assumes "svStoreI svc = I"
    and "\<forall>c. fxCapture w = Some c \<longrightarrow> caIntentID c = k \<and> kd = CaptureRow"
    and "\<forall>x. fxRefund w = Some x \<longrightarrow> reIntentID x = k \<and> kd = RefundRow"
    and "\<forall>x. fxSettlement w = Some x \<longrightarrow> seIntentID x = k \<and> kd = SettlementRow"
  shows "rows_of I (svStore (commit kd w svc)) =
      add_rows k (opt_list (fxCapture w)) (opt_list (fxRefund w)) (opt_list (fxSettlement w))
        (rows_of I (svStore svc))"
  using assms
  by (cases kd; cases "fxCapture w"; cases "fxRefund w"; cases "fxSettlement w")
     (simp_all add: commit_defs add_rows_def rows_AddCapture rows_AddRefund rows_AddSettlement)

lemma commit_core:
  assumes "svStoreI svc = I"
  shows "svStoreI (commit kd w svc) = I" "svRails (commit kd w svc) = svRails svc"
    "svAudit (commit kd w svc) = svAudit svc"
    "intents_of I (svStore (commit kd w svc)) = intents_of I (svStore svc)"
  using assms by (simp_all add: commit_defs split: row_kind.split option.split)

lemma updateIntent_good:
  assumes g: "good I (core svc)" and fn: "cb_audited fn" "cb_balanced kd fn"
    and u: "updateIntent t iid fn svc = (r, w, svc1)"
  shows "good I (core (commit kd w svc1))"
proof -
  obtain es where I: "svStoreI svc = I" and es: "svAudit svc = Some (Recorder es)"
    and a: "audit_ok (intents_of I (svStore svc)) es"
    and l: "ledger_ok (intents_of I (svStore svc)) (rows_of I (svStore svc))"
    and rg: "rails_ok (svRails svc)"
    using g by (auto simp: good_def)
  show ?thesis
  proof (cases "intents_of I (svStore svc) iid")
    case None
    with updateIntent_missing [OF I None, of t fn] u
    have "svc1 = svc" "w = fx_of svc" by auto
    moreover have "commit kd (fx_of svc) svc = svc"
      by (simp add: commit_defs split: row_kind.split)
    ultimately show ?thesis using g by simp
  next
    case (Some i)
    then obtain r0 i' s' where f: "fn i (fx_of svc) = (r0, i', w)"
      and svc1: "svc1 = put_fx w (svc\<lparr>svStore := s'\<rparr>)"
      and s': "intents_of I s' = (intents_of I (svStore svc))(iid \<mapsto> i')"
        "rows_of I s' = rows_of I (svStore svc)"
      using updateIntent_found [OF I Some, of fn t thesis] u by auto
    from a Some have iid: "iID i = iid" by (simp add: audit_ok_def)
    note bal = cb_balancedD [OF fn(2) f, simplified iid, simplified]
    obtain es' where es': "iID i' = iid" "fxAudit w = Some (Recorder (es @ es'))"
      "\<forall>a \<in> set es'. entry_ok iid a" "chain (iStatus i) (map edge es') (iStatus i')"
      using cb_auditedD [OF fn(1) f, of es] es iid by auto
    have "audit_ok (intents_of I s') (es @ es')"
      using audit_ok_upd [OF a, of i' iid es'] es' Some by (simp add: s' status_at_def)
    moreover have "ledger_ok (intents_of I s')
        (add_rows iid (opt_list (fxCapture w)) (opt_list (fxRefund w))
          (opt_list (fxSettlement w)) (rows_of I s'))"
      using ledger_ok_upd [OF l Some] bal(1-3) by (simp add: s')
    moreover have "svStoreI svc1 = I" using I svc1 by simp
    moreover have "rows_of I (svStore (commit kd w svc1)) =
      add_rows iid (opt_list (fxCapture w)) (opt_list (fxRefund w)) (opt_list (fxSettlement w))
        (rows_of I s')"
      using commit_rows [of svc1 w iid kd] bal(4-6) I svc1 by simp
    ultimately show ?thesis
      using commit_core [of svc1 kd w] rg svc1 es'(2) I by (simp add: good_def put_fx_def)
  qed
qed

lemma updateIntent_panic:
  assumes I: "svStoreI svc = I" and fn: "cb_balanced kd fn"
    and u: "updateIntent t iid fn svc = (UpdPanic, w, svc1)"
  shows "commit kd w svc1 = svc1"
proof (cases "intents_of I (svStore svc) iid")
  case None
  with updateIntent_missing [OF I None, of t fn] u show ?thesis by simp
next
  case (Some i)
  then obtain r0 i' where f: "fn i (fx_of svc) = (r0, i', w)" and "updres_of r0 i' = UpdPanic"
    using updateIntent_found [OF I Some, of fn t thesis] u by auto
  then have "r0 = FnPanic" by (cases r0) (simp_all add: updres_of_def)
  with cb_balancedD(4-6) [OF fn f]
  have "fxCapture w = None" "fxRefund w = None" "fxSettlement w = None"
    by (metis not_Some_eq fx_of_sel(2-4))+
  then show ?thesis by (simp add: commit_defs split: row_kind.split)
qed

end

section \<open>Creating an intent\<close>

text \<open>
  The effect of a creation that stores an intent: the intent \<open>j\<close> is added with the capture
  rows \<open>cs\<close>, and the log grows by the entries \<open>es'\<close>, which lead from \<open>intent\<close> to the status
  of \<open>j\<close>.
\<close>

definition fresh_intent :: "env \<Rightarrow> createIntentReq \<Rightarrow> intent \<Rightarrow> bool" where
  "fresh_intent e req i \<longleftrightarrow>
     iID i = envUUID e 0 \<and> iStatus i = StatusIntent \<and> iAmount i = ciAmount req \<and>
     iCapturedAmount i = 0 \<and> iRefundedAmount i = 0 \<and> iSettledAmount i = 0"

definition created ::
  "env \<Rightarrow> createIntentReq \<Rightarrow> ('s, 'i) service \<Rightarrow> intent \<Rightarrow> capture list \<Rightarrow> audit_event list
     \<Rightarrow> ('s, 'i) service \<Rightarrow> bool" where
  "created e req svc j cs es' svc' \<longleftrightarrow>
     svStoreI svc' = svStoreI svc \<and> svRails svc' = svRails svc \<and>
     iID j = envUUID e 0 \<and> iAmount j = ciAmount req \<and>
     iRefundedAmount j = 0 \<and> iSettledAmount j = 0 \<and>
     iCapturedAmount j = sumCaptures cs \<and> (\<forall>c \<in> set cs. caIntentID c = iID j) \<and>
     svStore svc' =
       fold (st_AddCapture (svStoreI svc)) cs (st_CreateIntent (svStoreI svc) j (svStore svc)) \<and>
     (\<forall>es. svAudit svc = Some (Recorder es) \<longrightarrow> svAudit svc' = Some (Recorder (es @ es'))) \<and>
     (\<forall>a \<in> set es'. entry_ok (iID j) a) \<and> chain StatusIntent (map edge es') (iStatus j) \<and>
     (cs = [] \<or> (\<exists>a i i1. Registry_For (svRails svc) (ciRail req) = Some a \<and>
        ad_Submit a i = (None, i1) \<and> iAmount i = iAmount j \<and> iCapturedAmount j = iCapturedAmount i1))"

definition creates :: "env \<Rightarrow> createIntentReq \<Rightarrow> ('s, 'i) service \<Rightarrow> ('s, 'i) service \<Rightarrow> bool" where
  "creates e req svc svc' \<longleftrightarrow> (\<exists>j cs es'. created e req svc j cs es' svc')"

lemma createsI: "created e req svc j cs es' svc' \<Longrightarrow> creates e req svc svc'"
  by (auto simp: creates_def)

lemma emitTransition_sel [simp]:
  "svStoreI (emitTransition t t' i from to d svc) = svStoreI svc"
  "svStore (emitTransition t t' i from to d svc) = svStore svc"
  "svRails (emitTransition t t' i from to d svc) = svRails svc"
  "svAudit svc = Some (Recorder es) \<Longrightarrow>
   svAudit (emitTransition t t' i from to d svc) =
     Some (Recorder (es @ [stamp_event t' \<lparr>auIntentID = iID i, auFromState = from, auToState = to,
                             auDetail = d, auAt = t\<rparr>]))"
  by (simp_all add: emitTransition_def put_fx_def)

lemma createFailed_created:
  assumes "fresh_intent e req i"
  shows "creates e req svc (snd (createFailed e d ed st msg i svc))"
  using assms
  by (intro createsI [where j = "snd (transAt e 5 StatusFailed d i)" and cs = "[]" and
        es' = "[stamp_event (envNow e 8) \<lparr>auIntentID = envUUID e 0, auFromState = StatusIntent,
           auToState = StatusFailed, auDetail = ed, auAt = envNow e 7\<rparr>]"])
     (simp add: created_def fresh_intent_def createFailed_def cb_unfold)

lemma create3DS_created:
  assumes "fresh_intent e req i"
  shows "creates e req svc (snd (create3DS e i svc))"
  using assms
  by (intro createsI [where j = "snd (transAt e 5 Status3DSPending ''3ds challenge required'' i)" and cs = "[]" and
        es' = "[stamp_event (envNow e 8) \<lparr>auIntentID = envUUID e 0, auFromState = StatusIntent,
           auToState = Status3DSPending, auDetail = ''3ds required'', auAt = envNow e 7\<rparr>]"])
     (simp add: created_def fresh_intent_def create3DS_def cb_unfold)

lemma createAuthorize_created:
  assumes a: "rail_adapter a" and i: "fresh_intent e req i"
  shows "creates e req svc (snd (createAuthorize e (Some a) i svc))"
proof (cases "ad_Authorize a i")
  case (Pair res i1)
  show ?thesis
  proof (cases res)
    case (Some err)
    with Pair rail_adapter.authorize_err [OF a] have "i1 = i" by blast
    with Pair Some createFailed_created [OF i] show ?thesis by (simp add: createAuthorize_def)
  next
    case None
    with Pair rail_adapter.authorize_ok [OF a] obtain x where "i1 = i\<lparr>iExternalID := x\<rparr>" by blast
    with Pair None i show ?thesis
      by (intro createsI [where j = "snd (transAt e 5 StatusAuthorized ''authorized by rail'' i1)" and cs = "[]" and
        es' = "[stamp_event (envNow e 8) \<lparr>auIntentID = envUUID e 0, auFromState = StatusIntent,
           auToState = StatusAuthorized, auDetail = ''authorized'', auAt = envNow e 7\<rparr>]"])
       (simp add: created_def fresh_intent_def createAuthorize_def cb_unfold)
  qed
qed

lemma createInstant_created:
  assumes rg: "Registry_For (svRails svc) (ciRail req) = Some a"
    and a: "rail_adapter a" and i: "fresh_intent e req i"
  shows "creates e req svc (snd (createInstant e (Some a) i svc))"
proof (cases "ad_Submit a i")
  case (Pair res i1)
  show ?thesis
  proof (cases res)
    case (Some err)
    with Pair rail_adapter.submit_err [OF a] have "i1 = i" by blast
    with Pair Some createFailed_created [OF i] show ?thesis
      by (simp add: createInstant_def)
  next
    case None
    with Pair rail_adapter.submit_ok [OF a] obtain x c where
      i1: "i1 = i\<lparr>iExternalID := x, iCapturedAmount := c\<rparr>" by blast
    define i2 where "i2 = snd (transAt e 5 StatusAuthorized ''instant rail authorized via submit'' i1)"
    define i3 where "i3 = snd (transAt e 9 StatusCaptured ''instant rail captured via submit'' i2)"
    define cap where "cap = \<lparr>caID = envUUID e 1, caIntentID = iID i3, caAmount = iCapturedAmount i3,
        caExternalRef = iExternalID i3, caCapturedAt = envNow e 11\<rparr>"
    have i2: "transAt e 5 StatusAuthorized ''instant rail authorized via submit'' i1 = (None, i2)"
        "iStatus i2 = StatusAuthorized" "iID i2 = envUUID e 0"
      using i i1 by (simp_all add: i2_def cb_unfold fresh_intent_def)
    have i3: "transAt e 9 StatusCaptured ''instant rail captured via submit'' i2 = (None, i3)"
        "iStatus i3 = StatusCaptured" "iID i3 = envUUID e 0" "iAmount i3 = ciAmount req"
        "iCapturedAmount i3 = c" "iRefundedAmount i3 = 0" "iSettledAmount i3 = 0"
      using i i1 i2 by (simp_all add: i2_def i3_def cb_unfold fresh_intent_def)
    have "iAmount i = iAmount i3" "iCapturedAmount i3 = iCapturedAmount i1"
      using i i1 i3 by (simp_all add: fresh_intent_def)
    then have "\<exists>a i i1. Registry_For (svRails svc) (ciRail req) = Some a \<and>
        ad_Submit a i = (None, i1) \<and> iAmount i = iAmount i3 \<and> iCapturedAmount i3 = iCapturedAmount i1"
      using rg Pair None by blast
    with Pair None i2 i3 show ?thesis
      by (intro createsI [where j = i3 and cs = "[cap]" and
        es' = "[stamp_event (envNow e 8) \<lparr>auIntentID = envUUID e 0, auFromState = StatusIntent,
           auToState = StatusAuthorized, auDetail = ''instant authorize'', auAt = envNow e 7\<rparr>,
           stamp_event (envNow e 13) \<lparr>auIntentID = envUUID e 0, auFromState = StatusAuthorized,
           auToState = StatusCaptured, auDetail = ''instant submit'', auAt = envNow e 12\<rparr>]"])
       (simp add: created_def createInstant_def cap_def)
  qed
qed

lemma createHandle_created:
  assumes rg: "rails_ok (svRails svc)"
  shows "core (snd (createHandle e key req svc)) = core svc \<or>
    creates e req svc (snd (createHandle e key req svc))"
proof -
  have i: "fresh_intent e req (newIntent e key req)" by (simp add: fresh_intent_def newIntent_def)
  note paths = createFailed_created [OF i] create3DS_created [OF i]
  show ?thesis
  proof (cases "Registry_For (svRails svc) (ciRail req)")
    case None
    then show ?thesis
      by (simp add: createHandle_def Let_def createInstant_def createAuthorize_def paths
          split: sum.split)
  next
    case (Some a)
    then have a: "rail_adapter a" by (rule rails_okD [OF rg])
    show ?thesis
      using createInstant_created [OF Some a i] Some
      by (simp add: createHandle_def Let_def paths createAuthorize_created [OF a i]
          split: sum.split)
  qed
qed

context service_store
begin

lemma fold_AddCapture_stored [simp]: "stored (fold (st_AddCapture I) cs s) = stored s"
  by (induction cs arbitrary: s) simp_all

lemma creates_orderly:
  assumes o: "orderly I stored (core svc)" and c: "creates e req svc svc'"
    and amount: "0 < sint (ciAmount req)" "sint (ciAmount req) < 2 ^ 62"
  shows "orderly I stored (core svc')"
proof -
  obtain j cs es' where c': "created e req svc j cs es' svc'" using c by (auto simp: creates_def)
  have I: "svStoreI svc = I" and rg: "rails_full (svRails svc)"
    and m: "order_ok (stored (svStore svc))" using o by (simp_all add: orderly_def)
  have "iCapturedAmount j = 0 \<or> iCapturedAmount j = iAmount j"
    using c' rg full_submit_adapter.submit_full [OF rails_fullD [OF rg]]
    unfolding created_def by (metis list.map(1) sum_list.Nil)
  with c' amount have j: "iID j = envUUID e 0" "in_order j"
    by (auto simp: created_def in_order_def)
  have k: "order_ok ((stored (svStore svc))(iID j \<mapsto> j'))" if "same_intent j j'" for j'
    using order_ok_upd [OF m, of j' "iID j"] in_order_frame [of j j'] same_intent_frame [OF that] j by simp
  have "stored (svStore svc') = stored (st_CreateIntent I j (svStore svc))"
    using c' I by (simp add: created_def)
  with create_stored [of j "svStore svc"] k m have "order_ok (stored (svStore svc'))" by auto
  with o c' show ?thesis by (simp add: orderly_def created_def)
qed

end

context ledger_store
begin

lemma fold_AddCapture_rows:
  "\<forall>c \<in> set cs. caIntentID c = k \<Longrightarrow>
   rows_of I (fold (st_AddCapture I) cs s) = add_rows k cs [] [] (rows_of I s)"
  by (induction cs arbitrary: s) (simp_all add: rows_AddCapture add_rows_def)

lemma creates_good:
  assumes g: "good I (core svc)" and c: "creates e req svc svc'"
    and fresh: "intents_of I (svStore svc) (envUUID e 0) = None"
  shows "good I (core svc')"
proof -
  obtain es where I: "svStoreI svc = I" and es: "svAudit svc = Some (Recorder es)"
    and a: "audit_ok (intents_of I (svStore svc)) es"
    and l: "ledger_ok (intents_of I (svStore svc)) (rows_of I (svStore svc))"
    and rg: "rails_ok (svRails svc)"
    using g by (auto simp: good_def)
  obtain j cs es' where c': "created e req svc j cs es' svc'" using c by (auto simp: creates_def)
  then have j: "iID j = envUUID e 0" "\<forall>c \<in> set cs. caIntentID c = envUUID e 0"
    "\<forall>a \<in> set es'. entry_ok (envUUID e 0) a" "chain StatusIntent (map edge es') (iStatus j)"
    by (auto simp: created_def)
  have m: "intents_of I (svStore svc') = (intents_of I (svStore svc))(envUUID e 0 \<mapsto> j)"
    using c' fresh I j by (simp add: created_def intents_create)
  have rw: "rows_of I (svStore svc') = add_rows (envUUID e 0) cs [] [] (rows_of I (svStore svc))"
    using c' I fold_AddCapture_rows [OF j(2)] by (simp add: created_def)
  have "audit_ok (intents_of I (svStore svc')) (es @ es')"
    unfolding m using audit_ok_upd [OF a j(1) _ j(3)] j(4) fresh by (simp add: status_at_def)
  moreover have "ledger_ok (intents_of I (svStore svc')) (rows_of I (svStore svc'))"
    unfolding m rw using ledger_ok_new [OF l fresh, of j cs] c' by (simp add: created_def)
  ultimately show ?thesis using c' I es rg by (simp add: good_def created_def)
qed

lemma handle_good:
  assumes g: "good I (core svc)" and fn: "cb_audited fn" "cb_balanced kd fn"
    and h: "\<And>r w svc1. updateIntent t iid fn svc = (r, w, svc1) \<Longrightarrow>
      svc' = (if r = UpdPanic then svc1 else commit kd w svc1)"
  shows "good I (core svc')"
proof -
  obtain r w svc1 where u: "updateIntent t iid fn svc = (r, w, svc1)"
    by (cases "updateIntent t iid fn svc")
  have "svStoreI svc = I" using g by (simp add: good_def)
  with updateIntent_panic [OF _ fn(2)] u have "r = UpdPanic \<Longrightarrow> commit kd w svc1 = svc1" by blast
  with h [OF u] updateIntent_good [OF g fn u] show ?thesis by (cases "r = UpdPanic") simp_all
qed

end

context service_store
begin

lemma handle_orderly:
  assumes o: "orderly I stored (core svc)" and fn: "cb_in_order fn"
    and h: "\<And>r w svc1. updateIntent t iid fn svc = (r, w, svc1) \<Longrightarrow>
      svc' = (if r = UpdPanic then svc1 else commit kd w svc1)"
  shows "orderly I stored (core svc')"
proof -
  obtain r w svc1 where u: "updateIntent t iid fn svc = (r, w, svc1)"
    by (cases "updateIntent t iid fn svc")
  with h [OF u] updateIntent_orderly [OF o fn u, of kd] updateIntent_orderly [OF o fn u, of NoRow]
  show ?thesis by (simp add: commit_def)
qed

end

section \<open>The handlers, endpoint by endpoint\<close>

lemma captureHandle_commit:
  assumes "updateIntent (envNow e 9) iid (captureFn e (svRails svc) amt) svc = (r, w, svc1)"
  shows "snd (captureHandle e amt iid svc) = (if r = UpdPanic then svc1 else commit CaptureRow w svc1)"
  using assms by (simp add: captureHandle_def commit_def split: updres.split)

lemma voidHandle_commit:
  assumes "updateIntent (envNow e 9) iid (voidFn e (svRails svc)) svc = (r, w, svc1)"
  shows "snd (voidHandle e iid svc) = (if r = UpdPanic then svc1 else commit NoRow w svc1)"
  using assms by (simp add: voidHandle_def commit_def split: updres.split)

lemma refundHandle_commit:
  assumes "updateIntent (envNow e 11) iid (refundFn e (svRails svc) amt) svc = (r, w, svc1)"
  shows "snd (refundHandle e amt iid svc) = (if r = UpdPanic then svc1 else commit RefundRow w svc1)"
  using assms by (simp add: refundHandle_def commit_def split: updres.split)

lemma threeDSHandle_commit:
  assumes "updateIntent (envNow e 9) iid
    (threeDSFn e (svReplayWindow svc) (svMPI svc) (svRails svc) res) svc = (r, w, svc1)"
  shows "snd (threeDSHandle e res iid svc) = (if r = UpdPanic then svc1 else commit NoRow w svc1)"
  using assms by (simp add: threeDSHandle_def commit_def split: updres.split)

lemma handleSettlementWebhook_commit:
  assumes "updateIntent (envNow e 13) (wbPaymentID wb) (settlementFn e rl wb) svc = (r, w, svc1)"
  shows "snd (handleSettlementWebhook e rl wb svc) = commit SettlementRow w svc1"
  using assms by (simp add: handleSettlementWebhook_def commit_def)

lemma webhook_no_panic:
  "fst (settlementFn e rl wb i w) \<noteq> FnPanic" "fst (chargebackOpenedFn e rl i w) \<noteq> FnPanic"
  "fst (reversalFn e wb i w) \<noteq> FnPanic" "fst (noteFn e rl wb i w) \<noteq> FnPanic"
  by (auto simp: settlementFn_def chargebackOpenedFn_def reversalFn_def noteFn_def Let_def
      split: prod.split option.split)

end
