(* ===== verification/System.thy ===== *)
theory System
  imports Invariants
begin

text \<open>
  The running service: the routed requests of \<open>NewMux\<close>, the states a sequence of them can
  reach, and the locale that lifts an invariant of callbacks to every reachable state. Requests
  are served one after the other here; the theory \<open>Concurrent\<close> lets them interleave.
\<close>

section \<open>Requests\<close>

text \<open>
  One constructor per route. A decoded body is \<open>None\<close> or \<open>BadJSON\<close> when the decoder fails.
\<close>

datatype request =
    GetHealthz
  | GetReadyz
  | PostIntents string "createIntentReq option"
  | GetPayments string string
  | GetPayment string
  | PostCapture string string "int64 option body_in"
  | PostVoid string string
  | PostRefund string string "int64 option body_in"
  | Post3DSChallenge string string "string option"
  | PostWebhook string "bytes option" string

fun serve ::
  "env \<Rightarrow> (bytes \<Rightarrow> webhookBody) \<Rightarrow> request \<Rightarrow> ('s, 'i) service
     \<Rightarrow> response option \<times> ('s, 'i) service" where
  "serve e decode GetHealthz svc = (Some Healthz, svc)"
| "serve e decode GetReadyz svc = (Some (Readyz svc), svc)"
| "serve e decode (PostIntents key body) svc = CreateIntent e key body svc"
| "serve e decode (GetPayments status rail) svc = (Some (ListPayments e status rail svc), svc)"
| "serve e decode (GetPayment iid) svc = (Some (GetIntent iid svc), svc)"
| "serve e decode (PostCapture iid key body) svc = Capture e iid key body svc"
| "serve e decode (PostVoid iid key) svc = Void e iid key svc"
| "serve e decode (PostRefund iid key body) svc = Refund e iid key body svc"
| "serve e decode (Post3DSChallenge iid key body) svc = ThreeDSChallenge e iid key body svc"
| "serve e decode (PostWebhook rail body sig) svc = map_prod Some id (Webhook e decode rail body sig svc)"

text \<open>
  A request may run when the UUID it draws for a new intent names no stored intent, and when it
  satisfies the side condition \<open>ok\<close> of the run.
\<close>

definition fresh_uuid :: "env \<Rightarrow> ('s, 'i) service \<Rightarrow> bool" where
  "fresh_uuid e svc \<longleftrightarrow> intents_of (svStoreI svc) (svStore svc) (envUUID e 0) = None"

inductive reach ::
  "(bytes \<Rightarrow> webhookBody) \<Rightarrow> (request \<Rightarrow> bool) \<Rightarrow> ('s, 'i) service \<Rightarrow> ('s, 'i) service \<Rightarrow> bool"
  for decode ok svc0 where
  reach_init: "reach decode ok svc0 svc0"
| reach_step: "reach decode ok svc0 svc \<Longrightarrow> ok req \<Longrightarrow> fresh_uuid e svc \<Longrightarrow>
    reach decode ok svc0 (snd (serve e decode req svc))"

inductive_cases reach_stepE: "reach decode ok svc0 svc"

text \<open>Amounts of a request below \<open>2^62\<close>, where the int64 sums of the code are exact.\<close>

fun small_request :: "request \<Rightarrow> bool" where
  "small_request (PostIntents key (Some req)) \<longleftrightarrow> sint (ciAmount req) < 2 ^ 62"
| "small_request (PostRefund iid key (JSONBody (Some a))) \<longleftrightarrow> sint a < 2 ^ 62"
| "small_request _ \<longleftrightarrow> True"

section \<open>Lifting an invariant of callbacks to the service\<close>

text \<open>
  \<open>P\<close> is an invariant of the core of the service that sees of the store its \<open>view\<close> only,
  \<open>cb_ok kd fn\<close> says that a callback and the row it leaves respect it, \<open>small\<close> bounds the
  amounts a request may carry.
\<close>

locale service_inv = service_store I stored
  for I :: "('s, fx) store_iface" and stored +
  fixes view :: "'s \<Rightarrow> 'v"
    and P :: "'s core \<Rightarrow> bool"
    and cb_ok :: "row_kind \<Rightarrow> fx callback \<Rightarrow> bool"
    and small :: "int64 \<Rightarrow> bool"
  assumes view_AddChargeback: "view (st_AddChargeback I cb s) = view s"
    and view_UpdateChargeback: "view (snd (st_UpdateChargeback I t ord ref cfn s)) = view s"
    and view_RecordWebhook: "view (snd (st_RecordWebhook I wh s)) = view s"
    and view_MarkWebhookProcessed: "view (st_MarkWebhookProcessed I t rail ev s) = view s"
    and P_store: "P co \<Longrightarrow> coStoreI co = I"
    and P_frame: "P co \<Longrightarrow> view s = view (coStore co) \<Longrightarrow> P (co\<lparr>coStore := s\<rparr>)"
    and P_update: "P (core (svc :: ('s, 'i) service)) \<Longrightarrow> cb_ok kd fn \<Longrightarrow>
      updateIntent t iid fn svc = (r, w, svc1) \<Longrightarrow>
      P (core (if r = UpdPanic then svc1 else commit kd w svc1))"
    and P_create: "P (core (svc :: ('s, 'i) service)) \<Longrightarrow> creates e req svc svc' \<Longrightarrow>
      intents_of I (svStore svc) (envUUID e 0) = None \<Longrightarrow> 0 < sint (ciAmount req) \<Longrightarrow>
      small (ciAmount req) \<Longrightarrow> P (core svc')"
    and P_rails: "P co \<Longrightarrow> rails_ok (coRails co)"
    and cb_capture: "P co \<Longrightarrow> cb_ok CaptureRow (captureFn e (coRails co) amt)"
    and cb_void: "P co \<Longrightarrow> cb_ok NoRow (voidFn e (coRails co))"
    and cb_refund: "P co \<Longrightarrow> (\<forall>a. amt = Some a \<longrightarrow> small a) \<Longrightarrow>
      cb_ok RefundRow (refundFn e (coRails co) amt)"
    and cb_threeDS: "P co \<Longrightarrow> cb_ok NoRow (threeDSFn e window mpi (coRails co) res)"
    and cb_settlement: "cb_ok SettlementRow (settlementFn e rl wb)"
    and cb_chargeback: "cb_ok NoRow (chargebackOpenedFn e rl)"
    and cb_reversal: "cb_ok NoRow (reversalFn e wb)"
    and cb_note: "cb_ok NoRow (noteFn e rl wb)"
begin

lemmas view_frame [simp] =
  view_AddChargeback view_UpdateChargeback view_RecordWebhook view_MarkWebhookProcessed

lemma handle_preserves:
  assumes "P (core (svc :: ('s, 'i) service))" "cb_ok kd fn"
    and h: "\<And>r w svc1. updateIntent t iid fn svc = (r, w, svc1) \<Longrightarrow>
      svc' = (if r = UpdPanic then svc1 else commit kd w svc1)"
  shows "P (core svc')"
proof (cases "updateIntent t iid fn svc")
  case (fields r w svc1)
  from P_update [OF assms(1,2) this] h [OF this] show ?thesis by simp
qed

lemma captureHandle_preserves:
  "P (core (svc :: ('s, 'i) service)) \<Longrightarrow> P (core (snd (captureHandle e amt iid svc)))"
  using cb_capture [of "core svc"] by (auto intro: handle_preserves captureHandle_commit)

lemma voidHandle_preserves:
  "P (core (svc :: ('s, 'i) service)) \<Longrightarrow> P (core (snd (voidHandle e iid svc)))"
  using cb_void [of "core svc"] by (auto intro: handle_preserves voidHandle_commit)

lemma refundHandle_preserves:
  "P (core (svc :: ('s, 'i) service)) \<Longrightarrow> \<forall>a. amt = Some a \<longrightarrow> small a \<Longrightarrow>
   P (core (snd (refundHandle e amt iid svc)))"
  using cb_refund [of "core svc" amt] by (auto intro: handle_preserves refundHandle_commit)

lemma threeDSHandle_preserves:
  "P (core (svc :: ('s, 'i) service)) \<Longrightarrow> P (core (snd (threeDSHandle e res iid svc)))"
  using cb_threeDS [of "core svc"] by (intro handle_preserves [OF _ _ threeDSHandle_commit]) auto

lemma CreateIntent_preserves:
  assumes P: "P (core (svc :: ('s, 'i) service))" and fresh: "fresh_uuid e svc"
    and small: "\<forall>req. body = Some req \<longrightarrow> small (ciAmount req)"
  shows "P (core (snd (CreateIntent e key body svc)))"
proof (cases "\<exists>req. key \<noteq> '''' \<and> body = Some req \<and> createInvalid req = None")
  case False
  with P show ?thesis by (auto simp: CreateIntent_def split: option.split)
next
  case True
  then obtain req where req: "key \<noteq> ''''" "body = Some req" "createInvalid req = None" by blast
  have amt: "0 < sint (ciAmount req)" "small (ciAmount req)"
    using req small by (auto simp: createInvalid_def split: if_splits)
  obtain svc1 :: "('s, 'i) service" where c: "core svc1 = core svc" and
    "core (snd (replayOrContinue e ''create'' key (createHandle e key req) svc))
       \<in> {core svc, core (snd (createHandle e key req svc1))}"
    using replayOrContinue_core by blast
  moreover have "P (core svc1)" using P c by simp
  moreover have "svStore svc1 = svStore svc" using c core_sel(2) by metis
  then have "intents_of I (svStore svc1) (envUUID e 0) = None"
    using fresh P_store [OF P] by (simp add: fresh_uuid_def)
  with \<open>P (core svc1)\<close> have "P (core (snd (createHandle e key req svc1)))"
    using createHandle_created [of svc1 e key req] P_rails [of "core svc1"]
      P_create [of svc1 e req] amt by auto
  ultimately have "P (core (snd (replayOrContinue e ''create'' key (createHandle e key req) svc)))"
    using P by auto
  with req show ?thesis
    by (cases "replayOrContinue e ''create'' key (createHandle e key req) svc")
       (auto simp: CreateIntent_def split: option.split)
qed

text \<open>Webhooks: the callbacks never panic, and the other store calls leave the view alone.\<close>

lemma webhook_update_preserves:
  assumes "P (core (svc :: ('s, 'i) service))" "cb_ok kd fn" "\<And>i w. fst (fn i w) \<noteq> FnPanic"
    "updateIntent t iid fn svc = (r, w, svc1)"
  shows "P (core (commit kd w svc1))"
proof -
  from updateIntent_no_panic [OF _ assms(3,4)] P_store [OF assms(1)] have "r \<noteq> UpdPanic" by simp
  with P_update [OF assms(1,2,4)] show ?thesis by simp
qed

lemma webhook_NoRow_preserves:
  assumes "P (core (svc :: ('s, 'i) service))" "cb_ok NoRow fn" "\<And>i w. fst (fn i w) \<noteq> FnPanic"
  shows "P (core (snd (snd (updateIntent t iid fn svc))))"
  using webhook_update_preserves [OF assms]
  by (cases "updateIntent t iid fn svc") (simp add: commit_def)

lemma handleSettlementWebhook_preserves:
  assumes "P (core (svc :: ('s, 'i) service))"
  shows "P (core (snd (handleSettlementWebhook e rl wb svc)))"
proof (cases "updateIntent (envNow e 13) (wbPaymentID wb) (settlementFn e rl wb) svc")
  case (fields r w svc1)
  with webhook_update_preserves [OF assms cb_settlement webhook_no_panic(1) fields]
  show ?thesis by (simp add: handleSettlementWebhook_commit)
qed

lemma handleChargebackWebhook_preserves:
  assumes P: "P (core (svc :: ('s, 'i) service))"
  shows "P (core (snd (handleChargebackWebhook e rl wb svc)))"
proof -
  have [simp]: "svStoreI svc = I" using P_store [OF P] by simp
  show ?thesis
    using P
    by (auto simp: handleChargebackWebhook_def chargebackNew_def chargebackKnown_def Let_def
        case_prod_beta webhook_no_panic split: option.split
        intro!: webhook_NoRow_preserves P_frame cb_chargeback cb_reversal)
qed

lemma processWebhook_preserves:
  assumes "P (core (svc :: ('s, 'i) service))" shows "P (core (snd (processWebhook e rl wb svc)))"
  using assms
  by (auto simp: processWebhook_def case_prod_beta webhook_no_panic
      intro!: webhook_NoRow_preserves handleSettlementWebhook_preserves
        handleChargebackWebhook_preserves cb_note)

lemma deliverWebhook_preserves:
  assumes P: "P (core (svc :: ('s, 'i) service))"
  shows "P (core (snd (deliverWebhook e rl wb svc)))"
proof (cases "wbExternalEventID wb = ''''")
  case True
  with P processWebhook_preserves show ?thesis by (simp add: deliverWebhook_def)
next
  case False
  let ?wh = "\<lparr>whID = envUUID e 0, whRail = rl, whExternalEventID = wbExternalEventID wb,
    whSignature = ''verified'', whReceivedAt = envNow e 1, whProcessedAt = None\<rparr>"
  obtain x s1 where s1: "st_RecordWebhook I ?wh (svStore svc) = (x, s1)" by fastforce
  have I: "svStoreI svc = I" using P_store [OF P] by simp
  have "s1 = snd (st_RecordWebhook I ?wh (svStore svc))" by (simp only: s1 snd_conv)
  then have P1: "P (core (svc\<lparr>svStore := s1\<rparr>))" using P_frame [OF P, of s1] by simp
  show ?thesis
  proof (cases x)
    case None
    obtain resp svc2 where p: "processWebhook e rl wb
        (svc\<lparr>svStore := s1, svMetrics := IncWebhookBacklog (svMetrics svc)\<rparr>) = (resp, svc2)"
      by fastforce
    from P1 have P2: "P (core svc2)"
      using processWebhook_preserves [of "svc\<lparr>svStore := s1, svMetrics := IncWebhookBacklog (svMetrics svc)\<rparr>"
          e rl wb] p by simp
    have "P ((core svc2)\<lparr>coStore := st_MarkWebhookProcessed I (envNow e 15) rl
        (wbExternalEventID wb) (svStore svc2)\<rparr>)" using P_frame [OF P2] by simp
    moreover have "svStoreI svc2 = I" using P_store [OF P2] by simp
    ultimately show ?thesis using False s1 I None p by (simp add: deliverWebhook_def)
  qed (use False s1 I P1 in \<open>simp add: deliverWebhook_def\<close>)
qed

lemma serve_preserves:
  assumes P: "P (core (svc :: ('s, 'i) service))" and fresh: "fresh_uuid e svc"
    and small: "\<And>key r. req = PostIntents key (Some r) \<Longrightarrow> small (ciAmount r)"
      "\<And>iid key a. req = PostRefund iid key (JSONBody (Some a)) \<Longrightarrow> small a"
  shows "P (core (snd (serve e decode req svc)))"
proof (cases req)
  case (PostIntents key body)
  with small(1) P fresh show ?thesis by (simp add: CreateIntent_preserves)
next
  case (PostCapture iid key body)
  with P show ?thesis
    by (cases body) (simp_all add: Capture_def replayOrContinue_preserves captureHandle_preserves)
next
  case (PostVoid iid key)
  with P show ?thesis by (simp add: Void_def replayOrContinue_preserves voidHandle_preserves)
next
  case (PostRefund iid key body)
  with P small(2) show ?thesis
    by (cases body) (simp_all add: Refund_def replayOrContinue_preserves refundHandle_preserves)
next
  case (Post3DSChallenge iid key body)
  with P show ?thesis
    by (cases body) (simp_all add: ThreeDSChallenge_def replayOrContinue_preserves threeDSHandle_preserves)
next
  case (PostWebhook rl body sig)
  with P show ?thesis by (simp add: Webhook_def deliverWebhook_preserves split: sum.split)
qed (use P in simp_all)

lemma reach_preserves:
  assumes "reach decode ok svc0 svc" and "P (core (svc0 :: ('s, 'i) service))"
    and "\<And>key r. ok (PostIntents key (Some r)) \<Longrightarrow> small (ciAmount r)"
      "\<And>iid key a. ok (PostRefund iid key (JSONBody (Some a))) \<Longrightarrow> small a"
  shows "P (core svc)"
  using assms by (induction rule: reach.induct) (auto intro: serve_preserves)

end

section \<open>The two invariants\<close>

text \<open>
  Amounts stay in order on any store, whether or not its calls fail; the audit log and the
  ledger are exact on a store that mutates in place and does not fail.
\<close>

sublocale service_store \<subseteq> order: service_inv I stored stored "orderly I stored" "\<lambda>kd. cb_in_order"
  "\<lambda>a. sint a < 2 ^ 62"
proof (unfold_locales, goal_cases)
  case (7 svc kd fn t iid r w svc1)
  then show ?case
    using updateIntent_orderly [OF 7, of kd] updateIntent_orderly [OF 7, of NoRow]
    by (simp add: commit_def)
next
  case (8 svc e req svc')
  then show ?case by (blast intro: creates_orderly)
qed (auto simp: orderly_def intro!: captureFn_in_order voidFn_in_order refundFn_in_order
      threeDSFn_in_order webhookFns_in_order)

context service_store
begin

lemma orderly_reach:
  assumes "reach decode small_request svc0 svc" "orderly I stored (core svc0)"
  shows "orderly I stored (core svc)"
  by (rule order.reach_preserves [OF assms]) simp_all

end

sublocale ledger_store \<subseteq> good: service_inv I "intents_of I" "\<lambda>s. (intents_of I s, rows_of I s)" "good I"
  "\<lambda>kd fn. cb_audited fn \<and> cb_balanced kd fn" "\<lambda>a. True"
proof (unfold_locales, goal_cases)
  case (7 svc kd fn t iid r w svc1)
  then show ?case
    by (cases "r = UpdPanic")
       (auto intro!: handle_good [where svc = svc and fn = fn and kd = kd and t = t and iid = iid])
next
  case (8 svc e req svc')
  then show ?case by (blast intro: creates_good)
qed (auto simp: good_def intro!: captureFn_audited captureFn_balanced voidFn_audited voidFn_balanced
      refundFn_audited refundFn_balanced threeDSFn_audited threeDSFn_balanced settlementFn_audited
      settlementFn_balanced chargebackOpenedFn_audited chargebackOpenedFn_balanced
      reversalFn_audited reversalFn_balanced noteFn_audited noteFn_balanced)

interpretation mem_svc: ledger_store MemStore
  by (rule ledger_store.intro) (rule mem.row_store_axioms)

end
