(* ===== verification/Scenario.thy ===== *)
theory Scenario imports System begin

text \<open>
  A concrete run of the service, on which the hypotheses of the theorems are seen to hold: the
  in-memory store, the dummy rails, MPI and fraud clients, a clock that counts its readings.
\<close>

definition demo_env :: "string \<Rightarrow> time \<Rightarrow> env" where
  "demo_env uid t = \<lparr>envNow = (\<lambda>k. t + int k), envUUID = (\<lambda>k. if k = 0 then uid else uid @ ''-row''),
     envOrder = [uid], envHMAC = (\<lambda>k b. k @ b)\<rparr>"

definition demo_service :: "(memstore, body idem_mem) service" where
  "demo_service = NewService MemStore NewMemStore NewMem (NewRegistry NewDummy) (Some (Recorder [])) ''s''"

definition demo_req :: "rail \<Rightarrow> int64 \<Rightarrow> createIntentReq" where
  "demo_req rl n = \<lparr>ciRail = rl, ciAmount = n, ciCurrency = ''USD'', ciPayerRef = ''payer'',
     ciThreeDSRequired = False\<rparr>"

definition demo_decode :: "bytes \<Rightarrow> webhookBody" where
  "demo_decode b = \<lparr>wbPaymentID = ''p1'', wbType = ''settlement'', wbExternalEventID = b,
     wbTimestamp = 0, wbAmount = 100, wbReason = '''', wbCaseRef = '''', wbStage = '''', wbRailRef = ''r''\<rparr>"

text \<open>A card payment is created and authorized, then captured, then settled by webhook.\<close>

definition demo_created :: "(memstore, body idem_mem) service" where
  "demo_created = snd (serve (demo_env ''p1'' 0) demo_decode
     (PostIntents ''k1'' (Some (demo_req RailCard 100))) demo_service)"

definition demo_captured :: "(memstore, body idem_mem) service" where
  "demo_captured = snd (serve (demo_env ''p2'' 100) demo_decode
     (PostCapture ''p1'' ''k2'' (JSONBody (Some 100))) demo_created)"

definition demo_settled :: "(memstore, body idem_mem) service" where
  "demo_settled = snd (serve (demo_env ''p3'' 200) demo_decode
     (PostWebhook ''card'' (Some ''ev1'') (hex_EncodeToString ''sev1'')) demo_captured)"

text \<open>A service at start: an empty in-memory store, an empty recorder, lawful adapters.\<close>

definition booted :: "(memstore, 'i) service \<Rightarrow> bool" where
  "booted svc \<longleftrightarrow> svStoreI svc = MemStore \<and> svStore svc = NewMemStore \<and>
     svAudit svc = Some (Recorder []) \<and> rails_ok (svRails svc)"

lemma booted_good: "booted svc \<Longrightarrow> good MemStore (core svc)"
  by (simp add: booted_def good_def audit_ok_def ledger_ok_def no_rows_def NewMemStore_def slice_at_def)

lemma booted_orderly: "booted svc \<Longrightarrow> rails_full (svRails svc) \<Longrightarrow> orderly MemStore (intents_of MemStore) (core svc)"
  by (simp add: booted_def orderly_def order_ok_def NewMemStore_def)

lemma booted_demo: "booted demo_service" "rails_full (svRails demo_service)"
  by (simp_all add: booted_def demo_service_def NewService_def rails_full_dummy rails_full_ok)

lemma fresh_uuid_MemStore:
  "svStoreI svc = MemStore \<Longrightarrow> fresh_uuid e svc \<longleftrightarrow> ms_intents (svStore svc) (envUUID e 0) = None"
  by (simp add: fresh_uuid_def)

lemma demo_uuid [simp]: "envUUID (demo_env uid t) 0 = uid"
  by (simp add: demo_env_def)

lemma reach_stores:
  assumes "reach decode ok svc0 svc" "booted svc0" shows "svStoreI svc = MemStore"
  using mem_svc.good.reach_preserves [OF assms(1) booted_good [OF assms(2)]]
  by (simp add: good_def)

lemma reach_demo_created: "reach demo_decode small_request demo_service demo_created"
  unfolding demo_created_def
proof (rule reach_step [OF reach_init])
  show "fresh_uuid (demo_env ''p1'' 0) demo_service"
    by (simp add: fresh_uuid_def demo_service_def NewService_def NewMemStore_def)
  show "small_request (PostIntents ''k1'' (Some (demo_req RailCard 100)))"
    by (simp add: demo_req_def)
qed

lemma reach_demo_captured: "reach demo_decode small_request demo_service demo_captured"
  unfolding demo_captured_def
proof (rule reach_step [OF reach_demo_created])
  have "ms_intents (svStore demo_created) ''p2'' = None" by code_simp
  with reach_stores [OF reach_demo_created booted_demo(1)]
  show "fresh_uuid (demo_env ''p2'' 100) demo_created" by (simp add: fresh_uuid_MemStore)
qed simp

lemma reach_demo_settled: "reach demo_decode small_request demo_service demo_settled"
  unfolding demo_settled_def
proof (rule reach_step [OF reach_demo_captured])
  have "ms_intents (svStore demo_captured) ''p3'' = None" by code_simp
  with reach_stores [OF reach_demo_captured booted_demo(1)]
  show "fresh_uuid (demo_env ''p3'' 200) demo_captured" by (simp add: fresh_uuid_MemStore)
qed simp

lemma demo_settled_intent:
  obtains i where "ms_intents (svStore demo_settled) ''p1'' = Some i" "iStatus i = StatusSettled"
    "iCapturedAmount i = 100" "iSettledAmount i = 100"
proof -
  have "map_option (\<lambda>i. (iStatus i, iCapturedAmount i, iSettledAmount i))
    (ms_intents (svStore demo_settled) ''p1'') = Some (StatusSettled, 100, 100)"
    by code_simp
  with that show thesis by auto
qed

text \<open>A service that holds one intent, for single requests.\<close>

definition demo_intent :: "status \<Rightarrow> int64 \<Rightarrow> intent" where
  "demo_intent st c =
     \<lparr>iID = ''p1'', iRail = RailCard, iAmount = 100, iCurrency = ''USD'', iPayerRef = ''payer'',
      iStatus = st, iCapturedAmount = c, iRefundedAmount = 0, iSettledAmount = 0,
      iExternalID = ''ext-p1'', iIdempotencyKey = ''k1'', iThreeDSRequired = False,
      iCreatedAt = 0, iUpdatedAt = 0,
      iHistory = [\<lparr>evType = EventCreated, evDetail = '''', evAt = 0, evAmount = 0\<rparr>]\<rparr>"

definition demo_with :: "intent \<Rightarrow> (memstore, body idem_mem) service" where
  "demo_with i = demo_service\<lparr>svStore := NewMemStore\<lparr>ms_intents := [iID i \<mapsto> i]\<rparr>\<rparr>"

lemma demo_intent_sel [simp]:
  "iID (demo_intent st c) = ''p1''" "iRail (demo_intent st c) = ''card''"
  "iAmount (demo_intent st c) = 100" "iStatus (demo_intent st c) = st"
  "iCapturedAmount (demo_intent st c) = c" "iRefundedAmount (demo_intent st c) = 0"
  "iSettledAmount (demo_intent st c) = 0"
  "iHistory (demo_intent st c) = [\<lparr>evType = EventCreated, evDetail = '''', evAt = 0, evAmount = 0\<rparr>]"
  by (simp_all add: demo_intent_def)

lemma demo_with_sel [simp]:
  "svStoreI (demo_with i) = MemStore" "ms_intents (svStore (demo_with i)) = [iID i \<mapsto> i]"
  "svRails (demo_with i) = NewRegistry NewDummy" "svFraud (demo_with i) = FraudDummyClient NewFraudDummy"
  "svIdemI (demo_with i) = None" "svIdemTTL (demo_with i) = idemTTL"
  "svReplayWindow (demo_with i) = 300000000000"
  "mem_RefundsFor k (svStore (demo_with i)) = []" "mem_ChargebacksFor k (svStore (demo_with i)) = []"
  "mem_CapturesFor k (svStore (demo_with i)) = []" "mem_SettlementsFor k (svStore (demo_with i)) = []"
  by (simp_all add: demo_with_def demo_service_def NewService_def NewMemStore_def mem_RefundsFor_def
      mem_ChargebacksFor_def mem_CapturesFor_def mem_SettlementsFor_def slice_at_def)

lemma demo_registry [simp]: "Registry_For (NewRegistry d) r = Some (DummyAdapter d)"
  by (simp add: Registry_For_def NewRegistry_def)

lemma demo_adapter [simp]:
  "ad_Capture (DummyAdapter NewDummy) i n = (None, i)" "ad_Refund (DummyAdapter NewDummy) i n = (None, i)"
  "ad_Void (DummyAdapter NewDummy) i = (None, i)"
  by (simp_all add: dummy_defs NewDummy_def)

lemma fst_triple: "fst x = a \<Longrightarrow> \<exists>b c. x = (a, b, c)"
  by (cases x) auto

end
