(* ===== verification/ComponentProps.thy ===== *)
theory ComponentProps
  imports Scenario "HOL-Library.Multiset"
begin

text \<open>
  Properties of single components: the state machine of an intent, the in-memory store, the HTTP
  rail adapter and the metrics.
\<close>

definition demo_dispute :: "string \<Rightarrow> chargeback" where
  "demo_dispute ref = \<lparr>cbID = ''a'', cbIntentID = ''p1'', cbAmount = 5, cbReason = '''',
     cbStage = StageOpened, cbCaseRef = ref, cbCreatedAt = 0, cbUpdatedAt = 0\<rparr>"



text \<open>
  Whatever transitions are attempted on a new intent, in any order and number, its history
  never claims a captured, settled, refunded, voided or disputed payment without an earlier
  \<open>authorized\<close> event, and its status is one of the events.
\<close>

lemma history_authorized:
  assumes "iStatus i = StatusIntent" "map evType (iHistory i) = [EventCreated]"
    and "iStatus (transition_run rs i) \<notin> {StatusIntent, Status3DSPending, StatusFailed}"
  shows "statusString StatusAuthorized \<in> evType ` set (iHistory (transition_run rs i)) \<and>
    last (map evType (iHistory (transition_run rs i))) = statusString (iStatus (transition_run rs i))"
proof -
  obtain ss where ss: "walk (iStatus i) ss" "iStatus (transition_run rs i) = last (iStatus i # ss)"
    "map evType (iHistory (transition_run rs i)) = map evType (iHistory i) @ map statusString ss"
    using transition_run_walk by blast
  have auth: "StatusAuthorized \<in> set ss" using walk_authorized [OF ss(1)] assms ss(2) by simp
  then have "statusString StatusAuthorized \<in> statusString ` set ss" by (rule imageI)
  moreover from auth have "ss \<noteq> []" by auto
  moreover have "evType ` set (iHistory (transition_run rs i)) =
      evType ` set (iHistory i) \<union> statusString ` set ss" using arg_cong [OF ss(3), of set] by simp
  ultimately show ?thesis using ss(2,3) by (simp add: last_map)
qed

lemma history_authorized_witness:
  "statusString StatusAuthorized \<in> evType ` set (iHistory
     (transition_run [(1, 2, StatusCaptured, ''early''), (3, 4, StatusAuthorized, ''ok''),
        (5, 6, StatusCaptured, ''done'')] (demo_intent StatusIntent 0)))"
proof -
  have "iStatus (transition_run [(1, 2, StatusCaptured, ''early''), (3, 4, StatusAuthorized, ''ok''),
        (5, 6, StatusCaptured, ''done'')] (demo_intent StatusIntent 0)) = StatusCaptured"
    by (simp add: Transition_def CanTransition_def)
  then show ?thesis
    using history_authorized [of "demo_intent StatusIntent 0" "[(1, 2, StatusCaptured, ''early''),
        (3, 4, StatusAuthorized, ''ok''), (5, 6, StatusCaptured, ''done'')]"] by simp
qed

text \<open>
  Terminal statuses are final: no sequence of attempted transitions changes an intent that is
  settled, refunded, voided, failed or whose dispute is decided, although the transition table has
  edges that leave \<open>settled\<close>.
\<close>

lemma terminal_final:
  assumes "IsTerminal (iStatus i)"
  shows "transition_run rs i = i"
  using assms by (induction rs i rule: transition_run.induct) (simp_all add: Transition_def)

lemma terminal_final_witness:
  "transition_run [(1, 2, StatusRefunding, ''refund'')] (demo_intent StatusSettled 100) =
   demo_intent StatusSettled 100"
  by (rule terminal_final) simp

text \<open>
  C29. Listing payments returns exactly the stored intents that match the status and rail filters
  (an empty filter matches everything), each once, in the order of their creation.
\<close>

theorem ListIntents_exact:
  assumes "distinct ord" "set ord = dom (ms_intents s)"
  shows "sorted (map iCreatedAt (mem_ListIntents ord st rl s)) \<and>
    mset (mem_ListIntents ord st rl s) =
      image_mset (\<lambda>k. the (ms_intents s k))
        (mset_set {k \<in> dom (ms_intents s). (st = '''' \<or> statusString (iStatus (the (ms_intents s k))) = st) \<and>
           (rl = '''' \<or> iRail (the (ms_intents s k)) = rl)})"
proof -
  let ?P = "\<lambda>i. \<not> (st \<noteq> '''' \<and> statusString (iStatus i) \<noteq> st) \<and> \<not> (rl \<noteq> '''' \<and> iRail i \<noteq> rl)"
  have mf: "List.map_filter (ms_intents s) ks = map (\<lambda>k. the (ms_intents s k)) ks"
    if "set ks \<subseteq> dom (ms_intents s)" for ks
    using that by (induction ks) (auto simp: List.map_filter_simps)
  have "mset (mem_ListIntents ord st rl s) =
      image_mset (\<lambda>k. the (ms_intents s k)) (mset (filter (\<lambda>k. ?P (the (ms_intents s k))) ord))"
    using assms(2) by (simp add: mem_ListIntents_def mf filter_map comp_def)
  also have "mset (filter (\<lambda>k. ?P (the (ms_intents s k))) ord) =
      mset_set {k \<in> set ord. ?P (the (ms_intents s k))}"
    using assms(1) by (simp add: mset_set_set [symmetric] del: mset_filter)
  finally show ?thesis using assms(2) by (simp add: mem_ListIntents_def)
qed

theorem ListIntents_exact_witness:
  "mset (mem_ListIntents [''p1''] '''' ''card'' (NewMemStore\<lparr>ms_intents := [''p1'' \<mapsto> demo_intent StatusCaptured 100]\<rparr>)) =
   {#demo_intent StatusCaptured 100#}"
proof -
  let ?s = "NewMemStore\<lparr>ms_intents := [''p1'' \<mapsto> demo_intent StatusCaptured 100]\<rparr>"
  have "{k \<in> dom (ms_intents ?s). ('''' = '''' \<or> statusString (iStatus (the (ms_intents ?s k))) = '''') \<and>
      (''card'' = '''' \<or> iRail (the (ms_intents ?s k)) = ''card'')} = {''p1''}" by auto
  with ListIntents_exact [of "[''p1'']" ?s "''''" "''card''"] show ?thesis by simp
qed

lemma find_case_Some:
  "find_case ref cs = Some j \<Longrightarrow> j < length cs \<and> cbCaseRef (cs ! j) = ref"
  by (induction cs arbitrary: j) (auto split: if_splits)

text \<open>
  Progressing a dispute touches only disputes with its case reference: every other chargeback
  of every intent keeps its place and content.
\<close>

lemma UpdateChargeback_frame:
  assumes "j < length (mem_ChargebacksFor k s)" "cbCaseRef (mem_ChargebacksFor k s ! j) \<noteq> ref"
  shows "mem_ChargebacksFor k (snd (mem_UpdateChargeback ord ref fn s)) ! j = mem_ChargebacksFor k s ! j \<and>
    length (mem_ChargebacksFor k (snd (mem_UpdateChargeback ord ref fn s))) =
      length (mem_ChargebacksFor k s)"
  using assms
proof (induction ord ref fn s rule: mem_UpdateChargeback.induct)
  case (2 k' ks ref fn s)
  show ?case
  proof (cases "find_case ref (slice_at (ms_chargebacks s) k')")
    case None
    with 2 show ?thesis by simp
  next
    case (Some idx)
    with find_case_Some [OF this] 2(2,3) show ?thesis
      by (auto simp: mem_ChargebacksFor_def slice_at_upd nth_list_update Let_def split: prod.split)
  qed
qed simp

lemma UpdateChargeback_frame_witness:
  "mem_ChargebacksFor ''p1'' (snd (mem_UpdateChargeback [''p1''] ''r2'' (\<lambda>c. (None, c\<lparr>cbAmount := 7\<rparr>))
     (NewMemStore\<lparr>ms_chargebacks := [''p1'' \<mapsto> [demo_dispute ''r1'', demo_dispute ''r2'']]\<rparr>))) ! 0 = demo_dispute ''r1''"
  using UpdateChargeback_frame [of 0 "''p1''" "NewMemStore\<lparr>ms_chargebacks := [''p1'' \<mapsto> [demo_dispute ''r1'', demo_dispute ''r2'']]\<rparr>" "''r2''"]
  by (simp add: demo_dispute_def mem_ChargebacksFor_def slice_at_def)

text \<open>
  An error of the HTTP rail adapter always wraps the sentinel of its operation, so that the
  handlers' \<open>errors.Is\<close> tests and the tests of callers see it, and never touches the intent.
\<close>

lemma http_errors_wrap:
  "(http_Authorize a i = (Some err, i') \<or> http_Submit a i = (Some err, i') \<longrightarrow>
      errors_Is err ErrAuthorize \<and> i' = i) \<and>
   (http_Capture a i n = (Some err, i') \<longrightarrow> errors_Is err ErrCapture \<and> i' = i) \<and>
   (http_Refund a i n = (Some err, i') \<longrightarrow> errors_Is err ErrRefund \<and> i' = i) \<and>
   (http_Void a i = (Some err, i') \<longrightarrow> errors_Is err ErrVoid \<and> i' = i)"
  by (auto simp: http_defs wrap_err_def split: sum.splits)

lemma http_errors_wrap_witness:
  "errors_Is (the (fst (http_Capture (NewHTTP (\<lambda>r. DoErr ''refused'') (\<lambda>b. Inl ''bad'') (\<lambda>b. Inl ''bad'') ''u'' ''card'')
     (demo_intent StatusAuthorized 0) 100))) ErrCapture"
  using http_errors_wrap [of "NewHTTP (\<lambda>r. DoErr ''refused'') (\<lambda>b. Inl ''bad'') (\<lambda>b. Inl ''bad'') ''u'' ''card''"
      "demo_intent StatusAuthorized 0" _ _ 100]
  by (simp add: http_Capture_def http_post_def http_do_def NewHTTP_def)

text \<open>
  Amounts survive the wire: the decimal text the HTTP adapter sends for an int64 amount
  parses back to it, and a submission whose rail answers with such a text captures exactly that
  amount, whatever the amount of the intent was.
\<close>

lemma submit_settle_amount:
  assumes "http_post a ''/v1/authorize'' (idem_header (iIdempotencyKey i))
      (AuthorizeBody (http_authorizeReq a i)) = Inr r"
    and "rrSettleAmount r = Some (amountString n)"
  shows "\<exists>i'. http_Submit a i = (None, i') \<and> iCapturedAmount i' = n"
  using assms by (simp add: http_Submit_def amountString_def ParseInt_FormatInt)

lemma submit_settle_amount_witness:
  "\<exists>i'. http_Submit (NewHTTP (\<lambda>r. HttpResp 200 ''ok'' None)
      (\<lambda>b. Inr \<lparr>rrStatus = ''ok'', rrRailRef = ''r'', rrSettleAmount = Some (amountString 999),
         rrErrorCode = '''', rrErrorMessage = ''''\<rparr>) (\<lambda>b. Inl ''bad'') ''u'' ''pix'')
      (demo_intent StatusIntent 0) = (None, i') \<and> iCapturedAmount i' = 999"
  by (rule submit_settle_amount) (auto simp: http_post_def http_do_def NewHTTP_def)

end
