(* ===== verification/MetricsProps.thy ===== *)
theory MetricsProps
  imports Observe
begin

text \<open>
  The metrics text of \<open>internal/metrics/metrics.go\<close>: the floating-point index of the percentile is
  the exact one, and the latency is printed without a panic and correct to the microsecond.
\<close>

section \<open>The digits of a fraction\<close>

lemma foldl_dec: "foldl (\<lambda>a c. a * 10 + (of_char c - 48)) a s = a * 10 ^ length s + dec_value s"
proof (induction s arbitrary: a)
  case (Cons c s)
  show ?case unfolding dec_value_def
    by (simp add: Cons [of "a * 10 + (of_char c - 48)"] Cons [of "of_char c - 48"] algebra_simps)
qed (simp add: dec_value_def)

lemma dec_value_Cons: "dec_value (c # s) = (of_char c - 48) * 10 ^ length s + dec_value s"
  using foldl_dec [of "of_char c - 48" s] by (simp add: dec_value_def)

lemma digit_table: "n < 10 \<Longrightarrow> ''0123456789'' ! n = digit_char n"
proof -
  have "list_all (\<lambda>n. ''0123456789'' ! n = digit_char n) [0..<10]" by code_simp
  then show "n < 10 \<Longrightarrow> ?thesis" by (simp add: list_all_iff)
qed

lemma f64_int64_small:
  assumes "\<not> fNeg f" "0 \<le> fMant f" "f64_whole f < 2 ^ 63" shows "sint (f64_int64 f) = f64_whole f"
proof -
  have "0 \<le> f64_whole f" using assms(2) by (simp add: f64_whole_def pos_imp_zdiv_nonneg_iff)
  then show ?thesis using assms by (simp add: f64_int64_def sint_of_int_int64 min_int64_def max_int64_def)
qed

text \<open>Subtracting the integer part is exact: it only drops leading bits.\<close>

lemma f64_minus_whole:
  assumes "fits (fMant f)" "0 \<le> f64_whole f" "f64_whole f < 2 ^ 53"
  shows "f64_minus f (f64_whole f) = f\<lparr>fMant := fMant f mod 2 ^ fScale f\<rparr>"
proof -
  have "round53 (f64_whole f) = f64_whole f" using assms by (intro round53_fits fits_small)
  moreover have "fMant f - f64_whole f * 2 ^ fScale f = fMant f mod 2 ^ fScale f"
    by (simp add: f64_whole_def minus_div_mult_eq_mod)
  ultimately show ?thesis using round53_fits [OF fits_mod [OF assms(1)]] by (simp add: f64_minus_def)
qed

text \<open>What \<open>n\<close> roundings can add up to, in units of \<open>2^-50\<close>.\<close>

fun slack :: "nat \<Rightarrow> int" where
  "slack 0 = 0"
| "slack (Suc n) = slack n + 10 ^ n"

definition prints :: "nat \<Rightarrow> int \<Rightarrow> int \<Rightarrow> bytes \<Rightarrow> bool" where
  "prints n m p ds \<longleftrightarrow> length ds = n \<and> list_all is_dec_digit ds \<and>
     2 ^ 50 * (int (dec_value ds) * p) \<le> 2 ^ 50 * (10 ^ n * m) + slack n * p \<and>
     2 ^ 50 * (10 ^ n * m) < 2 ^ 50 * ((int (dec_value ds) + 1) * p) + slack n * p"

lemma prints_step:
  assumes d: "0 \<le> d" "d < 10" and x: "x = d * p + m'" "2 ^ 50 * \<bar>x - 10 * m\<bar> \<le> p"
    and ds: "prints n m' p ds"
  shows "prints (Suc n) m p (digit_char (nat d) # ds)"
proof -
  define K :: int where "K = 2 ^ 50"
  define N where "N = int (dec_value ds)"
  have N: "int (dec_value (digit_char (nat d) # ds)) = d * 10 ^ n + N"
    using d ds by (simp add: dec_value_Cons N_def prints_def)
  have "K * (x - 10 * m) \<le> K * \<bar>x - 10 * m\<bar>" "K * (10 * m - x) \<le> K * \<bar>x - 10 * m\<bar>"
    by (intro mult_left_mono; simp add: K_def)+
  then have "K * x \<le> K * (10 * m) + p" "K * (10 * m) \<le> K * x + p"
    using x(2) unfolding K_def [symmetric] by (simp_all add: algebra_simps)
  then have e: "10 ^ n * (K * x) \<le> 10 ^ n * (K * (10 * m) + p)" "10 ^ n * (K * (10 * m)) \<le> 10 ^ n * (K * x + p)"
    by (intro mult_left_mono; simp)+
  have "K * (N * p) \<le> K * (10 ^ n * m') + slack n * p"
    "K * (10 ^ n * m') < K * ((N + 1) * p) + slack n * p"
    using ds unfolding prints_def K_def [symmetric] N_def by simp_all
  moreover have "10 ^ n * (K * x) = K * (d * 10 ^ n * p) + K * (10 ^ n * m')"
    unfolding x(1) by (simp add: algebra_simps)
  ultimately show ?thesis
    using e d ds unfolding prints_def N K_def [symmetric] by (auto simp: algebra_simps)
qed

lemma frac_digits_prints:
  assumes "\<not> fNeg f" "fits (fMant f)" "0 \<le> fMant f" "fMant f < 2 ^ fScale f"
  shows "\<exists>ds. frac_digits n f = Some ds \<and> prints n (fMant f) (2 ^ fScale f) ds"
  using assms
proof (induction n arbitrary: f)
  case 0
  then show ?case by (simp add: prints_def)
next
  case (Suc n)
  define g where "g = f64_times 10 f"
  have s: "fScale g = fScale f" and neg: "\<not> fNeg g" and g: "fMant g = round53 (10 * fMant f)"
    using Suc.prems(1) by (simp_all add: g_def f64_times_def)
  have g0: "0 \<le> fMant g" and fit: "fits (fMant g)"
    using Suc.prems(3) by (simp_all add: g round53_nonneg fits_round53)
  have lt: "fMant g < 10 * 2 ^ fScale g" unfolding g s by (rule round53_ten) (use Suc.prems in auto)
  have w: "0 \<le> f64_whole g" "f64_whole g < 10"
    using g0 lt by (simp_all add: f64_whole_def pos_imp_zdiv_nonneg_iff div_less_mult)
  then have d: "sint (f64_int64 g) = f64_whole g" using f64_int64_small [OF neg g0] by simp
  have h: "f64_minus g (f64_whole g) = g\<lparr>fMant := fMant g mod 2 ^ fScale g\<rparr>" (is "_ = ?h")
    using w by (intro f64_minus_whole fit) simp_all
  obtain ds where ds: "frac_digits n ?h = Some ds" "prints n (fMant ?h) (2 ^ fScale ?h) ds"
    using Suc.IH [of ?h] neg fits_mod [OF fit] by auto
  have "10 * fMant f < 2 ^ (fScale f + 4)" unfolding power_add using Suc.prems(3,4) by simp
  from round53_error_less [OF this] have "2 ^ 50 * \<bar>fMant g - 10 * fMant f\<bar> \<le> 2 ^ fScale f"
    unfolding g by (simp add: power_add)
  moreover have "fMant g = f64_whole g * 2 ^ fScale f + fMant g mod 2 ^ fScale f"
    unfolding f64_whole_def s by (rule div_mult_mod_eq [symmetric])
  ultimately have "prints (Suc n) (fMant f) (2 ^ fScale f) (digit_char (nat (f64_whole g)) # ds)"
    using prints_step [OF w] ds(2) by (simp add: s)
  moreover have "frac_digits (Suc n) f = Some (digit_char (nat (f64_whole g)) # ds)"
    using w ds(1) h digit_table [of "nat (f64_whole g)"] by (simp add: g_def [symmetric] d Let_def)
  ultimately show ?case by blast
qed

section \<open>Seconds\<close>

text \<open>The quotient with its sticky bit is off by less than one unit before it is rounded.\<close>

lemma f64_quot_error:
  assumes "0 \<le> a" "a < b"
  shows "\<exists>x. f64_quot a b = round53 x \<and> 0 \<le> x \<and> x < 2 ^ 129 \<and> \<bar>x * b - a * 2 ^ 129\<bar> \<le> b"
proof -
  define q r where "q = a * 2 ^ 128 div b" and "r = a * 2 ^ 128 mod b"
  have r: "0 \<le> r" "r < b" and e: "a * 2 ^ 128 = q * b + r" using assms by (simp_all add: q_def r_def)
  have "0 \<le> q" using assms by (simp add: q_def pos_imp_zdiv_nonneg_iff)
  moreover have "q < 2 ^ 128" unfolding q_def using assms by (intro div_less_mult) simp_all
  moreover have "a * 2 ^ 129 = 2 * (q * b) + 2 * r" using e by simp
  moreover have "f64_quot a b = round53 (2 * q + (if r = 0 then 0 else 1))"
    by (simp only: f64_quot_def q_def r_def)
  ultimately show ?thesis using r assms
    by (intro exI [of _ "2 * q + (if r = 0 then 0 else 1)"]) (auto simp: algebra_simps)
qed

lemma duration_Seconds_error:
  assumes D: "D = \<bar>sint d\<bar>" "D < 10 ^ 9 * k" and k: "2 * (k * 2 ^ 129) \<le> 2 ^ n" "k \<le> 2 ^ 53"
  shows "2 ^ 54 * \<bar>10 ^ 9 * fMant (duration_Seconds d) - D * 2 ^ 129\<bar> \<le> 10 ^ 9 * (2 * 2 ^ n)"
proof -
  define b W sec ns where "b = (10 ^ 9 :: int)" and "W = (2 ^ 129 :: int)"
    and "sec = D div b" and "ns = D mod b"
  have D0: "0 \<le> D" "D = sec * b + ns" "0 \<le> ns" "ns < b" using D(1) by (simp_all add: sec_def ns_def b_def)
  have sec: "0 \<le> sec" "sec < k"
    using D(2) D0(1) by (simp_all add: sec_def b_def pos_imp_zdiv_nonneg_iff div_less_mult mult.commute)
  obtain x where x: "f64_quot ns b = round53 x" "0 \<le> x" "x < W" "\<bar>x * b - ns * W\<bar> \<le> b"
    using f64_quot_error [OF D0(3,4)] by (auto simp: W_def)
  define y where "y = sec * W + round53 x"
  have Q: "2 ^ 54 * \<bar>round53 x - x\<bar> \<le> W" "0 \<le> round53 x"
    using round53_error_less [of x 129] x(2,3) by (simp_all add: W_def round53_nonneg)
  have "round53 sec = sec" using sec k(2) by (intro round53_fits fits_small) simp_all
  then have M: "fMant (duration_Seconds d) = round53 y"
    by (simp only: duration_Seconds_def Let_def f64.select_convs D(1) [symmetric] b_def [symmetric]
        W_def [symmetric] sec_def [symmetric] ns_def [symmetric] x(1) y_def)
  have kW: "W \<le> k * W" using sec by (simp add: W_def)
  have "sec * W + W \<le> k * W" using mult_right_mono [of "sec + 1" k W] sec by (simp add: W_def algebra_simps)
  moreover have "round53 x < 2 * W" using Q x(2,3) by (simp add: W_def)
  ultimately have "y < 2 ^ n" using k(1) kW unfolding y_def W_def [symmetric] by linarith
  then have E: "2 ^ 54 * \<bar>round53 y - y\<bar> \<le> 2 ^ n" by (rule round53_error_less)
  have "b * round53 y - D * W = b * (round53 y - y) + b * (round53 x - x) + (x * b - ns * W)"
    unfolding y_def D0(2) by (simp add: algebra_simps)
  then have "\<bar>b * round53 y - D * W\<bar> \<le> b * \<bar>round53 y - y\<bar> + b * \<bar>round53 x - x\<bar> + b"
    using x(4) abs_mult [of b "round53 y - y"] abs_mult [of b "round53 x - x"] by (simp add: b_def)
  then have "2 ^ 54 * \<bar>b * round53 y - D * W\<bar> \<le> b * (2 ^ 54 * \<bar>round53 y - y\<bar>) + b * (2 ^ 54 * \<bar>round53 x - x\<bar>) + b * 2 ^ 54"
    by simp
  also have "\<dots> \<le> b * 2 ^ n + b * W + b * 2 ^ 54"
    using E Q(1) by (intro add_mono mult_left_mono) (simp_all add: b_def)
  also have "\<dots> = b * (2 ^ n + W + 2 ^ 54)" by (simp add: algebra_simps)
  also have "\<dots> \<le> b * (2 * 2 ^ n)"
  proof (rule mult_left_mono)
    have "2 ^ 54 \<le> W" by (simp add: W_def)
    then show "2 ^ n + W + 2 ^ 54 \<le> 2 * 2 ^ n" using k(1) kW unfolding W_def [symmetric] by linarith
  qed (simp add: b_def)
  finally show ?thesis unfolding M W_def b_def .
qed

lemma duration_Seconds_sel [simp]:
  "fNeg (duration_Seconds d) = (sint d < 0)" "fScale (duration_Seconds d) = 129"
  by (simp_all add: duration_Seconds_def Let_def)

lemma f64_quot_nonneg: "0 \<le> a \<Longrightarrow> 0 < b \<Longrightarrow> 0 \<le> f64_quot a b"
  unfolding f64_quot_def by (intro round53_nonneg) (simp add: pos_imp_zdiv_nonneg_iff)

lemma duration_Seconds_fits: "0 \<le> fMant (duration_Seconds d)" "fits (fMant (duration_Seconds d))"
proof -
  have "0 \<le> round53 (\<bar>sint d\<bar> div 10 ^ 9) * 2 ^ 129 + f64_quot (\<bar>sint d\<bar> mod 10 ^ 9) (10 ^ 9)"
    by (intro add_nonneg_nonneg mult_nonneg_nonneg round53_nonneg f64_quot_nonneg)
       (simp_all add: pos_imp_zdiv_nonneg_iff)
  then show "0 \<le> fMant (duration_Seconds d)" "fits (fMant (duration_Seconds d))"
    unfolding duration_Seconds_def Let_def f64.select_convs by (rule round53_nonneg fits_round53)+
qed

lemma duration_Seconds_whole: "f64_whole (duration_Seconds d) < 2 ^ 53"
proof -
  have "\<bar>sint d\<bar> < 10 ^ 9 * 2 ^ 34" using sint_int64_bounds [of d] by (simp add: min_int64_def max_int64_def)
  from duration_Seconds_error [OF refl this, of 164]
  have "fMant (duration_Seconds d) < 2 ^ 53 * 2 ^ 129"
    using sint_int64_bounds [of d] by (simp add: min_int64_def max_int64_def)
  then show ?thesis unfolding f64_whole_def duration_Seconds_sel by (rule div_less_mult) simp
qed

section \<open>The text of a latency\<close>

text \<open>Any duration is printed: none of the indices into \<open>digits\<close> is out of range.\<close>

lemma floatToStr_prints:
  assumes "f = duration_Seconds d" "fMant f \<noteq> 0"
  shows "\<exists>ds. floatToStr f =
      Some ((if sint d < 0 then ''-'' else '''') @ strconv_FormatInt (word_of_int (f64_whole f)) @ ''.'' @ ds) \<and>
    prints 6 (fMant f mod 2 ^ 129) (2 ^ 129) ds"
proof -
  define g where "g = f\<lparr>fNeg := False\<rparr>"
  have g: "\<not> fNeg g" "0 \<le> fMant g" "fits (fMant g)" "fScale g = 129" "f64_whole g = f64_whole f" "fMant g = fMant f"
    using duration_Seconds_fits [of d] by (simp_all add: g_def assms(1) f64_whole_def)
  have w: "0 \<le> f64_whole g" "f64_whole g < 2 ^ 53"
    using duration_Seconds_whole [of d] g by (simp_all add: assms(1) f64_whole_def pos_imp_zdiv_nonneg_iff)
  then have i: "sint (f64_int64 g) = f64_whole g" using f64_int64_small [OF g(1,2)] by simp
  let ?h = "g\<lparr>fMant := fMant g mod 2 ^ fScale g\<rparr>"
  have h: "f64_minus g (f64_whole g) = ?h" by (rule f64_minus_whole [OF g(3) w])
  obtain ds where ds: "frac_digits 6 ?h = Some ds" "prints 6 (fMant f mod 2 ^ 129) (2 ^ 129) ds"
    using frac_digits_prints [of ?h 6] g fits_mod [OF g(3), of 129] by auto
  have "fNeg f = (sint d < 0)" by (simp add: assms(1))
  then have "floatToStr f = Some (appendInt (if sint d < 0 then ''-'' else '''') (f64_int64 g) @ ''.'' @ ds)"
    using assms(2) ds(1) h i by (simp add: floatToStr_def Let_def g_def [symmetric])
  moreover have "f64_int64 g = word_of_int (f64_whole f)" using g by (simp add: f64_int64_def)
  ultimately show ?thesis using ds(2) i w appendInt_FormatInt [of "f64_int64 g"] by auto
qed

lemma FormatPrometheus_total: "\<exists>t. FormatPrometheus keys m = Some t"
proof -
  have "\<exists>t. floatToStr (duration_Seconds (p99 m)) = Some t"
  proof (cases "fMant (duration_Seconds (p99 m)) = 0")
    case True
    then show ?thesis by (simp add: floatToStr_def)
  next
    case False
    from floatToStr_prints [OF refl this] show ?thesis by blast
  qed
  then show ?thesis by (auto simp: FormatPrometheus_def)
qed

text \<open>
  Below a thousand seconds the digits are those of the microseconds, rounded down; a whole number
  of microseconds may come out as the one before.
\<close>

lemma latency_digits:
  assumes "0 < sint d" "sint d < 10 ^ 12" "f = duration_Seconds d"
  shows "fMant f \<noteq> 0 \<and> (prints 6 (fMant f mod 2 ^ 129) (2 ^ 129) ds \<longrightarrow>
    (let micros = f64_whole f * 10 ^ 6 + int (dec_value ds)
     in 1000 * micros \<le> sint d \<and> sint d \<le> 1000 * (micros + 1)))"
proof -
  define M w m N where "M = fMant f" and "w = f64_whole f" and "m = fMant f mod 2 ^ 129"
    and "N = int (dec_value ds)"
  have M: "M = w * 2 ^ 129 + m"
    unfolding M_def w_def m_def assms(3) f64_whole_def duration_Seconds_sel
    by (rule div_mult_mod_eq [symmetric])
  have e: "2 ^ 54 * \<bar>10 ^ 9 * M - sint d * 2 ^ 129\<bar> \<le> 10 ^ 9 * (2 * 2 ^ 140)"
    unfolding M_def assms(3) by (rule duration_Seconds_error [of _ _ 1000]) (use assms in simp_all)
  have slack: "slack 6 = 111111" by (simp add: eval_nat_numeral)
  have "M \<noteq> 0" using e assms(1) by auto
  moreover have "1000 * (w * 10 ^ 6 + N) \<le> sint d \<and> sint d \<le> 1000 * (w * 10 ^ 6 + N + 1)"
    if "prints 6 m (2 ^ 129) ds"
  proof -
    from that have "2 ^ 50 * (N * 2 ^ 129) \<le> 2 ^ 50 * (10 ^ 6 * m) + 111111 * 2 ^ 129"
      "2 ^ 50 * (10 ^ 6 * m) < 2 ^ 50 * ((N + 1) * 2 ^ 129) + 111111 * 2 ^ 129"
      by (simp_all only: prints_def slack N_def)
    with e show ?thesis unfolding M by (intro conjI; simp add: abs_le_iff; linarith)
  qed
  ultimately show ?thesis unfolding M_def w_def m_def N_def Let_def by blast
qed

section \<open>The percentile\<close>

lemma f64_quot_99: "f64_quot 99 100 = 0x1FAE147AE147AE0000000000000000000"
  by (simp add: f64_quot_def round53_def Let_def excess.simps)

lemma p99_idx_hundreds:
  "p99_idx 0 = 0"
  "p99_idx 100 = 99"
  "p99_idx 200 = 198"
  "p99_idx 300 = 297"
  "p99_idx 400 = 396"
  "p99_idx 500 = 495"
  "p99_idx 600 = 594"
  "p99_idx 700 = 693"
  "p99_idx 800 = 792"
  "p99_idx 900 = 891"
  "p99_idx 1000 = 990"
  by (simp_all add: p99_idx_def f64_quot_99 f64_whole_def f64_times_def round53_def Let_def excess.simps)

text \<open>
  The index is the exact one for the at most thousand samples there are: off the multiples of 100
  the product is a hundredth or more away from an integer, and at them it rounds to it.
\<close>

lemma p99_idx_exact: assumes "n \<le> 1000" shows "p99_idx n = int (n * 99 div 100)"
proof (cases "n mod 100 = 0")
  case True
  then obtain j where "n = 100 * j" by (auto simp: mod_eq_0_iff_dvd)
  moreover with assms have "j = 0 \<or> j = 1 \<or> j = 2 \<or> j = 3 \<or> j = 4 \<or> j = 5 \<or> j = 6 \<or> j = 7 \<or> j = 8 \<or> j = 9 \<or> j = 10"
    by presburger
  ultimately show ?thesis using p99_idx_hundreds by auto
next
  case False
  define c where "c = f64_quot 99 100"
  obtain x where x: "c = round53 x" "0 \<le> x" "x < 2 ^ 129" "\<bar>x * 100 - 99 * 2 ^ 129\<bar> \<le> 100"
    using f64_quot_error [of 99 100] by (auto simp: c_def)
  have c: "\<bar>100 * c - 99 * 2 ^ 129\<bar> \<le> 2 ^ 82" "c < 2 ^ 130"
    using round53_error_less [OF x(3)] x(2-4) unfolding x(1) [symmetric] by simp_all
  define y where "y = int n * c"
  have "int n * \<bar>100 * c - 99 * 2 ^ 129\<bar> \<le> 1000 * 2 ^ 82"
    using c(1) assms by (intro mult_mono) simp_all
  moreover have "100 * y - 99 * int n * 2 ^ 129 = int n * (100 * c - 99 * 2 ^ 129)"
    by (simp add: y_def algebra_simps)
  ultimately have y: "\<bar>100 * y - 99 * int n * 2 ^ 129\<bar> \<le> 1000 * 2 ^ 82" by (simp add: abs_mult)
  have "y \<le> 1000 * 2 ^ 130" unfolding y_def using c(2) assms x(1,2) by (intro mult_mono) (simp_all add: round53_nonneg)
  then have e: "2 ^ 54 * \<bar>round53 y - y\<bar> \<le> 2 ^ 140" by (intro round53_error_less) simp
  define a b where "a = int (n * 99 div 100)" and "b = int (n * 99 mod 100)"
  have "\<not> 100 dvd n * 99"
  proof
    assume "100 dvd n * 99"
    from dvd_diff_nat [OF dvd_triv_right this, of n] have "100 dvd n" by simp
    with False show False by (simp add: mod_eq_0_iff_dvd)
  qed
  then have "n * 99 mod 100 \<noteq> 0" "n * 99 mod 100 < 100" by (simp_all add: mod_eq_0_iff_dvd)
  then have ab: "1 \<le> b" "b \<le> 99" unfolding b_def by linarith+
  have "n * 99 = 100 * (n * 99 div 100) + n * 99 mod 100" by simp
  then have n: "99 * int n = 100 * a + b" unfolding a_def b_def by linarith
  have "0 \<le> round53 y - 2 ^ 129 * a" using y e ab n by (simp add: abs_le_iff; linarith)
  moreover have "round53 y - 2 ^ 129 * a < 2 ^ 129" using y e ab n by (simp add: abs_le_iff; linarith)
  ultimately have "round53 y div 2 ^ 129 = a" by (intro int_div_pos_eq) simp_all
  moreover have "round53 (int n) = int n" using assms by (intro round53_fits fits_small) simp_all
  ultimately show ?thesis by (simp add: p99_idx_def f64_whole_def f64_times_def c_def [symmetric] y_def a_def)
qed

lemma p99_exact:
  "length (mtLatencies m) \<le> 1000 \<Longrightarrow> mtLatencies m \<noteq> [] \<Longrightarrow>
   p99 m = sort_key sint (mtLatencies m) ! (length (mtLatencies m) * 99 div 100)"
  by (auto simp: p99_def Let_def p99_idx_exact not_le)

text \<open>
  The latency window holds the last thousand observations, in their order.
\<close>

lemma latencies_window:
  "mtLatencies (fold ObserveIntentCreation ds NewMetrics) = drop (length ds - 1000) ds"
proof (induction ds rule: rev_induct)
  case Nil
  then show ?case by (simp add: NewMetrics_def)
next
  case (snoc d ds)
  have "length (ds @ [d]) - 1000 = Suc (length ds - 1000)" if "1000 \<le> length ds" using that by simp
  with snoc show ?case
    by (cases "1000 \<le> length ds") (simp_all add: ObserveIntentCreation_def Let_def)
qed

lemma p99_index: "99 * n \<le> 100 * Suc (n * 99 div 100)" for n :: nat
proof -
  have "n * 99 mod 100 < 100" by simp
  moreover have "100 * (n * 99 div 100) + n * 99 mod 100 = n * 99" by (rule mult_div_mod_eq)
  ultimately show ?thesis unfolding mult_Suc_right by linarith
qed

text \<open>
  The reported p99 latency is an observed one, and at least 99 in 100 of the observations
  are not above it.
\<close>

lemma p99_percentile:
  assumes "mtLatencies m \<noteq> []" "length (mtLatencies m) \<le> 1000"
  shows "p99 m \<in> set (mtLatencies m) \<and>
    99 * length (mtLatencies m) \<le> 100 * length (filter (\<lambda>d. sint d \<le> sint (p99 m)) (mtLatencies m))"
proof -
  define srt where "srt = sort_key sint (mtLatencies m)"
  define k where "k = length srt * 99 div 100"
  have len: "length srt = length (mtLatencies m)" "set srt = set (mtLatencies m)"
    by (simp_all add: srt_def)
  have k: "k < length srt" using assms len by (simp add: k_def div_less_iff_less_mult)
  then have p: "p99 m = srt ! k"
    using assms p99_exact [of m] by (simp add: srt_def k_def)
  have "sint (srt ! j) \<le> sint (srt ! k)" if "j \<le> k" for j
  proof -
    have "sorted (map sint srt)" by (simp add: srt_def)
    with that k show ?thesis using sorted_nth_mono [of "map sint srt" j k] by simp
  qed
  then have "\<forall>d \<in> set (take (Suc k) srt). sint d \<le> sint (srt ! k)"
    using k by (auto simp: set_conv_nth less_Suc_eq_le)
  then have "Suc k \<le> length (filter (\<lambda>d. sint d \<le> sint (srt ! k)) (take (Suc k) srt))"
    using k by (simp add: filter_True)
  also have "\<dots> \<le> length (filter (\<lambda>d. sint d \<le> sint (srt ! k)) srt)"
    by (metis append_take_drop_id filter_append le_add1 length_append)
  also have "\<dots> = length (filter (\<lambda>d. sint d \<le> sint (p99 m)) (mtLatencies m))"
    unfolding p srt_def by (simp only: filter_sort length_sort)
  finally have "Suc k \<le> length (filter (\<lambda>d. sint d \<le> sint (p99 m)) (mtLatencies m))" .
  then have "100 * Suc k \<le> 100 * length (filter (\<lambda>d. sint d \<le> sint (p99 m)) (mtLatencies m))"
    by (rule mult_le_mono2)
  moreover have "99 * length (mtLatencies m) \<le> 100 * Suc k"
    unfolding k_def len(1) by (rule p99_index)
  moreover have "p99 m \<in> set (mtLatencies m)" using nth_mem [OF k] by (simp only: p len(2))
  ultimately show ?thesis by (blast intro: le_trans)
qed

section \<open>The metrics text\<close>

lemma FormatPrometheus_last:
  assumes "floatToStr (duration_Seconds (p99 m)) = Some t"
  shows "\<exists>pre. FormatPrometheus keys m =
    Some (pre @ metric_line ''payment_intent_creation_p99_latency_seconds'' t)"
  unfolding FormatPrometheus_def assms option.map(2) append_assoc [symmetric] by blast

text \<open>
  C30. The metrics text prints the p99 latency of intent creation to the microsecond: for a latency
  below a thousand seconds the last line holds the whole seconds, a point and six digits that
  together are the latency in microseconds, rounded down (a whole number of microseconds may come
  out as the one before), through all roundings of the float64 arithmetic; no index into the
  table of digits is out of range.
\<close>

theorem latency_printed:
  assumes "0 < sint (p99 m)" and "sint (p99 m) < 10 ^ 12"
  shows "\<exists>pre w ds. FormatPrometheus keys m = Some (pre @
      metric_line ''payment_intent_creation_p99_latency_seconds'' (strconv_FormatInt w @ ''.'' @ ds)) \<and>
    length ds = 6 \<and> list_all is_dec_digit ds \<and>
    1000 * (sint w * 10 ^ 6 + int (dec_value ds)) \<le> sint (p99 m) \<and>
    sint (p99 m) \<le> 1000 * (sint w * 10 ^ 6 + int (dec_value ds) + 1)"
proof -
  define f where "f = duration_Seconds (p99 m)"
  define w where "w = (word_of_int (f64_whole f) :: int64)"
  note digits = latency_digits [OF assms f_def]
  obtain ds where ds: "floatToStr f = Some (strconv_FormatInt w @ ''.'' @ ds)"
    "prints 6 (fMant f mod 2 ^ 129) (2 ^ 129) ds"
    using floatToStr_prints [OF f_def] digits assms(1) unfolding w_def by auto
  have "sint w = f64_whole f"
    using f64_int64_small [of f] duration_Seconds_whole [of "p99 m"] duration_Seconds_fits [of "p99 m"] assms(1)
    by (simp add: f_def f64_int64_def w_def)
  then have "1000 * (sint w * 10 ^ 6 + int (dec_value ds)) \<le> sint (p99 m)"
    "sint (p99 m) \<le> 1000 * (sint w * 10 ^ 6 + int (dec_value ds) + 1)"
    using digits [of ds] ds(2) by (simp_all add: Let_def)
  moreover have "length ds = 6" "list_all is_dec_digit ds" using ds(2) by (simp_all add: prints_def)
  ultimately show ?thesis using FormatPrometheus_last [OF ds(1) [unfolded f_def], of keys] by blast
qed

theorem latency_printed_witness:
  "\<exists>m pre w ds. m = ObserveIntentCreation 2345678901 NewMetrics \<and>
    FormatPrometheus [] m = Some (pre @
      metric_line ''payment_intent_creation_p99_latency_seconds'' (strconv_FormatInt w @ ''.'' @ ds)) \<and>
    length ds = 6 \<and> 1000 * (sint w * 10 ^ 6 + int (dec_value ds)) \<le> 2345678901 \<and>
    2345678901 \<le> 1000 * (sint w * 10 ^ 6 + int (dec_value ds) + 1)"
proof -
  let ?m = "ObserveIntentCreation 2345678901 NewMetrics"
  have "sint (p99 ?m) = 2345678901"
    by (simp add: p99_exact ObserveIntentCreation_def NewMetrics_def Let_def)
  with latency_printed [of ?m "[]"] show ?thesis by auto
qed

end
