(* ===== verification/PaymentProps.thy ===== *)
theory PaymentProps
  imports Scenario
begin

text \<open>
  Properties of the payment endpoints: capture, void, refund, creation and the 3DS challenge, each
  with an instance on the concrete service of the scenario.
\<close>

section \<open>Requests on the in-memory store\<close>

lemma mem_updateIntent:
  assumes "svStoreI svc = MemStore" "ms_intents (svStore svc) iid = Some i"
    "fn i (fx_of svc) = (r, i', w')"
  shows "updateIntent t iid fn svc = (updres_of r i', w',
    put_fx w' (svc\<lparr>svStore := (svStore svc)\<lparr>ms_intents := (ms_intents (svStore svc))(iid \<mapsto> i')\<rparr>\<rparr>))"
  using assms by (simp add: updateIntent_def mem_UpdateIntent_def updres_of_def)

section \<open>Capture and void\<close>



text \<open>
  C22. What a successful capture does: the captured total grows by the amount, one capture row is
  left for the store, and the intent becomes \<open>captured\<close> when the whole authorized amount is
  captured, and stays \<open>authorized\<close> otherwise.
\<close>

theorem capture_effect:
  assumes "rails_ok rg" and "captureFn e rg amt i w = (FnOk, i', w')"
  shows "\<exists>n c. captureAmount amt i = Inr n \<and> iCapturedAmount i' = iCapturedAmount i + n \<and>
    fxCapture w' = Some c \<and> caAmount c = n \<and> caIntentID c = iID i \<and>
    iStatus i' = (if sint (iAmount i) \<le> sint (iCapturedAmount i') then StatusCaptured else StatusAuthorized)"
  using assms(2)
  by (auto simp: captureFn_def captureDone_def cb_unfold not_less
      dest!: rail_adapter.pure_results(1) [OF rails_okD [OF assms(1)]] split: cb_splits)

theorem capture_effect_witness:
  "\<exists>i' w'. captureFn (demo_env ''u'' 0) (NewRegistry NewDummy) (Some 40)
     (demo_intent StatusAuthorized 0) (fx_of demo_service) = (FnOk, i', w') \<and>
     iCapturedAmount i' = 40 \<and> iStatus i' = StatusAuthorized"
proof -
  have "fst (captureFn (demo_env ''u'' 0) (NewRegistry NewDummy) (Some 40)
     (demo_intent StatusAuthorized 0) (fx_of demo_service)) = FnOk"
    by (simp add: captureFn_def captureDone_def captureAmount_def Let_def)
  from fst_triple [OF this] obtain i' w' where c:
    "captureFn (demo_env ''u'' 0) (NewRegistry NewDummy) (Some 40)
     (demo_intent StatusAuthorized 0) (fx_of demo_service) = (FnOk, i', w')"
    by blast
  have "iCapturedAmount i' = 40 \<and> iStatus i' = StatusAuthorized"
    using capture_effect [OF rails_ok_dummy c] by (auto simp: captureAmount_def)
  with c show ?thesis by blast
qed

text \<open>
  A void cancels an authorized intent when the rail accepts it, and nothing else: in every
  other case the intent and the audit log are left as they were.
\<close>

lemma void_effect:
  assumes "rails_ok rg"
  shows "voidFn e rg i w = (r, i', w') \<Longrightarrow>
    (r = FnOk \<longleftrightarrow> iStatus i = StatusAuthorized \<and>
       (\<exists>a. Registry_For rg (iRail i) = Some a \<and> fst (ad_Void a i) = None)) \<and>
    (if r = FnOk then iStatus i' = StatusVoided else i' = i \<and> w' = w)"
  by (auto simp: voidFn_def cb_unfold
      dest!: rail_adapter.pure_results(3) [OF rails_okD [OF assms]] split: cb_splits)

lemma void_effect_witness:
  "\<exists>r i' w'. voidFn (demo_env ''u'' 0) (NewRegistry NewDummy) (demo_intent StatusCaptured 100)
     (fx_of demo_service) = (r, i', w') \<and> r \<noteq> FnOk \<and> i' = demo_intent StatusCaptured 100"
proof -
  obtain r i' w' where v: "voidFn (demo_env ''u'' 0) (NewRegistry NewDummy)
     (demo_intent StatusCaptured 100) (fx_of demo_service) = (r, i', w')" using prod_cases3 by blast
  from void_effect [OF rails_ok_dummy v] v show ?thesis by simp
qed

section \<open>Refund\<close>

text \<open>
  C23. A refund of a captured intent that the rail accepts moves it to \<open>refunded\<close>, adds the
  amount to its refunded total and leaves one refund row; a refund that would exceed the captured
  amount is refused before the rail is called, and changes nothing.
\<close>

theorem refund_captured:
  assumes "rails_ok rg" and "iStatus i = StatusCaptured" and "refundAmount amt i = Inr n"
    and "Registry_For rg (iRail i) = Some a"
  shows "if sint (iCapturedAmount i) < sint (iRefundedAmount i + n)
    then refundFn e rg amt i w = (FnErr (ErrorString ''refund amount exceeds captured amount''), i, w)
    else case fst (ad_Refund a i n) of
        Some err \<Rightarrow> refundFn e rg amt i w = (FnErr err, i, w)
      | None \<Rightarrow> (\<exists>i' w' x. refundFn e rg amt i w = (FnOk, i', w') \<and> iStatus i' = StatusRefunded \<and>
          iRefundedAmount i' = iRefundedAmount i + n \<and> fxRefund w' = Some x \<and>
          reAmount x = n \<and> reIntentID x = iID i)"
proof -
  obtain x where "ad_Refund a i n = (x, i)"
    using rail_adapter.refund_pure [OF rails_okD [OF assms(1,4)], of i n]
    by (cases "ad_Refund a i n") auto
  with assms(2-4) show ?thesis
    by (simp add: refundFn_def refundDone_def cb_unfold split: option.split)
qed

theorem refund_captured_witness:
  "\<exists>i' w'. refundFn (demo_env ''u'' 0) (NewRegistry NewDummy) (Some 30)
     (demo_intent StatusCaptured 100) (fx_of demo_service) = (FnOk, i', w') \<and>
     iStatus i' = StatusRefunded \<and> iRefundedAmount i' = 30"
  using refund_captured [OF rails_ok_dummy, of "demo_intent StatusCaptured 100" "Some 30" 30 NewDummy
      "DummyAdapter NewDummy" "demo_env ''u'' 0" "fx_of demo_service"]
  by (auto simp: refundAmount_def)

text \<open>
  C37. A settled intent passes the refund endpoint's own status check but not the state machine,
  whose terminal-state guard comes first: the rail refunds the money, the refund row and the
  refunded total are kept, and the answer is nevertheless 409 with the intent still \<open>settled\<close>.
\<close>

theorem refund_settled_conflict:
  assumes I: "svStoreI svc = MemStore" and i: "ms_intents (svStore svc) iid = Some i"
    and st: "iStatus i = StatusSettled"
    and n: "refundAmount amt i = Inr n" "sint (iRefundedAmount i + n) \<le> sint (iCapturedAmount i)"
    and a: "Registry_For (svRails svc) (iRail i) = Some a" "ad_Refund a i n = (None, i)"
  shows "\<exists>svc' i' x. refundHandle e amt iid svc =
      (HRet 409 (Some (BError ''refund not allowed from current state'')), svc') \<and>
    ms_intents (svStore svc') iid = Some i' \<and> iStatus i' = StatusSettled \<and>
    iRefundedAmount i' = iRefundedAmount i + n \<and> reAmount x = n \<and>
    mem_RefundsFor (iID i) (svStore svc') = mem_RefundsFor (iID i) (svStore svc) @ [x]"
proof -
  let ?i = "i\<lparr>iRefundedAmount := iRefundedAmount i + n\<rparr>"
  let ?x = "\<lparr>reID = envUUID e 1, reIntentID = iID i, reAmount = n, reExternalRef = iExternalID i,
    reRefundedAt = envNow e 4, reState = ''refunded''\<rparr>"
  have "refundFn e (svRails svc) amt i (fx_of svc) =
      (FnErr ErrTerminalState, ?i, (fx_of svc)\<lparr>fxRefund := Some ?x\<rparr>)"
    using st n a by (simp add: refundFn_def refundDone_def Transition_def Let_def not_less)
  from mem_updateIntent [where fn = "refundFn e (svRails svc) amt" and t = "envNow e 11", OF I i this]
  show ?thesis
    using I st
    by (simp add: refundHandle_def updres_of_def refundErr_def addRefund_def put_fx_def
        mem_AddRefund_def mem_RefundsFor_def slice_at_upd)
qed

theorem refund_settled_conflict_witness:
  "\<exists>svc' i'. refundHandle (demo_env ''u'' 0) None ''p1'' (demo_with (demo_intent StatusSettled 100)) =
      (HRet 409 (Some (BError ''refund not allowed from current state'')), svc') \<and>
    ms_intents (svStore svc') ''p1'' = Some i' \<and> iStatus i' = StatusSettled \<and> iRefundedAmount i' = 100"
  using refund_settled_conflict [of "demo_with (demo_intent StatusSettled 100)" "''p1''"
      "demo_intent StatusSettled 100" None 100 "DummyAdapter NewDummy" "demo_env ''u'' 0"]
  by (auto simp: refundAmount_def)

section \<open>Create\<close>

text \<open>
  Creation validates before it does anything: a request without an idempotency key, with an
  undecodable body, an unknown rail, an amount that is not positive, no currency, no payer, or 3DS
  on a rail other than card is answered 400 and leaves the service exactly as it was.
\<close>

lemma create_validates:
  assumes "key = '''' \<or> body = None \<or> (\<exists>req. body = Some req \<and>
    (\<not> IsValidRail (ciRail req) \<or> sint (ciAmount req) \<le> 0 \<or> ciCurrency req = '''' \<or>
     ciPayerRef req = '''' \<or> (ciThreeDSRequired req \<and> ciRail req \<noteq> RailCard)))"
  shows "\<exists>msg. CreateIntent e key body svc = (Some (respondError 400 msg), svc)"
  using assms by (auto simp: CreateIntent_def createInvalid_def)

lemma create_validates_witness:
  "\<exists>msg. CreateIntent (demo_env ''u'' 0) ''k'' (Some (demo_req ''paypal'' 100)) demo_service =
     (Some (respondError 400 msg), demo_service)"
  by (rule create_validates) (simp add: demo_req_def IsValidRail_def)

text \<open>
  The fraud gate stands before the rails: an intent the fraud service blocks is stored as
  \<open>failed\<close> and answered 403, whatever the rail adapters are; none of them is consulted.
\<close>

lemma create_fraud_blocked:
  assumes "svStoreI svc = MemStore" "\<not> ciThreeDSRequired req"
    and "fr_Score (svFraud svc) (newIntent e key req) = Inr dec" "\<not> dcAllowed dec"
  shows "\<exists>svc' j. (\<forall>rg. createHandle e key req (svc\<lparr>svRails := rg\<rparr>) =
      (HRet 403 (Some (BError ''intent blocked by fraud detection'')), svc'\<lparr>svRails := rg\<rparr>)) \<and>
    ms_intents (svStore svc') (envUUID e 0) = Some j \<and> iStatus j = StatusFailed \<and>
    iCapturedAmount j = 0"
proof -
  let ?j = "snd (transAt e 5 StatusFailed (''blocked by fraud: '' @ dcReason dec) (newIntent e key req))"
  have "createHandle e key req (svc\<lparr>svRails := rg\<rparr>) =
      (HRet 403 (Some (BError ''intent blocked by fraud detection'')),
       (emitSvcAt e 7 ?j StatusIntent StatusFailed ''fraud blocked''
            (storeOp (\<lambda>I. st_CreateIntent I ?j) svc))\<lparr>svRails := rg\<rparr>)" for rg
    using assms
    by (simp add: createHandle_def Let_def createFailed_def emitTransition_def put_fx_def fx_of_def)
  moreover have "iID ?j = envUUID e 0" "iStatus ?j = StatusFailed" "iCapturedAmount ?j = 0"
    by (simp_all add: newIntent_def cb_unfold)
  ultimately show ?thesis
    using assms(1) by (intro exI conjI allI) (assumption | simp add: mem_CreateIntent_def)+
qed

lemma create_fraud_blocked_example:
  "\<exists>svc' j. createHandle (demo_env ''u'' 0) ''k'' (demo_req RailCard 100)
      (demo_service\<lparr>svFraud := FraudDummyClient \<lparr>FailScore = True\<rparr>\<rparr>) =
      (HRet 403 (Some (BError ''intent blocked by fraud detection'')), svc') \<and>
    ms_intents (svStore svc') ''u'' = Some j \<and> iStatus j = StatusFailed"
proof -
  let ?svc = "demo_service\<lparr>svFraud := FraudDummyClient \<lparr>FailScore = True\<rparr>\<rparr>"
  have "svStoreI ?svc = MemStore" by (simp add: demo_service_def NewService_def)
  from create_fraud_blocked [OF this, of "demo_req RailCard 100" "demo_env ''u'' 0" "''k''"
      "\<lparr>dcAllowed = False, dcReason = ''fraud score below threshold'', dcScore = 99\<rparr>"]
  obtain svc' j where c: "\<And>rg. createHandle (demo_env ''u'' 0) ''k'' (demo_req RailCard 100)
      (?svc\<lparr>svRails := rg\<rparr>) =
      (HRet 403 (Some (BError ''intent blocked by fraud detection'')), svc'\<lparr>svRails := rg\<rparr>)"
    "ms_intents (svStore svc') ''u'' = Some j" "iStatus j = StatusFailed"
    by (auto simp: demo_req_def FraudDummyClient_def fraud_dummy_Score_def)
  have "?svc = ?svc\<lparr>svRails := svRails ?svc\<rparr>" by simp
  with c(1) [of "svRails ?svc"] c(2,3) show ?thesis
    by (intro exI [of _ "svc'\<lparr>svRails := svRails ?svc\<rparr>"] exI [of _ j]) simp
qed

text \<open>
  A card payment that requires 3DS is stored as \<open>3ds_pending\<close> and answered 201; neither the
  rail nor the fraud service is consulted at that point.
\<close>

lemma create_3ds_pending:
  assumes "svStoreI svc = MemStore" "ciThreeDSRequired req"
  shows "\<exists>svc' j. (\<forall>rg fr. createHandle e key req (svc\<lparr>svRails := rg, svFraud := fr\<rparr>) =
      (HRet 201 (Some (BIntent j)), svc'\<lparr>svRails := rg, svFraud := fr\<rparr>)) \<and>
    ms_intents (svStore svc') (envUUID e 0) = Some j \<and> iStatus j = Status3DSPending"
proof -
  obtain j where j: "transAt e 5 Status3DSPending ''3ds challenge required'' (newIntent e key req) = (None, j)"
    "iID j = envUUID e 0" "iStatus j = Status3DSPending"
    by (simp add: newIntent_def cb_unfold)
  have "createHandle e key req (svc\<lparr>svRails := rg, svFraud := fr\<rparr>) =
      (HRet 201 (Some (BIntent j)),
       (emitSvcAt e 7 j StatusIntent Status3DSPending ''3ds required''
            (storeOp (\<lambda>I. st_CreateIntent I j) svc))\<lparr>svRails := rg, svFraud := fr\<rparr>)" for rg fr
    using assms j
    by (simp add: createHandle_def Let_def create3DS_def emitTransition_def put_fx_def fx_of_def)
  with assms(1) j(2,3) show ?thesis
    by (intro exI conjI allI) (assumption | simp add: mem_CreateIntent_def)+
qed

lemma create_3ds_pending_witness:
  "\<exists>svc' j. createHandle (demo_env ''u'' 0) ''k'' ((demo_req RailCard 100)\<lparr>ciThreeDSRequired := True\<rparr>)
      demo_service = (HRet 201 (Some (BIntent j)), svc') \<and>
    ms_intents (svStore svc') ''u'' = Some j \<and> iStatus j = Status3DSPending"
proof -
  have "svStoreI demo_service = MemStore" by (simp add: demo_service_def NewService_def)
  from create_3ds_pending [OF this, of "(demo_req RailCard 100)\<lparr>ciThreeDSRequired := True\<rparr>"
      "demo_env ''u'' 0" "''k''"]
  obtain svc' j where c: "\<And>rg fr. createHandle (demo_env ''u'' 0) ''k''
      ((demo_req RailCard 100)\<lparr>ciThreeDSRequired := True\<rparr>) (demo_service\<lparr>svRails := rg, svFraud := fr\<rparr>) =
      (HRet 201 (Some (BIntent j)), svc'\<lparr>svRails := rg, svFraud := fr\<rparr>)"
    "ms_intents (svStore svc') ''u'' = Some j" "iStatus j = Status3DSPending" by auto
  have "demo_service = demo_service\<lparr>svRails := svRails demo_service, svFraud := svFraud demo_service\<rparr>" by simp
  with c(1) [of "svFraud demo_service" "svRails demo_service"] c(2,3) show ?thesis
    by (intro exI [of _ "svc'\<lparr>svRails := svRails demo_service, svFraud := svFraud demo_service\<rparr>"]
        exI [of _ j]) simp
qed

text \<open>
  On an instant rail (PIX, UPI) an accepted submission authorizes and captures in one
  request: the intent is stored as \<open>captured\<close>, answered 201, and one capture row is recorded with
  the amount the adapter reports as captured.
\<close>

lemma create_instant_captured:
  assumes I: "svStoreI svc = MemStore" and rg: "rails_ok (svRails svc)"
    and req: "\<not> ciThreeDSRequired req" "IsInstant (ciRail req)"
    and fr: "fr_Score (svFraud svc) (newIntent e key req) = Inr dec" "dcAllowed dec"
    and a: "Registry_For (svRails svc) (ciRail req) = Some a"
      "ad_Submit a (newIntent e key req) = (None, i1)"
  shows "\<exists>svc' j c. createHandle e key req svc = (HRet 201 (Some (BIntent j)), svc') \<and>
    ms_intents (svStore svc') (envUUID e 0) = Some j \<and> iStatus j = StatusCaptured \<and>
    iCapturedAmount j = iCapturedAmount i1 \<and> caAmount c = iCapturedAmount i1 \<and>
    mem_CapturesFor (envUUID e 0) (svStore svc') = mem_CapturesFor (envUUID e 0) (svStore svc) @ [c]"
proof -
  obtain x n where i1: "i1 = (newIntent e key req)\<lparr>iExternalID := x, iCapturedAmount := n\<rparr>"
    using rail_adapter.submit_ok [OF rails_okD [OF rg a(1)] a(2)] by blast
  obtain i2 where i2: "transAt e 5 StatusAuthorized ''instant rail authorized via submit'' i1 = (None, i2)"
    "iStatus i2 = StatusAuthorized" "iID i2 = envUUID e 0" "iCapturedAmount i2 = n"
    by (simp add: i1 newIntent_def cb_unfold)
  then obtain i3 where i3: "transAt e 9 StatusCaptured ''instant rail captured via submit'' i2 = (None, i3)"
    "iStatus i3 = StatusCaptured" "iID i3 = envUUID e 0" "iCapturedAmount i3 = n"
    by (simp add: cb_unfold)
  from I req fr a i1 i2 i3 show ?thesis
    by (simp add: createHandle_def Let_def createInstant_def mem_CreateIntent_def mem_AddCapture_def
        mem_CapturesFor_def slice_at_upd)
qed

lemma create_instant_captured_example:
  "\<exists>svc' j c. createHandle (demo_env ''u'' 0) ''k'' (demo_req RailPIX 100) demo_service =
      (HRet 201 (Some (BIntent j)), svc') \<and>
    ms_intents (svStore svc') ''u'' = Some j \<and> iStatus j = StatusCaptured \<and>
    mem_CapturesFor ''u'' (svStore svc') = [c] \<and> caAmount c = 100"
proof -
  have svc: "svStoreI demo_service = MemStore" "rails_ok (svRails demo_service)"
    "svFraud demo_service = FraudDummyClient NewFraudDummy" "svRails demo_service = NewRegistry NewDummy"
    "mem_CapturesFor ''u'' (svStore demo_service) = []"
    by (simp_all add: demo_service_def NewService_def rails_ok_dummy mem_CapturesFor_def slice_at_def
        NewMemStore_def)
  show ?thesis
    using create_instant_captured [OF svc(1,2), of "demo_req RailPIX 100" "demo_env ''u'' 0" "''k''"
        "\<lparr>dcAllowed = True, dcReason = '''', dcScore = 0\<rparr>" "DummyAdapter NewDummy"]
    by (simp add: svc demo_req_def IsInstant_def FraudDummyClient_def fraud_dummy_Score_def
        NewFraudDummy_def dummy_defs NewDummy_def newIntent_def) metis
qed

section \<open>3DS challenge\<close>

text \<open>
  C20. The 3DS gate: a challenge authorizes an intent only if the intent was waiting for it, the
  challenge window has not passed, the MPI accepts the assertion, the rail's own 3DS verification
  passes and the rail authorizes.
\<close>

theorem threeDS_gate:
  assumes "rails_ok rg" and "threeDSFn e window mpi rg res i w = (FnOk, i', w')"
  shows "iStatus i = Status3DSPending \<and> iStatus i' = StatusAuthorized \<and>
    \<not> is3DSExpired window (envNow e 4) i \<and> mp_Resume mpi i res = None \<and>
    (\<exists>a. Registry_For rg (iRail i) = Some a \<and> fst (ad_Verify3DS a i res) = None \<and>
         fst (ad_Authorize a i) = None)"
  using assms
proof (cases rule: threeDSFn_cases)
  case (auth a)
  then show ?thesis
    by (auto simp: threeDSAuthorize_def threeDSFail_def Transition_def Let_def split: cb_splits)
qed (auto simp: threeDSFail_def Let_def)

theorem threeDS_gate_witness:
  "\<exists>i' w'. threeDSFn (demo_env ''u'' 0) 300 (MPIDummyClient NewMPIDummy) (NewRegistry NewDummy) ''otp''
     (demo_intent Status3DSPending 0) (fx_of demo_service) = (FnOk, i', w') \<and>
     iStatus i' = StatusAuthorized"
proof -
  have "fst (threeDSFn (demo_env ''u'' 0) 300 (MPIDummyClient NewMPIDummy) (NewRegistry NewDummy) ''otp''
     (demo_intent Status3DSPending 0) (fx_of demo_service)) = FnOk" by code_simp
  from fst_triple [OF this] obtain i' w' where c:
    "threeDSFn (demo_env ''u'' 0) 300 (MPIDummyClient NewMPIDummy)
     (NewRegistry NewDummy) ''otp'' (demo_intent Status3DSPending 0) (fx_of demo_service) = (FnOk, i', w')"
    by blast
  from threeDS_gate [OF rails_ok_dummy c] c show ?thesis by blast
qed

text \<open>
  A challenge on a waiting intent decides it: the intent leaves \<open>3ds_pending\<close> for
  \<open>authorized\<close> when every step succeeds and for \<open>failed\<close> otherwise, so no assertion can be tried
  twice on one intent. (The rail of the intent has an adapter.)
\<close>

lemma threeDS_decides:
  assumes rg: "rails_ok rg" and a: "Registry_For rg (iRail i) = Some a"
    and i: "iStatus i = Status3DSPending"
    and f: "threeDSFn e window mpi rg res i w = (r, i', w')"
  shows "if r = FnOk then iStatus i' = StatusAuthorized else iStatus i' = StatusFailed"
  using rg f
proof (cases rule: threeDSFn_cases)
  case same
  with i a show ?thesis by simp
next
  case (fail d ed err)
  with i show ?thesis by (auto simp: threeDSFail_def cb_unfold)
next
  case (auth b)
  obtain x where "snd (ad_Authorize b i) = i\<lparr>iExternalID := x\<rparr>"
    using rail_adapter.authorize_frame [OF auth(3)] by blast
  with auth i show ?thesis
    by (auto simp: threeDSAuthorize_def threeDSFail_def cb_unfold split: cb_splits)
qed

lemma threeDS_decides_example:
  "\<exists>r i' w'. threeDSFn (demo_env ''u'' 0) 300 (MPIDummyClient NewMPIDummy) (NewRegistry NewDummy) ''fail''
     (demo_intent Status3DSPending 0) (fx_of demo_service) = (r, i', w') \<and>
     (if r = FnOk then iStatus i' = StatusAuthorized else iStatus i' = StatusFailed)"
proof -
  obtain r i' w' where c: "threeDSFn (demo_env ''u'' 0) 300 (MPIDummyClient NewMPIDummy)
     (NewRegistry NewDummy) ''fail'' (demo_intent Status3DSPending 0) (fx_of demo_service) = (r, i', w')"
    using prod_cases3 by blast
  have "Registry_For (NewRegistry NewDummy) (iRail (demo_intent Status3DSPending 0)) =
      Some (DummyAdapter NewDummy)" "iStatus (demo_intent Status3DSPending 0) = Status3DSPending" by simp_all
  from threeDS_decides [OF rails_ok_dummy this c] c show ?thesis by blast
qed

text \<open>
  A rail without an adapter (the nil adapter of a partially configured registry) makes the
  capture of an authorized card payment panic: the intent is unchanged, and with the idempotency
  store installed the claim on the key stays held, so a retry within its time-to-live is answered
  409 instead of being executed.
\<close>

lemma nil_adapter_panics:
  assumes I: "svStoreI svc = MemStore" "svIdemI svc = Some IdemMem"
    and key: "key \<noteq> ''''" "svIdem svc (idemKey (''capture:'' @ iid) key) = None"
    and i: "ms_intents (svStore svc) iid = Some i" "iRail i = RailCard" "iStatus i = StatusAuthorized"
      "iCapturedAmount i = 0" "Registry_For (svRails svc) RailCard = None"
    and t: "envNow e2 0 < time_Add (envNow e 1) (svIdemTTL svc)"
      "envNow e2 1 < time_Add (envNow e 1) (svIdemTTL svc)"
  shows "\<exists>svc'. Capture e iid key NoBody svc = (None, svc') \<and>
    ms_intents (svStore svc') = ms_intents (svStore svc) \<and>
    Capture e2 iid key NoBody svc' = (Some (respondError 409 ''idempotency key in flight''), svc')"
proof -
  let ?k = "idemKey (''capture:'' @ iid) key"
  define m where "m = snd (im_Claim (envNow e 1) ?k (svIdemTTL svc) (svIdem svc))"
  define svc1 where "svc1 = svc\<lparr>svIdem := m\<rparr>"
  have claim: "im_Claim (envNow e 1) ?k (svIdemTTL svc) (svIdem svc) = (Inr True, m)"
    using key(2) by (simp add: m_def im_Claim_def)
  have fn: "captureFn e (svRails svc1) None i (fx_of svc1) = (FnPanic, i, fx_of svc1)"
    using i by (simp add: captureFn_def captureAmount_def svc1_def)
  have st: "svStoreI svc1 = MemStore" "ms_intents (svStore svc1) iid = Some i"
    using I i by (simp_all add: svc1_def)
  have "put_fx (fx_of svc1) svc1 = svc1" by (simp add: put_fx_def fx_of_def)
  with mem_updateIntent [where fn = "captureFn e (svRails svc1) None" and t = "envNow e 9", OF st fn] i(1)
  have h: "captureHandle e None iid svc1 = (HPanic, svc1)"
    by (simp add: captureHandle_def updres_of_def svc1_def map_upd_triv)
  have "Capture e iid key NoBody svc = (None, svc1)"
    using I key claim h
    by (simp add: Capture_def replayOrContinue_def replayOrContinueStore_def Let_def
        im_LookupResponse_def svc1_def)
  moreover have "Capture e2 iid key NoBody svc1 =
      (Some (respondError 409 ''idempotency key in flight''), svc1)"
    using idem_svc.in_flight_refused [of "envNow e 1" "''capture:'' @ iid" key "svIdemTTL svc"
        "svIdem svc" svc1 e2] claim I key t by (simp add: Capture_def svc1_def)
  ultimately show ?thesis by (simp add: svc1_def)
qed

lemma nil_adapter_panics_example:
  "\<exists>svc'. Capture (demo_env ''u'' 0) ''p1'' ''k'' NoBody
      ((WithIdempotencyStore IdemMem NewMem 0 (demo_with (demo_intent StatusAuthorized 0)))
        \<lparr>svRails := NewRegistryFromMap Map.empty None\<rparr>) = (None, svc') \<and>
    Capture (demo_env ''v'' 5) ''p1'' ''k'' NoBody svc' =
      (Some (respondError 409 ''idempotency key in flight''), svc')"
proof -
  let ?svc = "(WithIdempotencyStore IdemMem NewMem 0 (demo_with (demo_intent StatusAuthorized 0)))
        \<lparr>svRails := NewRegistryFromMap Map.empty None\<rparr>"
  have "\<exists>svc'. Capture (demo_env ''u'' 0) ''p1'' ''k'' NoBody ?svc = (None, svc') \<and>
    ms_intents (svStore svc') = ms_intents (svStore ?svc) \<and>
    Capture (demo_env ''v'' 5) ''p1'' ''k'' NoBody svc' =
      (Some (respondError 409 ''idempotency key in flight''), svc')"
    by (rule nil_adapter_panics [where i = "demo_intent StatusAuthorized 0"])
       (simp_all add: WithIdempotencyStore_def NewMem_def Registry_For_def NewRegistryFromMap_def
          demo_env_def time_Add_def idemTTL_def)
  then show ?thesis by blast
qed

end
