(* ===== verification/WebhookProps.thy ===== *)
theory WebhookProps
  imports Scenario
begin

text \<open>
  Properties of the webhook endpoint: authentication, replay window, de-duplication, settlement and
  chargebacks, each with an instance on a concrete service.
\<close>

definition demo_webhook :: "string \<Rightarrow> string \<Rightarrow> int64 \<Rightarrow> webhookBody" where
  "demo_webhook ty stage n = \<lparr>wbPaymentID = ''p1'', wbType = ty, wbExternalEventID = ''ev1'',
     wbTimestamp = 0, wbAmount = n, wbReason = '''', wbCaseRef = ''case1'', wbStage = stage, wbRailRef = ''r''\<rparr>"

section \<open>Requests on the in-memory store\<close>

lemma mem_updateIntent_frame:
  assumes "svStoreI svc = MemStore" "updateIntent t iid fn svc = (r, w, svc')"
  shows "svStoreI svc' = MemStore \<and> (\<exists>m. svStore svc' = (svStore svc)\<lparr>ms_intents := m\<rparr>)"
  using assms
  by (auto simp: updateIntent_def mem_UpdateIntent_def put_fx_def split: option.splits prod.splits
      intro: exI [of _ "ms_intents (svStore svc)"])

section \<open>Authentication and de-duplication\<close>



text \<open>
  C25. The replay window is exact for plausible clocks: a correctly signed webhook with a timestamp
  is accepted exactly when the timestamp is within the window of the clock, as long as the two are
  less than about 292 years apart and the timestamp is one that \<open>time.Unix\<close> can represent.
\<close>

theorem replay_window_accepts_iff:
  assumes ok: "IsValidRail rl" "svWebhookKeys svc rl = Some key" "key \<noteq> []"
      "verifyHMAC (envHMAC e) key b sig"
    and ts: "wbTimestamp (decode b) \<noteq> 0" "\<bar>sint (wbTimestamp (decode b))\<bar> < 2 ^ 62"
      "\<bar>envNow e 0 - sint (wbTimestamp (decode b)) * 1000000000\<bar> \<le> max_int64"
  shows "webhookCheck e decode rl (Some b) sig svc = Inr (decode b) \<longleftrightarrow>
    \<bar>envNow e 0 - sint (wbTimestamp (decode b)) * 1000000000\<bar> \<le> sint (svReplayWindow svc)"
proof -
  have "sint (wbTimestamp (decode b) + unixToInternal) = sint (wbTimestamp (decode b)) + sint unixToInternal"
    using ts(2) by (intro sint_add_small [THEN trans]) (auto simp: unixToInternal_def)
  then have "time_Unix (wbTimestamp (decode b)) = sint (wbTimestamp (decode b)) * 1000000000"
    by (simp add: time_Unix_def)
  with ok ts(1) replay_window_exact [OF ts(3)] show ?thesis
    by (auto simp: webhookCheck_def Let_def)
qed

theorem replay_window_accepts_iff_witness:
  "webhookCheck ((demo_env ''u'' 0)\<lparr>envNow := (\<lambda>k. 1000000000000)\<rparr>)
     (\<lambda>b. (demo_webhook ''settlement'' '''' 5)\<lparr>wbTimestamp := 900\<rparr>) ''card'' (Some ''b'')
     (hex_EncodeToString ''sb'') demo_service =
   Inr ((demo_webhook ''settlement'' '''' 5)\<lparr>wbTimestamp := 900\<rparr>)"
  using replay_window_accepts_iff [of "''card''" demo_service "''s''"
      "(demo_env ''u'' 0)\<lparr>envNow := (\<lambda>k. 1000000000000)\<rparr>" "''b''" "hex_EncodeToString ''sb''"
      "\<lambda>b. (demo_webhook ''settlement'' '''' 5)\<lparr>wbTimestamp := 900\<rparr>"]
  by (simp add: IsValidRail_def demo_service_def NewService_def verifyHMAC_def demo_env_def max_int64_def
      strings_TrimPrefix_def hex_no_prefix hex_EncodeToString_def)

text \<open>
  Beyond that range the window does not hold: a correctly signed webhook dated more than about
  292 years after the clock is accepted whatever the window, because the saturated difference is
  the smallest duration and its absolute value stays negative.
\<close>

lemma replay_window_far_future_accepted:
  assumes ok: "IsValidRail rl" "svWebhookKeys svc rl = Some key" "key \<noteq> []"
      "verifyHMAC (envHMAC e) key b sig"
    and ts: "envNow e 0 - time_Unix (wbTimestamp (decode b)) < min_int64"
  shows "webhookCheck e decode rl (Some b) sig svc = Inr (decode b)"
  using ok replay_window_far_future [OF ts] sint_int64_bounds(1) [of "svReplayWindow svc"]
  by (simp add: webhookCheck_def Let_def)

lemma replay_window_far_future_accepted_witness:
  "webhookCheck (demo_env ''u'' 0)
     (\<lambda>b. (demo_webhook ''settlement'' '''' 5)\<lparr>wbTimestamp := 10000000000\<rparr>) ''card'' (Some ''b'')
     (hex_EncodeToString ''sb'') demo_service =
   Inr ((demo_webhook ''settlement'' '''' 5)\<lparr>wbTimestamp := 10000000000\<rparr>)"
proof -
  have t: "time_Unix (10000000000 :: int64) = 10000000000000000000"
    by (simp add: time_Unix_def unixToInternal_def)
  show ?thesis
    using replay_window_far_future_accepted [of "''card''" demo_service "''s''" "demo_env ''u'' 0" "''b''"
        "hex_EncodeToString ''sb''" "\<lambda>b. (demo_webhook ''settlement'' '''' 5)\<lparr>wbTimestamp := 10000000000\<rparr>"]
    by (simp add: t IsValidRail_def demo_service_def NewService_def verifyHMAC_def demo_env_def min_int64_def
        strings_TrimPrefix_def hex_no_prefix hex_EncodeToString_def)
qed

lemma processWebhook_webhooks:
  assumes I: "svStoreI svc = MemStore"
  shows "svStoreI (snd (processWebhook e rl wb svc)) = MemStore \<and>
    ms_webhooks (svStore (snd (processWebhook e rl wb svc))) = ms_webhooks (svStore svc)"
proof -
  have upd: "svStoreI (snd (snd (updateIntent t iid fn svc'))) = MemStore \<and>
      ms_webhooks (svStore (snd (snd (updateIntent t iid fn svc')))) = ms_webhooks (svStore svc')"
    if "svStoreI svc' = MemStore" for t iid fn and svc' :: "(memstore, 'b) service"
    using mem_updateIntent_frame [OF that, of t iid fn] by (cases "updateIntent t iid fn svc'") auto
  have cb: "ms_webhooks (snd (mem_UpdateChargeback ord ref f s)) = ms_webhooks s" for ord ref f s
    using mem_UpdateChargeback_frame [of ord ref f s] by auto
  show ?thesis
    using I
    by (auto simp: processWebhook_def handleSettlementWebhook_def addSettlement_def
        handleChargebackWebhook_def chargebackNew_def chargebackKnown_def Let_def case_prod_beta upd cb
        mem_AddSettlement_def mem_AddChargeback_def split: option.split)
qed

lemma webhook_recorded:
  assumes I: "svStoreI svc = MemStore" and wb: "wbExternalEventID wb \<noteq> ''''"
  shows "ms_webhooks (svStore (snd (deliverWebhook e rl wb svc))) (webhookKey rl (wbExternalEventID wb))
    \<noteq> None"
proof -
  let ?k = "webhookKey rl (wbExternalEventID wb)"
  let ?wh = "\<lparr>whID = envUUID e 0, whRail = rl, whExternalEventID = wbExternalEventID wb,
    whSignature = ''verified'', whReceivedAt = envNow e 1, whProcessedAt = None\<rparr>"
  define svc1 where "svc1 = svc\<lparr>svStore := (svStore svc)\<lparr>ms_webhooks := (ms_webhooks (svStore svc))(?k \<mapsto> ?wh)\<rparr>,
    svMetrics := IncWebhookBacklog (svMetrics svc)\<rparr>"
  obtain resp svc2 where p: "processWebhook e rl wb svc1 = (resp, svc2)" by fastforce
  have I2: "svStoreI svc2 = MemStore" "ms_webhooks (svStore svc2) ?k = Some ?wh"
    using processWebhook_webhooks [of svc1 e rl wb] I p by (simp_all add: svc1_def)
  show ?thesis
  proof (cases "ms_webhooks (svStore svc) ?k")
    case None
    then have "snd (deliverWebhook e rl wb svc) = svc2\<lparr>svMetrics := DecWebhookBacklog (svMetrics svc2),
        svStore := mem_MarkWebhookProcessed (envNow e 15) rl (wbExternalEventID wb) (svStore svc2)\<rparr>"
      using I wb p I2(1) by (simp add: deliverWebhook_def mem_RecordWebhook_def svc1_def)
    with I2(2) show ?thesis by (simp add: mem_MarkWebhookProcessed_def)
  qed (use I wb in \<open>simp add: deliverWebhook_def mem_RecordWebhook_def\<close>)
qed


lemma demo_check:
  assumes "svWebhookKeys svc ''card'' = Some ''s''"
  shows "webhookCheck (demo_env u t) demo_decode ''card'' (Some b) (hex_EncodeToString (''s'' @ b)) svc =
    Inr (demo_decode b)"
proof -
  have "hex_EncodeToString (''s'' @ b) \<noteq> []" by (simp add: hex_EncodeToString_def)
  then have "verifyHMAC (\<lambda>k b. k @ b) ''s'' b (hex_EncodeToString (''s'' @ b))"
    using TrimPrefix_iff [OF hex_no_prefix, of "''s'' @ b" "hex_EncodeToString (''s'' @ b)"]
    by (simp add: verifyHMAC_def)
  with assms show ?thesis
    by (simp add: webhookCheck_def IsValidRail_def demo_env_def demo_decode_def)
qed


section \<open>Settlement\<close>

text \<open>
  C27. A settlement webhook on a captured intent settles it: the settled total grows by the
  webhook's amount, one settlement row with that amount is added, and a reconciliation break is
  noted in the history exactly when the settled and captured totals differ.
\<close>

theorem settlement_settles:
  assumes I: "svStoreI svc = MemStore" and i: "ms_intents (svStore svc) (wbPaymentID wb) = Some i"
    and st: "iStatus i = StatusCaptured"
  shows "\<exists>svc' i' x evs. handleSettlementWebhook e rl wb svc = (received, svc') \<and>
    ms_intents (svStore svc') (wbPaymentID wb) = Some i' \<and> iStatus i' = StatusSettled \<and>
    iSettledAmount i' = iSettledAmount i + wbAmount wb \<and> iCapturedAmount i' = iCapturedAmount i \<and>
    mem_SettlementsFor (iID i) (svStore svc') = mem_SettlementsFor (iID i) (svStore svc) @ [x] \<and>
    seSettledAmount x = wbAmount wb \<and> iHistory i' = iHistory i @ evs \<and>
    (EventReconciliation \<in> evType ` set evs \<longleftrightarrow> iSettledAmount i' \<noteq> iCapturedAmount i')"
proof -
  obtain r i' w' where f: "settlementFn e rl wb i (fx_of svc) = (r, i', w')"
    by (cases "settlementFn e rl wb i (fx_of svc)")
  note defs = settlementFn_def cb_unfold
  have i': "r = FnOk" "iStatus i' = StatusSettled" "iSettledAmount i' = iSettledAmount i + wbAmount wb"
      "iCapturedAmount i' = iCapturedAmount i"
    using f st by (auto simp: defs split: if_splits)
  obtain x where x: "fxSettlement w' = Some x" "seSettledAmount x = wbAmount wb" "seIntentID x = iID i"
    using f st by (auto simp: defs split: if_splits)
  have h: "\<exists>evs. iHistory i' = iHistory i @ evs \<and>
      (EventReconciliation \<in> evType ` set evs \<longleftrightarrow> iSettledAmount i' \<noteq> iCapturedAmount i')"
    using f st by (auto simp: defs split: if_splits)
  have "updateIntent (envNow e 13) (wbPaymentID wb) (settlementFn e rl wb) svc = (UpdOk i', w',
      put_fx w' (svc\<lparr>svStore := (svStore svc)\<lparr>ms_intents := (ms_intents (svStore svc))(wbPaymentID wb \<mapsto> i')\<rparr>\<rparr>))"
    using I i f i'(1) by (simp add: updateIntent_def mem_UpdateIntent_def)
  with I i' x h show ?thesis
    by (simp add: handleSettlementWebhook_def webhookResult_def addSettlement_def put_fx_def
        mem_AddSettlement_def mem_SettlementsFor_def slice_at_upd)
qed

theorem settlement_settles_witness:
  "\<exists>svc' i'. handleSettlementWebhook (demo_env ''u'' 0) ''card'' (demo_webhook ''settlement'' '''' 90)
      (demo_with (demo_intent StatusCaptured 100)) = (received, svc') \<and>
    ms_intents (svStore svc') ''p1'' = Some i' \<and> iStatus i' = StatusSettled \<and>
    EventReconciliation \<in> evType ` set (iHistory i')"
  using settlement_settles [of "demo_with (demo_intent StatusCaptured 100)" "demo_webhook ''settlement'' '''' 90"
      "demo_intent StatusCaptured 100" "demo_env ''u'' 0" "''card''"]
  by (auto simp: demo_webhook_def)

text \<open>
  A settlement webhook for an intent in any other status is only noted: the answer is the
  same, but totals, status, rows and the audit log are untouched.
\<close>

lemma settlement_ignored:
  assumes I: "svStoreI svc = MemStore" and i: "ms_intents (svStore svc) (wbPaymentID wb) = Some i"
    and st: "iStatus i \<noteq> StatusCaptured"
  shows "handleSettlementWebhook e rl wb svc = (received, svc\<lparr>svStore := (svStore svc)\<lparr>ms_intents :=
      (ms_intents (svStore svc))(wbPaymentID wb \<mapsto>
        appendAt e 4 EventWebhook (rl @ '':settlement (ignored)'') i)\<rparr>\<rparr>)"
  using assms
  by (simp add: handleSettlementWebhook_def updateIntent_def mem_UpdateIntent_def settlementFn_def
      webhookResult_def addSettlement_def put_fx_def fx_of_def)

lemma settlement_ignored_witness:
  "fst (handleSettlementWebhook (demo_env ''u'' 0) ''card'' (demo_webhook ''settlement'' '''' 90)
      (demo_with (demo_intent StatusAuthorized 0))) = received"
  using settlement_ignored [of "demo_with (demo_intent StatusAuthorized 0)" "demo_webhook ''settlement'' '''' 90"
      "demo_intent StatusAuthorized 0" "demo_env ''u'' 0" "''card''"]
  by (simp add: demo_webhook_def)

section \<open>Chargebacks\<close>

lemma find_case_new:
  "\<forall>c \<in> set cs. cbCaseRef c \<noteq> ref \<Longrightarrow> find (\<lambda>c. cbCaseRef c = ref) cs = None"
  by (simp add: find_None_iff)

text \<open>
  Opening a dispute on a captured intent moves the intent to \<open>charged_back\<close> and records the
  dispute with the case reference, amount and stage of the webhook.
\<close>

lemma chargeback_opened:
  assumes I: "svStoreI svc = MemStore" and i: "ms_intents (svStore svc) (wbPaymentID wb) = Some i"
    and st: "iStatus i = StatusCaptured" and wb: "wbStage wb = ''opened''" "wbCaseRef wb \<noteq> ''''"
    and new: "\<forall>c \<in> set (mem_ChargebacksFor (wbPaymentID wb) (svStore svc)). cbCaseRef c \<noteq> wbCaseRef wb"
  shows "\<exists>svc' i' c. handleChargebackWebhook e rl wb svc = (received, svc') \<and>
    ms_intents (svStore svc') (wbPaymentID wb) = Some i' \<and> iStatus i' = StatusChargedBack \<and>
    cbCaseRef c = wbCaseRef wb \<and> cbAmount c = wbAmount wb \<and> cbStage c = StageOpened \<and>
    mem_ChargebacksFor (wbPaymentID wb) (svStore svc') =
      mem_ChargebacksFor (wbPaymentID wb) (svStore svc) @ [c]"
  using I i wb st find_case_new [OF new]
  by (simp add: handleChargebackWebhook_def IsValidChargebackStage_def chargebackNew_def Let_def
      updateIntent_def mem_UpdateIntent_def mem_AddChargeback_def webhookResult_def put_fx_def
      mem_ChargebacksFor_def slice_at_upd chargebackOpenedFn_def Transition_def CanTransition_def)

lemma chargeback_opened_witness:
  "\<exists>svc' i'. handleChargebackWebhook (demo_env ''u'' 0) ''card'' (demo_webhook ''chargeback'' ''opened'' 100)
      (demo_with (demo_intent StatusCaptured 100)) = (received, svc') \<and>
    ms_intents (svStore svc') ''p1'' = Some i' \<and> iStatus i' = StatusChargedBack"
  using chargeback_opened [of "demo_with (demo_intent StatusCaptured 100)"
      "demo_webhook ''chargeback'' ''opened'' 100" "demo_intent StatusCaptured 100" "demo_env ''u'' 0" "''card''"]
  by (auto simp: demo_webhook_def)

text \<open>
  C28. The reversal of a known dispute decides a charged-back intent: \<open>chargeback_won\<close> when the
  webhook's amount is zero, \<open>chargeback_lost\<close> otherwise.
\<close>

theorem chargeback_reversal:
  assumes I: "svStoreI svc = MemStore" and i: "ms_intents (svStore svc) (wbPaymentID wb) = Some i"
    and st: "iStatus i = StatusChargedBack" and wb: "wbStage wb = ''reversal''" "wbCaseRef wb \<noteq> ''''"
    and known: "find (\<lambda>c. cbCaseRef c = wbCaseRef wb)
      (mem_ChargebacksFor (wbPaymentID wb) (svStore svc)) = Some cb"
  shows "\<exists>svc' i'. handleChargebackWebhook e rl wb svc = (received, svc') \<and>
    ms_intents (svStore svc') (wbPaymentID wb) = Some i' \<and>
    iStatus i' = (if wbAmount wb = 0 then StatusChargebackWon else StatusChargebackLost)"
proof -
  let ?s = "snd (mem_UpdateChargeback (envOrder e) (wbCaseRef wb)
      (\<lambda>c. (None, c\<lparr>cbStage := ''reversal'', cbUpdatedAt := envNow e 4\<rparr>)) (svStore svc))"
  have "ms_intents ?s = ms_intents (svStore svc)"
    using mem_UpdateChargeback_frame [of "envOrder e" "wbCaseRef wb"
        "\<lambda>c. (None, c\<lparr>cbStage := ''reversal'', cbUpdatedAt := envNow e 4\<rparr>)" "svStore svc"] by auto
  with assms show ?thesis
    by (simp add: handleChargebackWebhook_def IsValidChargebackStage_def chargebackKnown_def Let_def
        updateIntent_def mem_UpdateIntent_def webhookResult_def put_fx_def
        reversalFn_def Transition_def CanTransition_def)
qed

theorem chargeback_reversal_witness:
  "\<exists>svc' i'. handleChargebackWebhook (demo_env ''u'' 0) ''card'' (demo_webhook ''chargeback'' ''reversal'' 0)
      ((demo_with (demo_intent StatusChargedBack 100))\<lparr>svStore := (svStore (demo_with (demo_intent StatusChargedBack 100)))
         \<lparr>ms_chargebacks := [''p1'' \<mapsto> [\<lparr>cbID = ''c1'', cbIntentID = ''p1'', cbAmount = 100, cbReason = '''',
            cbStage = StageOpened, cbCaseRef = ''case1'', cbCreatedAt = 0, cbUpdatedAt = 0\<rparr>]]\<rparr>\<rparr>) = (received, svc') \<and>
    ms_intents (svStore svc') ''p1'' = Some i' \<and> iStatus i' = StatusChargebackWon"
proof -
  let ?cb = "\<lparr>cbID = ''c1'', cbIntentID = ''p1'', cbAmount = 100, cbReason = '''',
            cbStage = StageOpened, cbCaseRef = ''case1'', cbCreatedAt = 0, cbUpdatedAt = 0\<rparr> :: chargeback"
  let ?svc = "(demo_with (demo_intent StatusChargedBack 100))\<lparr>svStore :=
      (svStore (demo_with (demo_intent StatusChargedBack 100)))\<lparr>ms_chargebacks := [''p1'' \<mapsto> [?cb]]\<rparr>\<rparr>"
  show ?thesis
    using chargeback_reversal [of ?svc "demo_webhook ''chargeback'' ''reversal'' 0"
        "demo_intent StatusChargedBack 100" ?cb "demo_env ''u'' 0" "''card''"]
    by (auto simp: demo_webhook_def mem_ChargebacksFor_def slice_at_def)
qed

text \<open>
  A dispute on a settled intent is recorded but cannot be booked: the terminal-state guard of
  the state machine refuses the move, so the answer is 500 and the intent stays \<open>settled\<close>, while
  the chargeback row has been added.
\<close>

lemma chargeback_settled_error:
  assumes I: "svStoreI svc = MemStore" and i: "ms_intents (svStore svc) (wbPaymentID wb) = Some i"
    and st: "iStatus i = StatusSettled" and wb: "wbStage wb = ''opened''" "wbCaseRef wb \<noteq> ''''"
    and new: "\<forall>c \<in> set (mem_ChargebacksFor (wbPaymentID wb) (svStore svc)). cbCaseRef c \<noteq> wbCaseRef wb"
  shows "\<exists>svc' c. handleChargebackWebhook e rl wb svc =
      (respondError 500 (error_text ErrTerminalState), svc') \<and>
    ms_intents (svStore svc') = ms_intents (svStore svc) \<and> cbCaseRef c = wbCaseRef wb \<and>
    mem_ChargebacksFor (wbPaymentID wb) (svStore svc') =
      mem_ChargebacksFor (wbPaymentID wb) (svStore svc) @ [c]"
  using I i wb st find_case_new [OF new]
  by (simp add: handleChargebackWebhook_def IsValidChargebackStage_def chargebackNew_def Let_def
      updateIntent_def mem_UpdateIntent_def mem_AddChargeback_def webhookResult_def put_fx_def
      mem_ChargebacksFor_def slice_at_upd chargebackOpenedFn_def Transition_def map_upd_triv)

lemma chargeback_settled_error_example:
  "\<exists>svc'. handleChargebackWebhook (demo_env ''u'' 0) ''card'' (demo_webhook ''chargeback'' ''opened'' 100)
      (demo_with (demo_intent StatusSettled 100)) = (respondError 500 (error_text ErrTerminalState), svc') \<and>
    ms_intents (svStore svc') ''p1'' = Some (demo_intent StatusSettled 100)"
  using chargeback_settled_error [of "demo_with (demo_intent StatusSettled 100)"
      "demo_webhook ''chargeback'' ''opened'' 100" "demo_intent StatusSettled 100" "demo_env ''u'' 0" "''card''"]
  by (auto simp: demo_webhook_def)

end
