(* ===== verification/Migrations.thy ===== *)
theory Migrations
  imports Prelude "HOL-Library.AList" "HOL-Library.List_Lexorder" "HOL-Library.Char_ord"
begin

text \<open>
  Schema migrations, \<open>internal/store/migrations/migrations.go\<close>. \<open>All\<close> collects the embedded
  SQL files into migrations, \<open>Up\<close> and \<open>Down\<close> run them. The embedded file system is a
  parameter, as are the two functions a \<open>Runner\<close> is made of; the locale \<open>version_table\<close>
  states what the runner relies on of the table \<open>schema_migrations\<close> behind them.
\<close>

section \<open>The migrations of a file system\<close>

record migration =
  mgVersion :: string
  mgUp :: bytes
  mgDown :: bytes

record dir_entry =
  deName :: string
  deIsDir :: bool

text \<open>\<open>embed.FS\<close>: the entries of its root, and the content of a file.\<close>

record embed_fs =
  fsReadDir :: "error + dir_entry list"
  fsReadFile :: "string \<Rightarrow> error + bytes"

text \<open>The map \<open>byVersion\<close>, and its entry for a version, made when it is missing.\<close>

type_synonym by_version = "(string \<times> migration) list"

definition at_version :: "string \<Rightarrow> by_version \<Rightarrow> migration" where
  "at_version v b =
     (case map_of b v of None \<Rightarrow> \<lparr>mgVersion = v, mgUp = '''', mgDown = ''''\<rparr> | Some m \<Rightarrow> m)"

definition up_suffix :: string where "up_suffix = ''_up.sql''"
definition down_suffix :: string where "down_suffix = ''_down.sql''"

fun collect :: "embed_fs \<Rightarrow> dir_entry list \<Rightarrow> by_version \<Rightarrow> error + by_version" where
  "collect fs [] b = Inr b"
| "collect fs (e # es) b =
     (if deIsDir e then collect fs es b
      else
        let name = deName e in
        if strings_HasSuffix name up_suffix
        then
          let v = strings_TrimSuffix name up_suffix in
          case fsReadFile fs name of
            Inl err \<Rightarrow> Inl err
          | Inr c \<Rightarrow> collect fs es (AList.update v ((at_version v b)\<lparr>mgUp := c\<rparr>) b)
        else if strings_HasSuffix name down_suffix
        then
          let v = strings_TrimSuffix name down_suffix in
          case fsReadFile fs name of
            Inl err \<Rightarrow> Inl err
          | Inr c \<Rightarrow> collect fs es (AList.update v ((at_version v b)\<lparr>mgDown := c\<rparr>) b)
        else collect fs es b)"

fun complete :: "by_version \<Rightarrow> string list \<Rightarrow> error + migration list" where
  "complete b [] = Inr []"
| "complete b (v # vs) =
     (let m = at_version v b in
      if mgUp m = '''' \<or> mgDown m = ''''
      then Inl (ErrorString (''migrations: version '' @ v @ '' missing up or down''))
      else (case complete b vs of Inl e \<Rightarrow> Inl e | Inr ms \<Rightarrow> Inr (m # ms)))"

text \<open>
  The keys of the map are sorted, so the order in which the run-time visits them does not
  matter.
\<close>

definition All_migrations :: "embed_fs \<Rightarrow> error + migration list" where
  "All_migrations fs =
     (case fsReadDir fs of
        Inl err \<Rightarrow> Inl err
      | Inr es \<Rightarrow>
          (case collect fs es [] of
             Inl err \<Rightarrow> Inl err
           | Inr b \<Rightarrow> complete b (sort (map fst b))))"

section \<open>The runner\<close>

text \<open>The statements the runner executes.\<close>

datatype mig_stmt =
    CreateSchemaMigrations
  | RunSQL bytes
  | RecordVersion string time
  | DeleteVersion string

record 'p runner =
  rnExec :: "mig_stmt \<Rightarrow> 'p \<Rightarrow> error option \<times> 'p"
  rnQuery :: "(string \<Rightarrow> 'p \<Rightarrow> error + bool) option"

definition NewRunner ::
  "(mig_stmt \<Rightarrow> 'p \<Rightarrow> error option \<times> 'p) \<Rightarrow> (string \<Rightarrow> 'p \<Rightarrow> error + bool) option \<Rightarrow> 'p runner" where
  "NewRunner ex q = \<lparr>rnExec = ex, rnQuery = q\<rparr>"

text \<open>Whether a version is applied: a runner without a query takes none to be.\<close>

definition rn_applied :: "'p runner \<Rightarrow> bool \<Rightarrow> string \<Rightarrow> 'p \<Rightarrow> error + bool" where
  "rn_applied r dflt v p = (case rnQuery r of None \<Rightarrow> Inr dflt | Some q \<Rightarrow> q v p)"

text \<open>\<open>now v\<close> is the clock when version \<open>v\<close> is recorded.\<close>

fun up_loop :: "'p runner \<Rightarrow> (string \<Rightarrow> time) \<Rightarrow> migration list \<Rightarrow> 'p \<Rightarrow> error option \<times> 'p" where
  "up_loop r now [] p = (None, p)"
| "up_loop r now (m # ms) p =
     (case rn_applied r False (mgVersion m) p of
        Inl err \<Rightarrow> (Some err, p)
      | Inr True \<Rightarrow> up_loop r now ms p
      | Inr False \<Rightarrow>
          (case rnExec r (RunSQL (mgUp m)) p of
             (Some err, p1) \<Rightarrow> (Some (Errorf (''migrations: apply '' @ mgVersion m @ '': '') err ''''), p1)
           | (None, p1) \<Rightarrow>
               (case rnExec r (RecordVersion (mgVersion m) (now (mgVersion m))) p1 of
                  (Some err, p2) \<Rightarrow>
                    (Some (Errorf (''migrations: record '' @ mgVersion m @ '': '') err ''''), p2)
                | (None, p2) \<Rightarrow> up_loop r now ms p2)))"

definition Up :: "embed_fs \<Rightarrow> 'p runner \<Rightarrow> (string \<Rightarrow> time) \<Rightarrow> 'p \<Rightarrow> error option \<times> 'p" where
  "Up fs r now p =
     (case rnExec r CreateSchemaMigrations p of
        (Some err, p1) \<Rightarrow> (Some (Errorf ''migrations: create schema_migrations: '' err ''''), p1)
      | (None, p1) \<Rightarrow>
          (case All_migrations fs of
             Inl err \<Rightarrow> (Some err, p1)
           | Inr ms \<Rightarrow> up_loop r now ms p1))"

fun down_loop :: "'p runner \<Rightarrow> migration list \<Rightarrow> 'p \<Rightarrow> error option \<times> 'p" where
  "down_loop r [] p = (None, p)"
| "down_loop r (m # ms) p =
     (case rn_applied r True (mgVersion m) p of
        Inl err \<Rightarrow> (Some err, p)
      | Inr False \<Rightarrow> down_loop r ms p
      | Inr True \<Rightarrow>
          (case rnExec r (RunSQL (mgDown m)) p of
             (Some err, p1) \<Rightarrow> (Some (Errorf (''migrations: revert '' @ mgVersion m @ '': '') err ''''), p1)
           | (None, p1) \<Rightarrow>
               (case rnExec r (DeleteVersion (mgVersion m)) p1 of
                  (Some err, p2) \<Rightarrow> (Some err, p2)
                | (None, p2) \<Rightarrow> down_loop r ms p2)))"

definition Down :: "embed_fs \<Rightarrow> 'p runner \<Rightarrow> 'p \<Rightarrow> error option \<times> 'p" where
  "Down fs r p =
     (case All_migrations fs of
        Inl err \<Rightarrow> (Some err, p)
      | Inr ms \<Rightarrow> down_loop r (rev ms) p)"

section \<open>What \<open>All\<close> returns\<close>

definition files :: "dir_entry list \<Rightarrow> string set" where
  "files es = {deName e |e. e \<in> set es \<and> \<not> deIsDir e}"

lemma files_simps [simp]:
  "files [] = {}" "files (e # es) = (if deIsDir e then files es else insert (deName e) (files es))"
  by (auto simp: files_def)

lemma files_name: "f \<in> files es \<Longrightarrow> f \<in> deName ` set es"
  by (auto simp: files_def)

lemma suffix_trim:
  "strings_HasSuffix s p \<Longrightarrow> s = strings_TrimSuffix s p @ p"
  by (auto simp: strings_HasSuffix_def strings_TrimSuffix_def suffix_def)

lemma trim_append [simp]: "strings_TrimSuffix (v @ p) p = v" "strings_HasSuffix (v @ p) p"
  by (simp_all add: strings_HasSuffix_def strings_TrimSuffix_def suffix_def)

lemma suffixes_differ [simp]: "v @ up_suffix \<noteq> w @ down_suffix" "w @ down_suffix \<noteq> v @ up_suffix"
proof -
  have "rev (v @ up_suffix) \<noteq> rev (w @ down_suffix)" by (simp add: up_suffix_def down_suffix_def)
  then show "v @ up_suffix \<noteq> w @ down_suffix" by metis
  then show "w @ down_suffix \<noteq> v @ up_suffix" by metis
qed

lemma suffix_names_differ [simp]: "down_suffix \<noteq> up_suffix" "up_suffix \<noteq> down_suffix"
  by (simp_all add: up_suffix_def down_suffix_def)

lemma not_up_suffix [simp]: "\<not> strings_HasSuffix (v @ down_suffix) up_suffix"
proof
  assume "strings_HasSuffix (v @ down_suffix) up_suffix"
  from suffix_trim [OF this] show False by (metis suffixes_differ(2))
qed

lemma at_version_update:
  "at_version v (AList.update w m b) = (if v = w then m else at_version v b)"
  by (simp add: at_version_def update_conv')

text \<open>One directory entry, as a function: the field it fills, or none.\<close>

lemma collect_Cons_cases:
  assumes "collect fs (e # es) b = Inr b'"
  obtains (skip) "collect fs es b = Inr b'"
      "deIsDir e \<or> (\<forall>v. v @ up_suffix \<noteq> deName e \<and> v @ down_suffix \<noteq> deName e)"
  | (up) v c where "\<not> deIsDir e" "deName e = v @ up_suffix" "fsReadFile fs (deName e) = Inr c"
      "collect fs es (AList.update v ((at_version v b)\<lparr>mgUp := c\<rparr>) b) = Inr b'"
  | (down) v c where "\<not> deIsDir e" "deName e = v @ down_suffix" "fsReadFile fs (deName e) = Inr c"
      "collect fs es (AList.update v ((at_version v b)\<lparr>mgDown := c\<rparr>) b) = Inr b'"
proof -
  consider "deIsDir e" | "\<not> deIsDir e" "strings_HasSuffix (deName e) up_suffix"
    | "\<not> deIsDir e" "\<not> strings_HasSuffix (deName e) up_suffix" "strings_HasSuffix (deName e) down_suffix"
    | "\<not> deIsDir e" "\<not> strings_HasSuffix (deName e) up_suffix" "\<not> strings_HasSuffix (deName e) down_suffix"
    by blast
  then show thesis
  proof cases
    case 2
    with assms up [of "strings_TrimSuffix (deName e) up_suffix"] suffix_trim [OF 2(2)] show thesis
      by (simp add: Let_def split: sum.splits)
  next
    case 3
    with assms down [of "strings_TrimSuffix (deName e) down_suffix"] suffix_trim [OF 3(3)] show thesis
      by (simp add: Let_def split: sum.splits)
  next
    case 4
    then have "\<forall>v. v @ up_suffix \<noteq> deName e \<and> v @ down_suffix \<noteq> deName e"
      by (metis trim_append(2))
    with 4 assms show thesis by (intro skip) (simp_all add: Let_def)
  qed (use assms skip in simp)
qed

lemma collect_fields:
  assumes "collect fs es b = Inr b'" and "distinct (map deName es)"
  shows "(if v @ up_suffix \<in> files es
          then fsReadFile fs (v @ up_suffix) = Inr (mgUp (at_version v b'))
          else mgUp (at_version v b') = mgUp (at_version v b)) \<and>
         (if v @ down_suffix \<in> files es
          then fsReadFile fs (v @ down_suffix) = Inr (mgDown (at_version v b'))
          else mgDown (at_version v b') = mgDown (at_version v b))"
  using assms
proof (induction es arbitrary: b)
  case (Cons e es)
  have new: "deName e \<notin> files es" and d: "distinct (map deName es)"
    using Cons.prems(2) files_name by auto
  from Cons.prems(1) show ?case
  proof (cases rule: collect_Cons_cases)
    case skip
    with Cons.IH [OF skip(1) d] show ?thesis by (auto split: if_splits)
  next
    case (up w c)
    with Cons.IH [OF up(4) d] new show ?thesis
      by (cases "v = w") (auto simp: at_version_update split: if_splits)
  next
    case (down w c)
    with Cons.IH [OF down(4) d] new show ?thesis
      by (cases "v = w") (auto simp: at_version_update split: if_splits)
  qed
qed simp

definition keyed :: "by_version \<Rightarrow> bool" where
  "keyed b \<longleftrightarrow> distinct (map fst b) \<and> (\<forall>v. mgVersion (at_version v b) = v)"

lemma keyed_update:
  "keyed b \<Longrightarrow> mgVersion m = v \<Longrightarrow> keyed (AList.update v m b)"
  by (auto simp: keyed_def at_version_update distinct_update)

lemma keyed_at: "keyed b \<Longrightarrow> mgVersion (at_version v b) = v"
  by (simp add: keyed_def)

lemma collect_keys:
  assumes "collect fs es b = Inr b'" and "keyed b"
  shows "keyed b' \<and>
    fst ` set b' = fst ` set b \<union> {v. v @ up_suffix \<in> files es \<or> v @ down_suffix \<in> files es}"
  using assms
proof (induction es arbitrary: b)
  case (Cons e es)
  from Cons.prems(1) show ?case
  proof (cases rule: collect_Cons_cases)
    case skip
    with Cons.IH [OF skip(1) Cons.prems(2)] show ?thesis by auto
  next
    case (up w c)
    with Cons.IH [OF up(4) keyed_update [OF Cons.prems(2)]] keyed_at [OF Cons.prems(2)]
    show ?thesis by (auto simp: dom_update)
  next
    case (down w c)
    with Cons.IH [OF down(4) keyed_update [OF Cons.prems(2)]] keyed_at [OF Cons.prems(2)]
    show ?thesis by (auto simp: dom_update)
  qed
qed simp

lemma complete_Inr:
  "complete b vs = Inr ms \<Longrightarrow>
   ms = map (\<lambda>v. at_version v b) vs \<and> (\<forall>m \<in> set ms. mgUp m \<noteq> '''' \<and> mgDown m \<noteq> '''')"
  by (induction vs arbitrary: ms) (auto simp: Let_def split: if_splits sum.splits)

lemma complete_Inl_iff:
  "(\<exists>e. complete b vs = Inl e) \<longleftrightarrow>
   (\<exists>v \<in> set vs. mgUp (at_version v b) = '''' \<or> mgDown (at_version v b) = '''')"
  by (induction vs) (auto simp: Let_def split: sum.splits)

text \<open>
  The migrations of a file system with distinct names: every version that has a file, once,
  in ascending order of the version, each with the content of its two files, neither of them
  empty.
\<close>

lemma All_exact:
  assumes "fsReadDir fs = Inr es" and "distinct (map deName es)" and "All_migrations fs = Inr ms"
  shows "sorted_wrt (<) (map mgVersion ms) \<and>
    (\<forall>v. v \<in> mgVersion ` set ms \<longleftrightarrow> v @ up_suffix \<in> files es \<or> v @ down_suffix \<in> files es) \<and>
    (\<forall>m \<in> set ms. fsReadFile fs (mgVersion m @ up_suffix) = Inr (mgUp m) \<and> mgUp m \<noteq> '''' \<and>
       fsReadFile fs (mgVersion m @ down_suffix) = Inr (mgDown m) \<and> mgDown m \<noteq> '''')"
proof -
  obtain b where b: "collect fs es [] = Inr b" "complete b (sort (map fst b)) = Inr ms"
    using assms(1,3) by (auto simp: All_migrations_def split: sum.splits)
  have "keyed []" by (simp add: keyed_def at_version_def)
  from collect_keys [OF b(1) this] have k: "keyed b"
    "fst ` set b = {v. v @ up_suffix \<in> files es \<or> v @ down_suffix \<in> files es}" by auto
  note ms = complete_Inr [OF b(2)]
  have vs: "map mgVersion ms = sort (map fst b)"
    using ms k(1) by (simp add: keyed_def comp_def)
  have "sorted_wrt (<) (map mgVersion ms)"
    using k(1) unfolding vs strict_sorted_iff by (simp add: keyed_def)
  moreover have "v \<in> mgVersion ` set ms \<longleftrightarrow> v @ up_suffix \<in> files es \<or> v @ down_suffix \<in> files es" for v
    using arg_cong [OF vs, of set] k(2) by simp
  moreover have "\<forall>m \<in> set ms. fsReadFile fs (mgVersion m @ up_suffix) = Inr (mgUp m) \<and> mgUp m \<noteq> '''' \<and>
       fsReadFile fs (mgVersion m @ down_suffix) = Inr (mgDown m) \<and> mgDown m \<noteq> ''''"
  proof
    fix m assume m: "m \<in> set ms"
    then obtain v where v: "m = at_version v b" "mgUp m \<noteq> ''''" "mgDown m \<noteq> ''''" using ms by (metis ex_map_conv)
    then have "mgVersion m = v" using k(1) by (simp add: keyed_def)
    with collect_fields [OF b(1) assms(2), of v] v
    show "fsReadFile fs (mgVersion m @ up_suffix) = Inr (mgUp m) \<and> mgUp m \<noteq> '''' \<and>
       fsReadFile fs (mgVersion m @ down_suffix) = Inr (mgDown m) \<and> mgDown m \<noteq> ''''"
      by (auto simp: at_version_def split: if_splits)
  qed
  ultimately show ?thesis by blast
qed

text \<open>The embedded files of the repository, with the given contents.\<close>

definition repo_fs :: "bytes \<Rightarrow> bytes \<Rightarrow> embed_fs" where
  "repo_fs up down =
     \<lparr>fsReadDir = Inr [\<lparr>deName = ''0001_init_down.sql'', deIsDir = False\<rparr>,
                       \<lparr>deName = ''0001_init_up.sql'', deIsDir = False\<rparr>],
      fsReadFile = (\<lambda>n. if n = ''0001_init_up.sql'' then Inr up
                        else if n = ''0001_init_down.sql'' then Inr down
                        else Inl (ErrorString ''file does not exist''))\<rparr>"

lemma All_repo_fs:
  assumes "up \<noteq> ''''" "down \<noteq> ''''"
  shows "All_migrations (repo_fs up down) = Inr [\<lparr>mgVersion = ''0001_init'', mgUp = up, mgDown = down\<rparr>]"
  using assms
  by (simp add: All_migrations_def repo_fs_def at_version_def strings_HasSuffix_def
      strings_TrimSuffix_def up_suffix_def down_suffix_def Let_def suffix_to_prefix)

lemma All_exact_witness:
  "sorted_wrt (<) [''0001_init''] \<and>
   fsReadFile (repo_fs ''u'' ''d'') (''0001_init'' @ up_suffix) = Inr ''u''"
proof -
  have "fsReadDir (repo_fs ''u'' ''d'') = Inr [\<lparr>deName = ''0001_init_down.sql'', deIsDir = False\<rparr>,
      \<lparr>deName = ''0001_init_up.sql'', deIsDir = False\<rparr>]" by (simp add: repo_fs_def)
  from All_exact [OF this _ All_repo_fs] show ?thesis by simp
qed

section \<open>The version table\<close>

text \<open>
  What the runner relies on: \<open>applied p\<close> are the versions recorded in \<open>schema_migrations\<close>;
  the query reads it, the two bookkeeping statements change it, and the scripts of the
  migrations do not touch it. A statement that fails may or may not have had its effect.
\<close>

locale version_table =
  fixes ex :: "mig_stmt \<Rightarrow> 'p \<Rightarrow> error option \<times> 'p"
    and q :: "string \<Rightarrow> 'p \<Rightarrow> error + bool"
    and applied :: "'p \<Rightarrow> string set"
  assumes query_applied: "q v p = Inr b \<Longrightarrow> b = (v \<in> applied p)"
    and create_frame: "ex CreateSchemaMigrations p = (r, p') \<Longrightarrow> applied p' = applied p"
    and script_frame: "ex (RunSQL s) p = (r, p') \<Longrightarrow> applied p' = applied p"
    and record_effect: "ex (RecordVersion v t) p = (r, p') \<Longrightarrow>
      applied p' = insert v (applied p) \<or> (r \<noteq> None \<and> applied p' = applied p)"
    and delete_effect: "ex (DeleteVersion v) p = (r, p') \<Longrightarrow>
      applied p' = applied p - {v} \<or> (r \<noteq> None \<and> applied p' = applied p)"
begin

abbreviation rn :: "'p runner" where
  "rn \<equiv> NewRunner ex (Some q)"

lemma rn_applied_rn [simp]: "rn_applied rn d v p = q v p"
  by (simp add: rn_applied_def NewRunner_def)

lemma rnExec_rn [simp]: "rnExec rn = ex"
  by (simp add: NewRunner_def)

lemma up_loop_applied:
  assumes "up_loop rn now ms p = (r, p')"
  shows "applied p \<subseteq> applied p' \<and> applied p' \<subseteq> applied p \<union> mgVersion ` set ms \<and>
    (r = None \<longrightarrow> applied p' = applied p \<union> mgVersion ` set ms)"
  using assms
proof (induction ms arbitrary: p)
  case (Cons m ms)
  show ?case
  proof (cases "q (mgVersion m) p")
    case (Inr b)
    show ?thesis
    proof (cases b)
      case True
      with Inr Cons.prems query_applied [OF Inr] Cons.IH [of p] show ?thesis by auto
    next
      case False
      obtain r1 p1 where e1: "ex (RunSQL (mgUp m)) p = (r1, p1)" by fastforce
      obtain r2 p2 where e2: "ex (RecordVersion (mgVersion m) (now (mgVersion m))) p1 = (r2, p2)"
        by fastforce
      note eff = script_frame [OF e1] record_effect [OF e2]
      from Cons.prems False Inr e1 e2 eff show ?thesis
        by (auto split: option.splits dest!: Cons.IH)
    qed
  qed (use Cons.prems in auto)
qed simp

lemma up_loop_done:
  assumes "mgVersion ` set ms \<subseteq> applied p" and "\<And>v. v \<in> mgVersion ` set ms \<Longrightarrow> \<exists>b. q v p = Inr b"
  shows "up_loop rn now ms p = (None, p)"
  using assms
proof (induction ms)
  case (Cons m ms)
  from Cons.prems(2) [of "mgVersion m"] obtain b where b: "q (mgVersion m) p = Inr b" by auto
  with query_applied [OF b] Cons show ?case by simp
qed simp

lemma down_loop_applied:
  assumes "down_loop rn ms p = (r, p')"
  shows "applied p' \<subseteq> applied p \<and> applied p - mgVersion ` set ms \<subseteq> applied p' \<and>
    (r = None \<longrightarrow> applied p' = applied p - mgVersion ` set ms)"
  using assms
proof (induction ms arbitrary: p)
  case (Cons m ms)
  show ?case
  proof (cases "q (mgVersion m) p")
    case (Inr b)
    show ?thesis
    proof (cases b)
      case False
      with Inr Cons.prems query_applied [OF Inr] Cons.IH [of p] show ?thesis by auto
    next
      case True
      obtain r1 p1 where e1: "ex (RunSQL (mgDown m)) p = (r1, p1)" by fastforce
      obtain r2 p2 where e2: "ex (DeleteVersion (mgVersion m)) p1 = (r2, p2)" by fastforce
      note eff = script_frame [OF e1] delete_effect [OF e2]
      from Cons.prems True Inr e1 e2 eff show ?thesis
        by (auto split: option.splits dest!: Cons.IH)
    qed
  qed (use Cons.prems in auto)
qed simp

lemma Up_applied:
  assumes "Up fs rn now p = (None, p')" "All_migrations fs = Inr ms"
  shows "applied p' = applied p \<union> mgVersion ` set ms"
  using assms
  by (auto simp: Up_def split: prod.splits option.splits dest!: up_loop_applied create_frame)

lemma Up_again:
  assumes "Up fs rn now p = (None, p')" "All_migrations fs = Inr ms"
    and "ex CreateSchemaMigrations p' = (None, p'')"
    and "\<And>v. \<exists>b. q v p'' = Inr b"
  shows "Up fs rn now' p' = (None, p'')"
proof -
  have "mgVersion ` set ms \<subseteq> applied p''"
    using Up_applied [OF assms(1,2)] create_frame [OF assms(3)] by auto
  from up_loop_done [OF this] assms(2-4) show ?thesis by (simp add: Up_def)
qed

lemma Down_applied:
  assumes "Down fs rn p = (None, p')" "All_migrations fs = Inr ms"
  shows "applied p' = applied p - mgVersion ` set ms"
  using assms by (auto simp: Down_def dest!: down_loop_applied)

end

end
