(* ===== verification/Postgres.thy ===== *)
theory Postgres
  imports Store Observe Migrations
begin

text \<open>
  The Postgres store, \<open>internal/store/postgres/postgres.go\<close>. The connection pool of pgx, the
  server behind it and the JSON codec are a parameter, the record \<open>pool\<close>: one field per kind
  of call the code makes. The SQL statements are the datatype \<open>stmt\<close>; \<open>run_stmt\<close> says what
  each does to the tables that \<open>0001_init_up.sql\<close> creates. The locale \<open>postgres\<close> states what is
  relied on of the server, with any call free to fail; a failed statement or commit may or may
  not have taken effect.
\<close>

section \<open>Rows, statements, the pool\<close>

text \<open>
  A row of table \<open>intents\<close>, in the order of its columns. Rails and statuses are strings in the
  code, and its conversions from and to \<open>string\<close> do not change them.
\<close>

record intent_row =
  irID :: string
  irRail :: rail
  irAmount :: int64
  irCurrency :: string
  irPayerRef :: string
  irStatus :: status
  irCapturedAmount :: int64
  irRefundedAmount :: int64
  irSettledAmount :: int64
  irExternalID :: string
  irIdempotencyKey :: string
  irThreeDSRequired :: bool
  irCreatedAt :: time
  irUpdatedAt :: time
  irHistory :: bytes

datatype stmt =
    InsertIntent intent_row
  | SetIntent string intent_row
  | InsertCapture capture
  | InsertSettlement settlement
  | InsertRefund refund
  | InsertChargeback chargeback
  | SetChargeback string int64 string chargeback_stage time
  | InsertWebhook webhook
  | SetProcessed rail string

text \<open>
  \<open>'p\<close> is the state of the database, \<open>'t\<close> an open transaction. A query of several rows gives
  them one by one, each may fail to scan; \<open>plIntents\<close> takes the text of the query and its
  arguments. \<open>jsUnmarshal\<close> is what the decoder leaves in the slice, its error being ignored.
\<close>

record ('p, 't) pool =
  plPing :: "'p \<Rightarrow> error option"
  plExec :: "stmt \<Rightarrow> 'p \<Rightarrow> error option \<times> 'p"
  plIntent :: "string \<Rightarrow> 'p \<Rightarrow> error + intent_row"
  plIntents :: "string \<Rightarrow> string list \<Rightarrow> 'p \<Rightarrow> error + (error + intent_row) list"
  plCaptures :: "string \<Rightarrow> 'p \<Rightarrow> error + (error + capture) list"
  plSettlements :: "string \<Rightarrow> 'p \<Rightarrow> error + (error + settlement) list"
  plRefunds :: "string \<Rightarrow> 'p \<Rightarrow> error + (error + refund) list"
  plChargebacks :: "string \<Rightarrow> 'p \<Rightarrow> error + (error + chargeback) list"
  plExists :: "rail \<Rightarrow> string \<Rightarrow> 'p \<Rightarrow> error + bool"
  plMigrate :: "mig_stmt \<Rightarrow> 'p \<Rightarrow> error option \<times> 'p"
  plVersion :: "string \<Rightarrow> 'p \<Rightarrow> error + bool"
  plBegin :: "'p \<Rightarrow> error + 't"
  txIntent :: "string \<Rightarrow> 't \<Rightarrow> error + intent_row"
  txChargeback :: "string \<Rightarrow> 't \<Rightarrow> error + chargeback"
  txExec :: "stmt \<Rightarrow> 't \<Rightarrow> error option \<times> 't"
  txCommit :: "'t \<Rightarrow> 'p \<Rightarrow> error option \<times> 'p"
  txRollback :: "'t \<Rightarrow> 'p \<Rightarrow> 'p"
  jsMarshal :: "event list \<Rightarrow> bytes"
  jsUnmarshal :: "bytes \<Rightarrow> event list"

section \<open>Opening\<close>

text \<open>
  \<open>Open\<close>: \<open>conn\<close> is what \<open>pgxpool.New\<close> gives. The runner executes on the pool and asks
  \<open>schema_migrations\<close> for versions.
\<close>

definition db_runner :: "('p, 't) pool \<Rightarrow> 'p runner" where
  "db_runner px = NewRunner (plMigrate px) (Some (plVersion px))"

definition db_Open ::
  "embed_fs \<Rightarrow> (string \<Rightarrow> time) \<Rightarrow> error + (('p, 't) pool \<times> 'p) \<Rightarrow> error + (('p, 't) pool \<times> 'p)" where
  "db_Open fs now conn =
     (case conn of
        Inl err \<Rightarrow> Inl err
      | Inr (px, p) \<Rightarrow>
          (case plPing px p of
             Some err \<Rightarrow> Inl err
           | None \<Rightarrow>
               (case Up fs (db_runner px) now p of
                  (Some err, p1) \<Rightarrow> Inl (Errorf ''migrate: '' err '''')
                | (None, p1) \<Rightarrow> Inr (px, p1))))"

section \<open>Intents\<close>

definition rowOf :: "('p, 't) pool \<Rightarrow> intent \<Rightarrow> intent_row" where
  "rowOf px i =
     \<lparr>irID = iID i, irRail = iRail i, irAmount = iAmount i, irCurrency = iCurrency i,
      irPayerRef = iPayerRef i, irStatus = iStatus i, irCapturedAmount = iCapturedAmount i,
      irRefundedAmount = iRefundedAmount i, irSettledAmount = iSettledAmount i,
      irExternalID = iExternalID i, irIdempotencyKey = iIdempotencyKey i,
      irThreeDSRequired = iThreeDSRequired i, irCreatedAt = iCreatedAt i,
      irUpdatedAt = iUpdatedAt i, irHistory = jsMarshal px (iHistory i)\<rparr>"

definition scanIntent :: "('p, 't) pool \<Rightarrow> intent_row \<Rightarrow> intent" where
  "scanIntent px r =
     \<lparr>iID = irID r, iRail = irRail r, iAmount = irAmount r, iCurrency = irCurrency r,
      iPayerRef = irPayerRef r, iStatus = irStatus r, iCapturedAmount = irCapturedAmount r,
      iRefundedAmount = irRefundedAmount r, iSettledAmount = irSettledAmount r,
      iExternalID = irExternalID r, iIdempotencyKey = irIdempotencyKey r,
      iThreeDSRequired = irThreeDSRequired r, iCreatedAt = irCreatedAt r,
      iUpdatedAt = irUpdatedAt r,
      iHistory = (if irHistory r \<noteq> [] then jsUnmarshal px (irHistory r) else [])\<rparr>"

definition db_CreateIntent :: "('p, 't) pool \<Rightarrow> time \<Rightarrow> intent \<Rightarrow> 'p \<Rightarrow> 'p" where
  "db_CreateIntent px now i p =
     (let i1 = (if iCreatedAt i = time_zero then i\<lparr>iCreatedAt := now\<rparr> else i);
          i2 = (if iUpdatedAt i1 = time_zero then i1\<lparr>iUpdatedAt := iCreatedAt i1\<rparr> else i1)
      in snd (plExec px (InsertIntent (rowOf px i2)) p))"

definition db_GetIntent :: "('p, 't) pool \<Rightarrow> string \<Rightarrow> 'p \<Rightarrow> intent option" where
  "db_GetIntent px iid p =
     (case plIntent px iid p of Inl err \<Rightarrow> None | Inr r \<Rightarrow> Some (scanIntent px r))"

text \<open>The loop over the rows of a result: a row that does not scan makes it nil.\<close>

fun scan_rows :: "('r \<Rightarrow> 'a) \<Rightarrow> 'a list \<Rightarrow> (error + 'r) list \<Rightarrow> 'a list" where
  "scan_rows f out [] = out"
| "scan_rows f out (Inl err # rs) = []"
| "scan_rows f out (Inr r # rs) = scan_rows f (out @ [f r]) rs"

definition scan_query :: "('r \<Rightarrow> 'a) \<Rightarrow> error + (error + 'r) list \<Rightarrow> 'a list" where
  "scan_query f q = (case q of Inl err \<Rightarrow> [] | Inr rs \<Rightarrow> scan_rows f [] rs)"

definition intentSelectSQL :: string where
  "intentSelectSQL =
     ''SELECT id, rail, amount, currency, payer_ref, status, captured_amount, refunded_amount, settled_amount,'' @
     [CHR 0x0A, CHR 0x09] @
     ''external_id, idempotency_key, three_ds_required, created_at, updated_at, history FROM intents''"

fun joinAnd_loop :: "nat \<Rightarrow> string \<Rightarrow> string list \<Rightarrow> string" where
  "joinAnd_loop k out [] = out"
| "joinAnd_loop k out (s # ss) =
     joinAnd_loop (Suc k) ((if 0 < k then out @ '' AND '' else out) @ s) ss"

definition joinAnd :: "string list \<Rightarrow> string" where
  "joinAnd ss = joinAnd_loop 0 '''' ss"

text \<open>The text and the arguments of the query of \<open>ListIntents\<close>.\<close>

definition listQuery :: "string \<Rightarrow> string \<Rightarrow> string \<times> string list" where
  "listQuery status rail =
     (let (args1, conds1) = (if status \<noteq> '''' then ([status], [''status=$'' @ strconv_FormatInt 1]) else ([], []));
          (args, conds) = (if rail \<noteq> ''''
             then (args1 @ [rail],
                   conds1 @ [''rail=$'' @ strconv_FormatInt (of_nat (length (args1 @ [rail])))])
             else (args1, conds1));
          q1 = (if conds \<noteq> [] then intentSelectSQL @ '' WHERE '' @ joinAnd conds else intentSelectSQL)
      in (q1 @ '' ORDER BY created_at ASC'', args))"

definition db_ListIntents :: "('p, 't) pool \<Rightarrow> string \<Rightarrow> string \<Rightarrow> 'p \<Rightarrow> intent list" where
  "db_ListIntents px status rail p =
     (case listQuery status rail of (q, args) \<Rightarrow> scan_query (scanIntent px) (plIntents px q args p))"

text \<open>
  \<open>UpdateIntent\<close>. The deferred rollback runs on every way out of the function, a panic of the
  callback included; after a commit it has no effect.
\<close>

definition db_UpdateIntent ::
  "('p, 't) pool \<Rightarrow> time \<Rightarrow> string \<Rightarrow> 'w callback \<Rightarrow> 'p \<Rightarrow> 'w \<Rightarrow> updres \<times> 'p \<times> 'w" where
  "db_UpdateIntent px now iid fn p w =
     (case plBegin px p of
        Inl err \<Rightarrow> (UpdErr err, p, w)
      | Inr tx \<Rightarrow>
          (case txIntent px iid tx of
             Inl err \<Rightarrow>
               (UpdErr (if errors_Is err ErrNoRows then ErrNotFound else err), txRollback px tx p, w)
           | Inr row \<Rightarrow>
               (case fn (scanIntent px row) w of
                  (FnPanic, i, w') \<Rightarrow> (UpdPanic, txRollback px tx p, w')
                | (FnErr err, i, w') \<Rightarrow> (UpdErr err, txRollback px tx p, w')
                | (FnOk, i, w') \<Rightarrow>
                    (let i1 = i\<lparr>iUpdatedAt := now\<rparr> in
                     case txExec px (SetIntent iid (rowOf px i1)) tx of
                       (Some err, tx1) \<Rightarrow> (UpdErr err, txRollback px tx1 p, w')
                     | (None, tx1) \<Rightarrow>
                         (case txCommit px tx1 p of
                            (Some err, p1) \<Rightarrow> (UpdErr err, txRollback px tx1 p1, w')
                          | (None, p1) \<Rightarrow> (UpdOk i1, txRollback px tx1 p1, w'))))))"

section \<open>Linked records\<close>

definition stamp_zero :: "time \<Rightarrow> time \<Rightarrow> time" where
  "stamp_zero now t = (if t = time_zero then now else t)"

definition db_AddCapture :: "('p, 't) pool \<Rightarrow> time \<Rightarrow> capture \<Rightarrow> 'p \<Rightarrow> 'p" where
  "db_AddCapture px now c p =
     snd (plExec px (InsertCapture (c\<lparr>caCapturedAt := stamp_zero now (caCapturedAt c)\<rparr>)) p)"

definition db_CapturesFor :: "('p, 't) pool \<Rightarrow> string \<Rightarrow> 'p \<Rightarrow> capture list" where
  "db_CapturesFor px iid p = scan_query (\<lambda>c. c) (plCaptures px iid p)"

definition db_AddSettlement :: "('p, 't) pool \<Rightarrow> time \<Rightarrow> settlement \<Rightarrow> 'p \<Rightarrow> 'p" where
  "db_AddSettlement px now s p =
     snd (plExec px (InsertSettlement (s\<lparr>seSettledAt := stamp_zero now (seSettledAt s)\<rparr>)) p)"

definition db_SettlementsFor :: "('p, 't) pool \<Rightarrow> string \<Rightarrow> 'p \<Rightarrow> settlement list" where
  "db_SettlementsFor px iid p = scan_query (\<lambda>s. s) (plSettlements px iid p)"

definition db_AddRefund :: "('p, 't) pool \<Rightarrow> time \<Rightarrow> refund \<Rightarrow> 'p \<Rightarrow> 'p" where
  "db_AddRefund px now r p =
     snd (plExec px (InsertRefund (r\<lparr>reRefundedAt := stamp_zero now (reRefundedAt r)\<rparr>)) p)"

definition db_RefundsFor :: "('p, 't) pool \<Rightarrow> string \<Rightarrow> 'p \<Rightarrow> refund list" where
  "db_RefundsFor px iid p = scan_query (\<lambda>r. r) (plRefunds px iid p)"

definition db_AddChargeback :: "('p, 't) pool \<Rightarrow> time \<Rightarrow> chargeback \<Rightarrow> 'p \<Rightarrow> 'p" where
  "db_AddChargeback px now c p =
     snd (plExec px (InsertChargeback
       (c\<lparr>cbCreatedAt := stamp_zero now (cbCreatedAt c), cbUpdatedAt := now\<rparr>)) p)"

definition db_ChargebacksFor :: "('p, 't) pool \<Rightarrow> string \<Rightarrow> 'p \<Rightarrow> chargeback list" where
  "db_ChargebacksFor px iid p = scan_query (\<lambda>c. c) (plChargebacks px iid p)"

definition db_UpdateChargeback ::
  "('p, 't) pool \<Rightarrow> time \<Rightarrow> string \<Rightarrow> (chargeback \<Rightarrow> error option \<times> chargeback) \<Rightarrow> 'p
     \<Rightarrow> error option \<times> 'p" where
  "db_UpdateChargeback px now ref fn p =
     (case plBegin px p of
        Inl err \<Rightarrow> (Some err, p)
      | Inr tx \<Rightarrow>
          (case txChargeback px ref tx of
             Inl err \<Rightarrow>
               (Some (if errors_Is err ErrNoRows then ErrNotFound else err), txRollback px tx p)
           | Inr c0 \<Rightarrow>
               (case fn c0 of
                  (Some err, c) \<Rightarrow> (Some err, txRollback px tx p)
                | (None, c) \<Rightarrow>
                    (case txExec px (SetChargeback ref (cbAmount c) (cbReason c) (cbStage c) now) tx of
                       (Some err, tx1) \<Rightarrow> (Some err, txRollback px tx1 p)
                     | (None, tx1) \<Rightarrow>
                         (case txCommit px tx1 p of (r, p1) \<Rightarrow> (r, txRollback px tx1 p1))))))"

section \<open>Webhooks\<close>

definition db_RecordWebhook :: "('p, 't) pool \<Rightarrow> time \<Rightarrow> webhook \<Rightarrow> 'p \<Rightarrow> error option \<times> 'p" where
  "db_RecordWebhook px now w p =
     plExec px (InsertWebhook (w\<lparr>whReceivedAt := stamp_zero now (whReceivedAt w)\<rparr>)) p"

definition db_MarkWebhookProcessed :: "('p, 't) pool \<Rightarrow> rail \<Rightarrow> string \<Rightarrow> 'p \<Rightarrow> 'p" where
  "db_MarkWebhookProcessed px rail ev p = snd (plExec px (SetProcessed rail ev) p)"

definition db_WebhookExists :: "('p, 't) pool \<Rightarrow> rail \<Rightarrow> string \<Rightarrow> 'p \<Rightarrow> bool" where
  "db_WebhookExists px rail ev p = (case plExists px rail ev p of Inl err \<Rightarrow> False | Inr b \<Rightarrow> b)"

text \<open>
  The store as the service sees it; \<open>now\<close> is the clock of the calls that set a time stamp and
  are not given one.
\<close>

definition DB :: "('p, 't) pool \<Rightarrow> time \<Rightarrow> ('p, 'w) store_iface" where
  "DB px now =
     \<lparr>st_CreateIntent = db_CreateIntent px now, st_GetIntent = db_GetIntent px,
      st_ListIntents = (\<lambda>ord. db_ListIntents px), st_UpdateIntent = db_UpdateIntent px,
      st_AddCapture = db_AddCapture px now, st_CapturesFor = db_CapturesFor px,
      st_AddSettlement = db_AddSettlement px now, st_SettlementsFor = db_SettlementsFor px,
      st_AddRefund = db_AddRefund px now, st_RefundsFor = db_RefundsFor px,
      st_AddChargeback = db_AddChargeback px now, st_ChargebacksFor = db_ChargebacksFor px,
      st_UpdateChargeback = (\<lambda>t ord. db_UpdateChargeback px t),
      st_RecordWebhook = db_RecordWebhook px now,
      st_MarkWebhookProcessed = (\<lambda>t. db_MarkWebhookProcessed px),
      st_WebhookExists = db_WebhookExists px\<rparr>"

lemma DB_sel [simp]:
  "st_CreateIntent (DB px now) = db_CreateIntent px now" "st_GetIntent (DB px now) = db_GetIntent px"
  "st_ListIntents (DB px now) ord = db_ListIntents px"
  "st_UpdateIntent (DB px now) = db_UpdateIntent px"
  "st_AddCapture (DB px now) = db_AddCapture px now"
  "st_CapturesFor (DB px now) = db_CapturesFor px"
  "st_AddSettlement (DB px now) = db_AddSettlement px now"
  "st_SettlementsFor (DB px now) = db_SettlementsFor px"
  "st_AddRefund (DB px now) = db_AddRefund px now" "st_RefundsFor (DB px now) = db_RefundsFor px"
  "st_AddChargeback (DB px now) = db_AddChargeback px now"
  "st_ChargebacksFor (DB px now) = db_ChargebacksFor px"
  "st_UpdateChargeback (DB px now) t ord = db_UpdateChargeback px t"
  "st_RecordWebhook (DB px now) = db_RecordWebhook px now"
  "st_MarkWebhookProcessed (DB px now) t = db_MarkWebhookProcessed px"
  "st_WebhookExists (DB px now) = db_WebhookExists px"
  by (simp_all add: DB_def)

lemma same_intent_upd [simp]: "same_intent i (i\<lparr>iCreatedAt := c, iUpdatedAt := u\<rparr>)"
  unfolding same_intent_def by blast

lemma same_intent_trans: "same_intent i j \<Longrightarrow> same_intent j k \<Longrightarrow> same_intent i k"
  unfolding same_intent_def by (elim exE, hypsubst, simp, blast)

lemma find_key_None: "find (\<lambda>r. key r = k) rs = None \<longleftrightarrow> k \<notin> key ` set rs"
  by (auto simp: find_None_iff)

section \<open>The tables\<close>

record tables =
  tbIntents :: "intent_row list"
  tbCaptures :: "capture list"
  tbSettlements :: "settlement list"
  tbRefunds :: "refund list"
  tbChargebacks :: "chargeback list"
  tbWebhooks :: "webhook list"

definition no_tables :: tables where
  "no_tables = \<lparr>tbIntents = [], tbCaptures = [], tbSettlements = [], tbRefunds = [],
     tbChargebacks = [], tbWebhooks = []\<rparr>"

text \<open>\<open>INSERT ... ON CONFLICT (key) DO NOTHING\<close> for the primary key of a table.\<close>

definition insert_new :: "('r \<Rightarrow> 'k) \<Rightarrow> 'r \<Rightarrow> 'r list \<Rightarrow> 'r list" where
  "insert_new key r rs = (if key r \<in> key ` set rs then rs else rs @ [r])"

text \<open>
  For a table with a further unique key: a conflict on the named key does nothing, one on the
  primary key is an error.
\<close>

definition insert_unique :: "('r \<Rightarrow> 'k) \<Rightarrow> ('r \<Rightarrow> 'i) \<Rightarrow> 'r \<Rightarrow> 'r list \<Rightarrow> 'r list option" where
  "insert_unique key pk r rs =
     (if key r \<in> key ` set rs then Some rs
      else if pk r \<in> pk ` set rs then None
      else Some (rs @ [r]))"

text \<open>
  What a statement does to the tables; \<open>None\<close> violates a constraint. \<open>ts\<close> is the precision of
  a timestamp column, \<open>jb\<close> the normal form of a JSONB column, \<open>sn\<close> the server's \<open>now()\<close>.
\<close>

definition stored_row :: "(time \<Rightarrow> time) \<Rightarrow> (bytes \<Rightarrow> bytes) \<Rightarrow> intent_row \<Rightarrow> intent_row" where
  "stored_row ts jb r =
     r\<lparr>irCreatedAt := ts (irCreatedAt r), irUpdatedAt := ts (irUpdatedAt r), irHistory := jb (irHistory r)\<rparr>"

fun run_stmt ::
  "(time \<Rightarrow> time) \<Rightarrow> (bytes \<Rightarrow> bytes) \<Rightarrow> time \<Rightarrow> stmt \<Rightarrow> tables \<Rightarrow> tables option" where
  "run_stmt ts jb sn (InsertIntent r) T =
     Some (T\<lparr>tbIntents := insert_new irID (stored_row ts jb r) (tbIntents T)\<rparr>)"
| "run_stmt ts jb sn (SetIntent k r) T =
     Some (T\<lparr>tbIntents := map (\<lambda>r0. if irID r0 = k
        then (stored_row ts jb r)\<lparr>irID := irID r0, irCreatedAt := irCreatedAt r0\<rparr> else r0) (tbIntents T)\<rparr>)"
| "run_stmt ts jb sn (InsertCapture c) T =
     Some (T\<lparr>tbCaptures := insert_new caID (c\<lparr>caCapturedAt := ts (caCapturedAt c)\<rparr>) (tbCaptures T)\<rparr>)"
| "run_stmt ts jb sn (InsertSettlement s) T =
     Some (T\<lparr>tbSettlements := insert_new seID (s\<lparr>seSettledAt := ts (seSettledAt s)\<rparr>) (tbSettlements T)\<rparr>)"
| "run_stmt ts jb sn (InsertRefund r) T =
     Some (T\<lparr>tbRefunds := insert_new reID (r\<lparr>reRefundedAt := ts (reRefundedAt r)\<rparr>) (tbRefunds T)\<rparr>)"
| "run_stmt ts jb sn (InsertChargeback c) T =
     map_option (\<lambda>cs. T\<lparr>tbChargebacks := cs\<rparr>)
       (insert_unique cbCaseRef cbID
         (c\<lparr>cbCreatedAt := ts (cbCreatedAt c), cbUpdatedAt := ts (cbUpdatedAt c)\<rparr>) (tbChargebacks T))"
| "run_stmt ts jb sn (SetChargeback ref amount reason stage t) T =
     Some (T\<lparr>tbChargebacks := map (\<lambda>c. if cbCaseRef c = ref
        then c\<lparr>cbAmount := amount, cbReason := reason, cbStage := stage, cbUpdatedAt := ts t\<rparr> else c)
        (tbChargebacks T)\<rparr>)"
| "run_stmt ts jb sn (InsertWebhook w) T =
     map_option (\<lambda>ws. T\<lparr>tbWebhooks := ws\<rparr>)
       (insert_unique (\<lambda>w. (whRail w, whExternalEventID w)) whID
         (w\<lparr>whReceivedAt := ts (whReceivedAt w), whProcessedAt := None\<rparr>) (tbWebhooks T))"
| "run_stmt ts jb sn (SetProcessed rail ev) T =
     Some (T\<lparr>tbWebhooks := map (\<lambda>w. if whRail w = rail \<and> whExternalEventID w = ev
        then w\<lparr>whProcessedAt := Some (ts sn)\<rparr> else w) (tbWebhooks T)\<rparr>)"

definition row_at :: "string \<Rightarrow> tables \<Rightarrow> intent_row option" where
  "row_at k T = find (\<lambda>r. irID r = k) (tbIntents T)"

definition db_stored :: "('p, 't) pool \<Rightarrow> tables \<Rightarrow> (string \<rightharpoonup> intent)" where
  "db_stored px T = (\<lambda>k. map_option (scanIntent px) (row_at k T))"

section \<open>What is relied on of the server\<close>

text \<open>
  \<open>tabs p\<close> are the committed tables, \<open>work tx\<close> the tables as the transaction sees them. Any
  call may fail. A statement or a commit that reports success has its effect; one that reports
  an error has it or leaves the tables alone.
\<close>

locale postgres =
  fixes px :: "('p, 't) pool"
    and tabs :: "'p \<Rightarrow> tables"
    and work :: "'t \<Rightarrow> tables"
    and ts :: "time \<Rightarrow> time"
    and jb :: "bytes \<Rightarrow> bytes"
  assumes exec_effect: "plExec px st p = (r, p') \<Longrightarrow>
      (\<exists>sn. run_stmt ts jb sn st (tabs p) = Some (tabs p')) \<or> (r \<noteq> None \<and> tabs p' = tabs p)"
    and intent_read: "plIntent px k p = Inr row \<Longrightarrow> row_at k (tabs p) = Some row"
    and begin_sees: "plBegin px p = Inr tx \<Longrightarrow> work tx = tabs p"
    and tx_intent_read: "txIntent px k tx = Inr row \<Longrightarrow> row_at k (work tx) = Some row"
    and tx_chargeback_read: "txChargeback px ref tx = Inr c \<Longrightarrow>
      find (\<lambda>c. cbCaseRef c = ref) (tbChargebacks (work tx)) = Some c"
    and tx_exec_effect: "txExec px st tx = (None, tx') \<Longrightarrow>
      \<exists>sn. run_stmt ts jb sn st (work tx) = Some (work tx')"
    and commit_effect: "txCommit px tx p = (r, p') \<Longrightarrow>
      tabs p' = work tx \<or> (r \<noteq> None \<and> tabs p' = tabs p)"
    and rollback_effect: "tabs (txRollback px tx p) = tabs p"
    and history_codec: "jsUnmarshal px (jb (jsMarshal px h)) = h" "jb (jsMarshal px h) \<noteq> []"
begin

lemmas rollback [simp] = rollback_effect

lemma scan_stored_row:
  "scanIntent px (stored_row ts jb (rowOf px i)) =
     i\<lparr>iCreatedAt := ts (iCreatedAt i), iUpdatedAt := ts (iUpdatedAt i)\<rparr>"
  by (simp add: scanIntent_def stored_row_def rowOf_def history_codec)

end

subsection \<open>Lookups in the tables\<close>

lemma find_append:
  "find P (xs @ ys) = (case find P xs of None \<Rightarrow> find P ys | Some x \<Rightarrow> Some x)"
  by (induction xs) auto

lemma find_key_insert_new:
  "find (\<lambda>r. key r = k) (insert_new key r rs) =
     (if k = key r \<and> k \<notin> key ` set rs then Some r else find (\<lambda>r. key r = k) rs)"
proof (cases "key r \<in> key ` set rs")
  case True
  then show ?thesis by (auto simp: insert_new_def)
next
  case False
  have "find (\<lambda>r. key r = k) rs = None" if "k = key r" using False that by (simp add: find_key_None)
  with False show ?thesis by (auto simp: insert_new_def find_append split: option.split)
qed

lemma find_map_key:
  assumes "\<And>r. key (f r) = key r"
  shows "find (\<lambda>r. key r = k) (map (\<lambda>r. if key r = k0 then f r else r) rs) =
    (if k = k0 then map_option f (find (\<lambda>r. key r = k) rs) else find (\<lambda>r. key r = k) rs)"
  using assms by (induction rs) auto

lemma row_at_insert:
  "row_at k (T\<lparr>tbIntents := insert_new irID r (tbIntents T)\<rparr>) =
     (if k = irID r \<and> row_at k T = None then Some r else row_at k T)"
  by (auto simp add: row_at_def find_key_insert_new find_key_None)

lemma row_at_map:
  "row_at k (T\<lparr>tbIntents := map (\<lambda>r0. if irID r0 = k0
        then r\<lparr>irID := irID r0, irCreatedAt := irCreatedAt r0\<rparr> else r0) (tbIntents T)\<rparr>) =
     (if k = k0 then map_option (\<lambda>r0. r\<lparr>irID := irID r0, irCreatedAt := irCreatedAt r0\<rparr>) (row_at k T)
      else row_at k T)"
  using find_map_key [of irID "\<lambda>r0. r\<lparr>irID := irID r0, irCreatedAt := irCreatedAt r0\<rparr>" k k0 "tbIntents T"]
  by (simp add: row_at_def)

lemma row_at_ID: "row_at k T = Some r \<Longrightarrow> irID r = k"
  by (auto simp: row_at_def find_Some_iff)


text \<open>Statements on the other tables leave the intents alone.\<close>

definition touches_intents :: "stmt \<Rightarrow> bool" where
  "touches_intents st = (case st of InsertIntent _ \<Rightarrow> True | SetIntent _ _ \<Rightarrow> True | _ \<Rightarrow> False)"

lemma run_stmt_intents:
  "\<not> touches_intents st \<Longrightarrow> run_stmt ts jb sn st T = Some T' \<Longrightarrow> tbIntents T' = tbIntents T"
  by (cases st) (auto simp: touches_intents_def)

context postgres
begin

lemma exec_frame:
  assumes "\<not> touches_intents st"
  shows "db_stored px (tabs (snd (plExec px st p))) = db_stored px (tabs p)"
proof (cases "plExec px st p")
  case (Pair r p')
  from exec_effect [OF Pair] run_stmt_intents [OF assms] have "tbIntents (tabs p') = tbIntents (tabs p)"
    by auto
  with Pair show ?thesis by (simp add: db_stored_def row_at_def)
qed

lemma insert_stored:
  assumes "same_intent i i2"
  shows "db_stored px (tabs (snd (plExec px (InsertIntent (rowOf px i2)) p))) = db_stored px (tabs p) \<or>
    (\<exists>j. same_intent i j \<and>
       db_stored px (tabs (snd (plExec px (InsertIntent (rowOf px i2)) p))) =
         (db_stored px (tabs p))(iID i \<mapsto> j))"
proof (cases "plExec px (InsertIntent (rowOf px i2)) p")
  case (Pair r p')
  define j where "j = i2\<lparr>iCreatedAt := ts (iCreatedAt i2), iUpdatedAt := ts (iUpdatedAt i2)\<rparr>"
  have j: "same_intent i j" using assms by (rule same_intent_trans) (auto simp: j_def same_intent_upd)
  have ID: "irID (stored_row ts jb (rowOf px i2)) = iID i" "iID i2 = iID i"
    using assms by (auto simp: stored_row_def rowOf_def same_intent_def)
  from exec_effect [OF Pair]
  have "tabs p' = tabs p \<or> tabs p' = tabs p\<lparr>tbIntents :=
      insert_new irID (stored_row ts jb (rowOf px i2)) (tbIntents (tabs p))\<rparr>" by auto
  then have "tabs p' = tabs p \<or> (\<forall>k. db_stored px (tabs p') k =
      (if k = iID i \<and> row_at k (tabs p) = None then Some j else db_stored px (tabs p) k))"
    using scan_stored_row [of i2, folded j_def] by (auto simp: db_stored_def row_at_insert ID)
  then have "db_stored px (tabs p') = db_stored px (tabs p) \<or>
      db_stored px (tabs p') = (db_stored px (tabs p))(iID i \<mapsto> j)"
    by (cases "row_at (iID i) (tabs p)") (auto simp: fun_eq_iff split: if_splits)
  with Pair j show ?thesis by auto
qed

lemma db_UpdateIntent_ran:
  assumes "plBegin px p = Inr tx" "txIntent px iid tx = Inr row" "fn (scanIntent px row) w = (r0, i', w0)"
  shows "db_UpdateIntent px now iid fn p w =
    (case r0 of
       FnPanic \<Rightarrow> (UpdPanic, txRollback px tx p, w0)
     | FnErr e \<Rightarrow> (UpdErr e, txRollback px tx p, w0)
     | FnOk \<Rightarrow>
         (case txExec px (SetIntent iid (rowOf px (i'\<lparr>iUpdatedAt := now\<rparr>))) tx of
            (Some e, tx1) \<Rightarrow> (UpdErr e, txRollback px tx1 p, w0)
          | (None, tx1) \<Rightarrow>
              (case txCommit px tx1 p of
                 (Some e, p1) \<Rightarrow> (UpdErr e, txRollback px tx1 p1, w0)
               | (None, p1) \<Rightarrow> (UpdOk (i'\<lparr>iUpdatedAt := now\<rparr>), txRollback px tx1 p1, w0))))"
  using assms by (cases r0) (simp_all add: db_UpdateIntent_def Let_def)

text \<open>A callback that ran: what is reported, and what the transaction may have committed.\<close>

lemma db_UpdateIntent_cases:
  assumes "plBegin px p = Inr tx" "txIntent px iid tx = Inr row" "fn (scanIntent px row) w = (r0, i', w0)"
    and "db_UpdateIntent px now iid fn p w = (r, p', w')"
  shows "w' = w0 \<and> (r = UpdPanic \<longrightarrow> r0 = FnPanic) \<and>
    (tabs p' = tabs p \<or>
     r0 = FnOk \<and> (\<exists>tx1. txExec px (SetIntent iid (rowOf px (i'\<lparr>iUpdatedAt := now\<rparr>))) tx = (None, tx1) \<and>
       tabs p' = work tx1))"
proof (cases r0)
  case FnOk
  obtain e1 tx1 where x: "txExec px (SetIntent iid (rowOf px (i'\<lparr>iUpdatedAt := now\<rparr>))) tx = (e1, tx1)"
    by fastforce
  obtain e2 p1 where c: "txCommit px tx1 p = (e2, p1)" by fastforce
  from commit_effect [OF c] have "tabs p1 = tabs p \<or> tabs p1 = work tx1" by blast
  with assms(4) FnOk x c show ?thesis
    unfolding db_UpdateIntent_ran [where fn = fn, OF assms(1-3)] by (cases e1; cases e2) auto
qed (use assms(4) in \<open>auto simp: db_UpdateIntent_ran [where fn = fn, OF assms(1-3)]\<close>)

lemma update_stored_db:
  assumes "db_UpdateIntent px now iid fn p w = (r, p', w')"
  shows "(\<exists>e. r = UpdErr e) \<and> w' = w \<and> db_stored px (tabs p') = db_stored px (tabs p) \<or>
    (\<exists>i r0 i'. db_stored px (tabs p) iid = Some i \<and> fn i w = (r0, i', w') \<and> (r = UpdPanic \<longrightarrow> r0 = FnPanic) \<and>
       (iID i = iid \<and> iID i' = iid \<longrightarrow> db_stored px (tabs p') = db_stored px (tabs p) \<or>
         (\<exists>j. same_intent i' j \<and> db_stored px (tabs p') = (db_stored px (tabs p))(iid \<mapsto> j))))"
proof (cases "\<exists>tx row. plBegin px p = Inr tx \<and> txIntent px iid tx = Inr row")
  case False
  with assms show ?thesis by (auto simp: db_UpdateIntent_def split: sum.splits)
next
  case True
  then obtain tx row where tx: "plBegin px p = Inr tx" "txIntent px iid tx = Inr row" by blast
  let ?i = "scanIntent px row"
  obtain r0 i' w0 where f: "fn ?i w = (r0, i', w0)" by (cases "fn ?i w")
  have row: "row_at iid (tabs p) = Some row"
    using tx_intent_read [OF tx(2)] begin_sees [OF tx(1)] by simp
  then have i: "db_stored px (tabs p) iid = Some ?i" by (simp add: db_stored_def)
  let ?i1 = "i'\<lparr>iUpdatedAt := now\<rparr>"
  let ?row' = "(stored_row ts jb (rowOf px ?i1))\<lparr>irID := irID row, irCreatedAt := irCreatedAt row\<rparr>"
  note ran = db_UpdateIntent_cases [where fn = fn, OF tx f assms]
  then consider "tabs p' = tabs p"
    | tx1 where "txExec px (SetIntent iid (rowOf px ?i1)) tx = (None, tx1)" "tabs p' = work tx1"
    by blast
  then have "db_stored px (tabs p') = db_stored px (tabs p) \<or>
      db_stored px (tabs p') = (db_stored px (tabs p))(iid \<mapsto> scanIntent px ?row')"
  proof cases
    case (2 tx1)
    from tx_exec_effect [OF 2(1)] begin_sees [OF tx(1)] 2(2)
    have "tabs p' = tabs p\<lparr>tbIntents := map (\<lambda>r0. if irID r0 = iid
        then (stored_row ts jb (rowOf px ?i1))\<lparr>irID := irID r0, irCreatedAt := irCreatedAt r0\<rparr> else r0)
        (tbIntents (tabs p))\<rparr>" by simp
    then show ?thesis using row by (auto simp: db_stored_def row_at_map fun_eq_iff)
  qed simp
  moreover have "same_intent i' (scanIntent px ?row')" if "iID ?i = iid" "iID i' = iid"
  proof -
    have "scanIntent px ?row' = (scanIntent px (stored_row ts jb (rowOf px ?i1)))
        \<lparr>iID := irID row, iCreatedAt := irCreatedAt row\<rparr>" by (simp add: scanIntent_def)
    with that show ?thesis
      unfolding same_intent_def scan_stored_row
      by (intro exI [of _ "irCreatedAt row"] exI [of _ "ts now"]) (simp add: scanIntent_def)
  qed
  ultimately show ?thesis using i f ran
    by (intro disjI2 exI [of _ ?i] exI [of _ r0] exI [of _ i']) auto
qed

lemma updateChargeback_frame:
  "tbIntents (tabs (snd (db_UpdateChargeback px t ref fn p))) = tbIntents (tabs p)"
proof -
  have "tbIntents (tabs p') = tbIntents (tabs p)"
    if tx: "plBegin px p = Inr tx" "txExec px (SetChargeback ref a rs stg t) tx = (None, tx1)"
      "txCommit px tx1 p = (r, p')" for tx tx1 a rs stg r p'
    using begin_sees [OF tx(1)] tx_exec_effect [OF tx(2)] commit_effect [OF tx(3)]
    by (auto dest!: sym [of _ "work tx1"])
  then show ?thesis
    by (auto simp: db_UpdateChargeback_def split: sum.splits prod.splits option.splits)
qed

end

text \<open>So the store on any such server is an \<open>intent_store\<close>.\<close>

sublocale postgres \<subseteq> intent_store "DB px now" "\<lambda>p. db_stored px (tabs p)" for now
proof (unfold_locales, goal_cases)
  case (1 i p)
  define i2 where "i2 = i\<lparr>iCreatedAt := stamp_zero now (iCreatedAt i),
      iUpdatedAt := (if iUpdatedAt i = time_zero then stamp_zero now (iCreatedAt i) else iUpdatedAt i)\<rparr>"
  have "db_CreateIntent px now i p = snd (plExec px (InsertIntent (rowOf px i2)) p)"
    by (simp add: db_CreateIntent_def Let_def i2_def stamp_zero_def)
  moreover have "same_intent i i2" unfolding same_intent_def i2_def by blast
  ultimately show ?case using insert_stored by simp
next
  case (2 t iid fn p w r p' w')
  then show ?case using update_stored_db by simp
next
  case (7 t ord ref cfn p)
  show ?case using updateChargeback_frame [of t ref cfn p] by (simp add: db_stored_def row_at_def)
qed (simp_all add: db_AddCapture_def db_AddRefund_def db_AddSettlement_def db_AddChargeback_def
      db_RecordWebhook_def db_MarkWebhookProcessed_def exec_frame touches_intents_def)

end
