(* ===== verification/PostgresRef.thy ===== *)
theory PostgresRef
  imports Postgres
begin

text \<open>
  A reference server for the pool of \<open>Postgres\<close>: it keeps the tables in memory, runs the
  statements by \<open>run_stmt\<close>, and fails where its fault schedule says so, with or without the
  effect of the call. It has microsecond timestamps and a history codec of its own. The locale
  \<open>postgres\<close> is interpreted on it for every fault schedule.
\<close>

section \<open>A codec for histories\<close>

text \<open>A string with every character escaped, up to a full stop; numbers in decimal.\<close>

definition enc_str :: "string \<Rightarrow> bytes" where
  "enc_str s = concat (map (\<lambda>c. [CHR ''c'', c]) s) @ ''.''"

fun dec_str :: "bytes \<Rightarrow> string \<times> bytes" where
  "dec_str (a # c # bs) =
     (if a = CHR ''c'' then (case dec_str bs of (s, rest) \<Rightarrow> (c # s, rest)) else ([], c # bs))"
| "dec_str bs = ([], [])"

definition enc_int :: "int \<Rightarrow> bytes" where
  "enc_int k = enc_str (if k < 0 then CHR ''-'' # dec_digits (nat (- k)) else dec_digits (nat k))"

definition dec_int :: "bytes \<Rightarrow> int \<times> bytes" where
  "dec_int bs =
     (case dec_str bs of (s, rest) \<Rightarrow>
        ((if prefix ''-'' s then - int (dec_value (tl s)) else int (dec_value s)), rest))"

definition enc_event :: "event \<Rightarrow> bytes" where
  "enc_event e = enc_str (evType e) @ enc_str (evDetail e) @ enc_int (evAt e) @ enc_int (sint (evAmount e))"

definition dec_event :: "bytes \<Rightarrow> event \<times> bytes" where
  "dec_event bs =
     (case dec_str bs of (ty, b1) \<Rightarrow> case dec_str b1 of (d, b2) \<Rightarrow>
      case dec_int b2 of (at, b3) \<Rightarrow> case dec_int b3 of (amount, b4) \<Rightarrow>
        (\<lparr>evType = ty, evDetail = d, evAt = at, evAmount = word_of_int amount\<rparr>, b4))"

text \<open>A list is a mark for every event, a full stop, then the events.\<close>

definition enc_history :: "event list \<Rightarrow> bytes" where
  "enc_history h = map (\<lambda>e. CHR ''e'') h @ ''.'' @ concat (map enc_event h)"

fun dec_events :: "nat \<Rightarrow> bytes \<Rightarrow> event list" where
  "dec_events 0 bs = []"
| "dec_events (Suc n) bs = (case dec_event bs of (e, rest) \<Rightarrow> e # dec_events n rest)"

definition dec_history :: "bytes \<Rightarrow> event list" where
  "dec_history bs =
     dec_events (length (takeWhile (\<lambda>c. c = CHR ''e'') bs)) (tl (dropWhile (\<lambda>c. c = CHR ''e'') bs))"

lemma dec_enc_str [simp]: "bs \<noteq> [] \<Longrightarrow> dec_str (enc_str s @ bs) = (s, bs)"
  by (induction s) (auto simp: enc_str_def neq_Nil_conv)

lemma enc_str_ne [simp]: "enc_str s \<noteq> []"
  by (simp add: enc_str_def)

lemma dec_enc_str_end [simp]: "dec_str (enc_str s) = (s, [])"
  by (induction s) (auto simp: enc_str_def)

lemma dec_enc_str_all: "dec_str (enc_str s @ bs) = (s, bs)"
  by (cases "bs = []") simp_all

lemma dec_enc_int [simp]: "dec_int (enc_int k @ bs) = (k, bs)"
proof -
  have "\<not> prefix ''-'' (dec_digits n)" for n
    using list_all_dec_digits [of n] by (cases "dec_digits n") (auto simp: is_dec_digit_def dec_digits.simps [of 0])
  then show ?thesis
    by (auto simp: dec_int_def enc_int_def dec_enc_str_all)
qed

lemma dec_enc_event [simp]: "dec_event (enc_event e @ bs) = (e, bs)"
  by (simp add: dec_event_def enc_event_def dec_enc_str_all)

lemma dec_enc_events: "dec_events (length h) (concat (map enc_event h)) = h"
  by (induction h) simp_all

lemma dec_enc_history: "dec_history (enc_history h) = h"
proof -
  have "takeWhile (\<lambda>c. c = CHR ''e'') (enc_history h) = map (\<lambda>e. CHR ''e'') h"
    "dropWhile (\<lambda>c. c = CHR ''e'') (enc_history h) = ''.'' @ concat (map enc_event h)"
    by (simp_all add: enc_history_def takeWhile_append dropWhile_append)
  then show ?thesis by (simp add: dec_history_def dec_enc_events)
qed

lemma enc_history_ne [simp]: "enc_history h \<noteq> []"
  by (simp add: enc_history_def)

section \<open>The server\<close>

record refdb =
  rdTabs :: tables
  rdVersions :: "string list"

text \<open>
  The faults: the error of a call, if it fails, and whether a failing statement or commit has
  its effect all the same; reads are named by what they read.
\<close>

record faults =
  flExec :: "stmt \<Rightarrow> refdb \<Rightarrow> (error \<times> bool) option"
  flMigrate :: "mig_stmt \<Rightarrow> refdb \<Rightarrow> (error \<times> bool) option"
  flRead :: "string \<Rightarrow> tables \<Rightarrow> error option"
  flBegin :: "refdb \<Rightarrow> error option"
  flTxExec :: "stmt \<Rightarrow> tables \<Rightarrow> error option"
  flCommit :: "tables \<Rightarrow> refdb \<Rightarrow> (error \<times> bool) option"

definition no_faults :: faults where
  "no_faults = \<lparr>flExec = (\<lambda>st d. None), flMigrate = (\<lambda>st d. None), flRead = (\<lambda>q T. None),
     flBegin = (\<lambda>d. None), flTxExec = (\<lambda>st T. None), flCommit = (\<lambda>T d. None)\<rparr>"

definition ts_us :: "time \<Rightarrow> time" where
  "ts_us t = t div 1000 * 1000"

definition unique_violation :: error where
  "unique_violation = ErrorString ''duplicate key value violates unique constraint''"

definition ref_run :: "time \<Rightarrow> stmt \<Rightarrow> refdb \<Rightarrow> error option \<times> refdb" where
  "ref_run sn st d =
     (case run_stmt ts_us id sn st (rdTabs d) of
        None \<Rightarrow> (Some unique_violation, d)
      | Some T \<Rightarrow> (None, d\<lparr>rdTabs := T\<rparr>))"

definition ref_exec :: "faults \<Rightarrow> time \<Rightarrow> stmt \<Rightarrow> refdb \<Rightarrow> error option \<times> refdb" where
  "ref_exec fl sn st d =
     (case flExec fl st d of
        Some (e, done) \<Rightarrow> (Some e, if done then snd (ref_run sn st d) else d)
      | None \<Rightarrow> ref_run sn st d)"

definition ref_read :: "faults \<Rightarrow> string \<Rightarrow> tables \<Rightarrow> (error + 'a) \<Rightarrow> error + 'a" where
  "ref_read fl q T x = (case flRead fl q T of Some e \<Rightarrow> Inl e | None \<Rightarrow> x)"

definition row_or_none :: "'a option \<Rightarrow> error + 'a" where
  "row_or_none x = (case x of None \<Rightarrow> Inl ErrNoRows | Some r \<Rightarrow> Inr r)"

fun ref_version :: "mig_stmt \<Rightarrow> refdb \<Rightarrow> refdb" where
  "ref_version (RecordVersion v t) d = d\<lparr>rdVersions := List.insert v (rdVersions d)\<rparr>"
| "ref_version (DeleteVersion v) d = d\<lparr>rdVersions := removeAll v (rdVersions d)\<rparr>"
| "ref_version _ d = d"

definition ref_migrate :: "faults \<Rightarrow> mig_stmt \<Rightarrow> refdb \<Rightarrow> error option \<times> refdb" where
  "ref_migrate fl st d =
     (case flMigrate fl st d of
        Some (e, done) \<Rightarrow> (Some e, if done then ref_version st d else d)
      | None \<Rightarrow> (None, ref_version st d))"

text \<open>The conditions of the queries on \<open>intents\<close> ordered by creation, by their text.\<close>

definition select_sem :: "string \<Rightarrow> string list \<Rightarrow> (intent_row \<Rightarrow> bool) option" where
  "select_sem q args =
     (let order = '' ORDER BY created_at ASC''
      in if q = intentSelectSQL @ order \<and> args = [] then Some (\<lambda>r. True)
         else if q = intentSelectSQL @ '' WHERE status=$1'' @ order \<and> length args = 1
              then Some (\<lambda>r. statusString (irStatus r) = args ! 0)
         else if q = intentSelectSQL @ '' WHERE rail=$1'' @ order \<and> length args = 1
              then Some (\<lambda>r. irRail r = args ! 0)
         else if q = intentSelectSQL @ '' WHERE status=$1 AND rail=$2'' @ order \<and> length args = 2
              then Some (\<lambda>r. statusString (irStatus r) = args ! 0 \<and> irRail r = args ! 1)
         else None)"

definition ref_intents :: "string \<Rightarrow> string list \<Rightarrow> tables \<Rightarrow> (error + intent_row) list option" where
  "ref_intents q args T =
     map_option (\<lambda>P. map Inr (sort_key irCreatedAt (filter P (tbIntents T)))) (select_sem q args)"

definition ref_pool :: "faults \<Rightarrow> time \<Rightarrow> (refdb, tables) pool" where
  "ref_pool fl sn =
     \<lparr>plPing = (\<lambda>d. flRead fl ''ping'' (rdTabs d)),
      plExec = ref_exec fl sn,
      plIntent = (\<lambda>k d. ref_read fl ''intent'' (rdTabs d) (row_or_none (row_at k (rdTabs d)))),
      plIntents = (\<lambda>q args d. ref_read fl ''intents'' (rdTabs d)
        (case ref_intents q args (rdTabs d) of
           None \<Rightarrow> Inl (ErrorString ''syntax error'') | Some rs \<Rightarrow> Inr rs)),
      plCaptures = (\<lambda>k d. ref_read fl ''captures'' (rdTabs d)
        (Inr (map Inr (sort_key caCapturedAt (filter (\<lambda>c. caIntentID c = k) (tbCaptures (rdTabs d))))))),
      plSettlements = (\<lambda>k d. ref_read fl ''settlements'' (rdTabs d)
        (Inr (map Inr (sort_key seSettledAt (filter (\<lambda>c. seIntentID c = k) (tbSettlements (rdTabs d))))))),
      plRefunds = (\<lambda>k d. ref_read fl ''refunds'' (rdTabs d)
        (Inr (map Inr (sort_key reRefundedAt (filter (\<lambda>c. reIntentID c = k) (tbRefunds (rdTabs d))))))),
      plChargebacks = (\<lambda>k d. ref_read fl ''chargebacks'' (rdTabs d)
        (Inr (map Inr (sort_key cbCreatedAt (filter (\<lambda>c. cbIntentID c = k) (tbChargebacks (rdTabs d))))))),
      plExists = (\<lambda>r ev d. ref_read fl ''webhook'' (rdTabs d)
        (Inr (\<exists>w \<in> set (tbWebhooks (rdTabs d)). whRail w = r \<and> whExternalEventID w = ev))),
      plMigrate = ref_migrate fl,
      plVersion = (\<lambda>v d. ref_read fl ''version'' (rdTabs d) (Inr (v \<in> set (rdVersions d)))),
      plBegin = (\<lambda>d. case flBegin fl d of Some e \<Rightarrow> Inl e | None \<Rightarrow> Inr (rdTabs d)),
      txIntent = (\<lambda>k T. ref_read fl ''tx intent'' T (row_or_none (row_at k T))),
      txChargeback = (\<lambda>ref T. ref_read fl ''tx chargeback'' T
        (row_or_none (find (\<lambda>c. cbCaseRef c = ref) (tbChargebacks T)))),
      txExec = (\<lambda>st T. case flTxExec fl st T of
         Some e \<Rightarrow> (Some e, T)
       | None \<Rightarrow> (case run_stmt ts_us id sn st T of
                    None \<Rightarrow> (Some unique_violation, T) | Some T' \<Rightarrow> (None, T'))),
      txCommit = (\<lambda>T d. case flCommit fl T d of
         Some (e, done) \<Rightarrow> (Some e, if done then d\<lparr>rdTabs := T\<rparr> else d)
       | None \<Rightarrow> (None, d\<lparr>rdTabs := T\<rparr>)),
      txRollback = (\<lambda>T d. d),
      jsMarshal = enc_history, jsUnmarshal = dec_history\<rparr>"

lemma ref_pool_sel [simp]:
  "plExec (ref_pool fl sn) = ref_exec fl sn" "plMigrate (ref_pool fl sn) = ref_migrate fl"
  "txRollback (ref_pool fl sn) T d = d"
  "jsMarshal (ref_pool fl sn) = enc_history" "jsUnmarshal (ref_pool fl sn) = dec_history"
  by (simp_all add: ref_pool_def)

lemma ref_read_Inr: "ref_read fl q T x = Inr y \<longleftrightarrow> flRead fl q T = None \<and> x = Inr y"
  by (simp add: ref_read_def split: option.split)

lemma row_or_none_Inr [simp]: "row_or_none x = Inr y \<longleftrightarrow> x = Some y"
  by (simp add: row_or_none_def split: option.split)

interpretation ref: postgres "ref_pool fl sn" rdTabs id ts_us id for fl sn
proof (unfold_locales, goal_cases)
  case (1 st p r p')
  then show ?case
    by (auto simp: ref_exec_def ref_run_def split: option.splits if_splits prod.splits)
next
  case (6 st tx tx')
  then show ?case by (auto simp: ref_pool_def split: option.splits)
next
  case (7 tx p r p')
  then show ?case by (auto simp: ref_pool_def split: option.splits if_splits prod.splits)
next
  case (9 h)
  show ?case by (simp add: dec_enc_history)
next
  case (10 h)
  show ?case by simp
qed (auto simp: ref_pool_def ref_read_Inr split: option.splits)

interpretation ref_versions: version_table "plMigrate (ref_pool fl sn)" "plVersion (ref_pool fl sn)"
  "\<lambda>d. set (rdVersions d)" for fl sn
  by unfold_locales
    (auto simp: ref_pool_def ref_migrate_def ref_read_Inr split: option.splits if_splits prod.splits)

end
