(* ===== verification/PostgresRefine.thy ===== *)
theory PostgresRefine
  imports PostgresRef "HOL-Library.Multiset"
begin

text \<open>
  The Postgres store on a server that does not fail, as a refinement of the in-memory store:
  every call amounts to a call of \<open>MemStore\<close> on the abstraction \<open>mem_of\<close> of the tables, with
  the callback of \<open>UpdateIntent\<close> run in a transaction (\<open>tx_cb\<close>) and the time stamps of the
  columns.
\<close>

section \<open>A server that does not fail\<close>

locale postgres_up = postgres +
  assumes up_exec: "(\<And>sn. run_stmt ts jb sn st (tabs p) \<noteq> None) \<Longrightarrow> fst (plExec px st p) = None"
    and up_intent: "plIntent px k p = row_or_none (row_at k (tabs p))"
    and up_captures: "\<exists>cs. plCaptures px k p = Inr (map Inr cs) \<and> sorted (map caCapturedAt cs) \<and>
      mset cs = mset (filter (\<lambda>c. caIntentID c = k) (tbCaptures (tabs p)))"
    and up_select: "select_sem q args = Some P \<Longrightarrow>
      \<exists>rs. plIntents px q args p = Inr (map Inr rs) \<and> sorted (map irCreatedAt rs) \<and>
        mset rs = mset (filter P (tbIntents (tabs p)))"
    and up_exists: "plExists px rl ev p =
      Inr (\<exists>w \<in> set (tbWebhooks (tabs p)). whRail w = rl \<and> whExternalEventID w = ev)"
    and up_begin: "\<exists>tx. plBegin px p = Inr tx"
    and up_tx_intent: "txIntent px k tx = row_or_none (row_at k (work tx))"
    and up_tx_exec: "(\<And>sn. run_stmt ts jb sn st (work tx) \<noteq> None) \<Longrightarrow> fst (txExec px st tx) = None"
    and up_commit: "fst (txCommit px tx p) = None"

interpretation ref_up: postgres_up "ref_pool no_faults sn" rdTabs id ts_us id for sn
proof (unfold_locales, goal_cases)
  case (1 st p)
  from 1 [of sn] show ?case by (auto simp: ref_exec_def no_faults_def ref_run_def split: option.split)
next
  case (3 k p)
  show ?case by (auto simp: ref_pool_def ref_read_def no_faults_def
        intro!: exI [of _ "sort_key caCapturedAt (filter (\<lambda>c. caIntentID c = k) (tbCaptures (rdTabs p)))"])
next
  case (4 q args P p)
  then show ?case by (auto simp: ref_pool_def ref_read_def no_faults_def ref_intents_def
        intro!: exI [of _ "sort_key irCreatedAt (filter P (tbIntents (rdTabs p)))"])
next
  case (8 st tx)
  from 8 [of sn] show ?case by (auto simp: ref_pool_def no_faults_def split: option.split)
qed (simp_all add: ref_pool_def ref_read_def no_faults_def)

section \<open>The abstraction\<close>

definition group_by :: "('r \<Rightarrow> 'k) \<Rightarrow> 'r list \<Rightarrow> ('k \<rightharpoonup> 'r list)" where
  "group_by key rs = (\<lambda>k. case filter (\<lambda>r. key r = k) rs of [] \<Rightarrow> None | xs \<Rightarrow> Some xs)"

definition wh_key :: "webhook \<Rightarrow> string" where
  "wh_key w = webhookKey (whRail w) (whExternalEventID w)"

definition mem_of :: "('p, 't) pool \<Rightarrow> tables \<Rightarrow> memstore" where
  "mem_of px T =
     \<lparr>ms_intents = db_stored px T,
      ms_captures = group_by caIntentID (tbCaptures T),
      ms_settlements = group_by seIntentID (tbSettlements T),
      ms_refunds = group_by reIntentID (tbRefunds T),
      ms_chargebacks = group_by cbIntentID (tbChargebacks T),
      ms_webhooks = (\<lambda>k. find (\<lambda>w. wh_key w = k) (tbWebhooks T))\<rparr>"

text \<open>A callback as the transaction runs it: committed with its time stamp, or undone.\<close>

definition tx_cb :: "(time \<Rightarrow> time) \<Rightarrow> time \<Rightarrow> 'w callback \<Rightarrow> 'w callback" where
  "tx_cb ts now fn i w =
     (case fn i w of
        (FnOk, i', w') \<Rightarrow>
          (FnOk, i'\<lparr>iID := iID i, iCreatedAt := iCreatedAt i, iUpdatedAt := ts now\<rparr>, w')
      | (r, i', w') \<Rightarrow> (r, i, w'))"

text \<open>The calls of a client that write, on any store.\<close>

datatype 'w store_call =
    CallCreate intent
  | CallUpdate time string "'w callback"
  | CallCapture capture
  | CallSettlement settlement
  | CallRefund refund
  | CallChargeback chargeback
  | CallWebhook webhook
  | CallMark time rail string

fun run_call :: "('s, 'w) store_iface \<Rightarrow> 'w store_call \<Rightarrow> 's \<times> 'w \<Rightarrow> 's \<times> 'w" where
  "run_call I (CallCreate i) (s, w) = (st_CreateIntent I i s, w)"
| "run_call I (CallUpdate t k fn) (s, w) = snd (st_UpdateIntent I t k fn s w)"
| "run_call I (CallCapture c) (s, w) = (st_AddCapture I c s, w)"
| "run_call I (CallSettlement x) (s, w) = (st_AddSettlement I x s, w)"
| "run_call I (CallRefund r) (s, w) = (st_AddRefund I r s, w)"
| "run_call I (CallChargeback c) (s, w) = (st_AddChargeback I c s, w)"
| "run_call I (CallWebhook x) (s, w) = (snd (st_RecordWebhook I x s), w)"
| "run_call I (CallMark t rl ev) (s, w) = (st_MarkWebhookProcessed I t rl ev s, w)"

text \<open>The keys of a call are new to the tables; webhooks may come again.\<close>

fun new_keys :: "tables \<Rightarrow> 'w store_call \<Rightarrow> bool" where
  "new_keys T (CallCreate i) \<longleftrightarrow> iID i \<notin> irID ` set (tbIntents T)"
| "new_keys T (CallCapture c) \<longleftrightarrow> caID c \<notin> caID ` set (tbCaptures T)"
| "new_keys T (CallSettlement x) \<longleftrightarrow> seID x \<notin> seID ` set (tbSettlements T)"
| "new_keys T (CallRefund r) \<longleftrightarrow> reID r \<notin> reID ` set (tbRefunds T)"
| "new_keys T (CallChargeback c) \<longleftrightarrow>
     cbID c \<notin> cbID ` set (tbChargebacks T) \<and> cbCaseRef c \<notin> cbCaseRef ` set (tbChargebacks T)"
| "new_keys T (CallWebhook x) \<longleftrightarrow>
     whID x \<notin> whID ` set (tbWebhooks T) \<and> whProcessedAt x = None \<and> NUL \<notin> set (whRail x) \<and>
     (\<forall>w \<in> set (tbWebhooks T). NUL \<notin> set (whRail w))"
| "new_keys T (CallMark t rl ev) \<longleftrightarrow> NUL \<notin> set rl \<and> (\<forall>w \<in> set (tbWebhooks T). NUL \<notin> set (whRail w))"
| "new_keys T _ \<longleftrightarrow> True"

text \<open>The call of \<open>MemStore\<close> a call of the Postgres store amounts to.\<close>

definition col_intent :: "(time \<Rightarrow> time) \<Rightarrow> time \<Rightarrow> intent \<Rightarrow> intent" where
  "col_intent ts now i =
     (let c = stamp_zero now (iCreatedAt i)
      in i\<lparr>iCreatedAt := ts c, iUpdatedAt := ts (stamp_zero c (iUpdatedAt i))\<rparr>)"

inductive amounts_to :: "(time \<Rightarrow> time) \<Rightarrow> time \<Rightarrow> 'w store_call \<Rightarrow> 'w store_call \<Rightarrow> bool"
  for ts now where
  "amounts_to ts now (CallCreate i) (CallCreate (col_intent ts now i))"
| "amounts_to ts now (CallUpdate t k fn) (CallUpdate t k (tx_cb ts t fn))"
| "amounts_to ts now (CallCapture c) (CallCapture (c\<lparr>caCapturedAt := ts (stamp_zero now (caCapturedAt c))\<rparr>))"
| "amounts_to ts now (CallSettlement x)
     (CallSettlement (x\<lparr>seSettledAt := ts (stamp_zero now (seSettledAt x))\<rparr>))"
| "amounts_to ts now (CallRefund r) (CallRefund (r\<lparr>reRefundedAt := ts (stamp_zero now (reRefundedAt r))\<rparr>))"
| "amounts_to ts now (CallChargeback c) (CallChargeback
     (c\<lparr>cbCreatedAt := ts (stamp_zero now (cbCreatedAt c)), cbUpdatedAt := ts now\<rparr>))"
| "amounts_to ts now (CallWebhook x) (CallWebhook (x\<lparr>whReceivedAt := ts (stamp_zero now (whReceivedAt x))\<rparr>))"
| "amounts_to ts now (CallMark t rl ev) (CallMark t' rl ev)"

inductive_simps amounts_to_simps [simp]:
  "amounts_to ts now (CallCreate i) c'" "amounts_to ts now (CallUpdate t k fn) c'"
  "amounts_to ts now (CallCapture c) c'" "amounts_to ts now (CallSettlement x) c'"
  "amounts_to ts now (CallRefund r) c'" "amounts_to ts now (CallChargeback cb) c'"
  "amounts_to ts now (CallWebhook x) c'" "amounts_to ts now (CallMark t rl ev) c'"

text \<open>A sequence of calls each of which has new keys when it is made.\<close>

fun new_run ::
  "('p, 't) pool \<Rightarrow> time \<Rightarrow> ('p \<Rightarrow> tables) \<Rightarrow> 'w store_call list \<Rightarrow> 'p \<times> 'w \<Rightarrow> bool" where
  "new_run px now tabs [] s \<longleftrightarrow> True"
| "new_run px now tabs (c # cs) s \<longleftrightarrow>
     new_keys (tabs (fst s)) c \<and> new_run px now tabs cs (run_call (DB px now) c s)"

text \<open>The query the code builds means the conjunction of the filters that are given.\<close>

lemma select_listQuery:
  "select_sem (fst (listQuery status rail)) (snd (listQuery status rail)) =
     Some (\<lambda>r. (status = '''' \<or> statusString (irStatus r) = status) \<and> (rail = '''' \<or> irRail r = rail))"
proof -
  have one: "strconv_FormatInt 1 = ''1''" and two: "strconv_FormatInt 2 = ''2''"
    by (code_simp, code_simp)
  show ?thesis
    by (auto simp: listQuery_def Let_def joinAnd_def select_sem_def one two)
qed

lemma group_by_snoc:
  "group_by key (rs @ [r]) = (group_by key rs)(key r \<mapsto> slice_at (group_by key rs) (key r) @ [r])"
  by (auto simp: group_by_def slice_at_def fun_eq_iff split: list.splits option.splits)


lemma slice_group_by: "slice_at (group_by key rs) k = filter (\<lambda>r. key r = k) rs"
  by (simp add: slice_at_def group_by_def split: list.split)

lemma webhookKey_inj:
  "NUL \<notin> set r \<Longrightarrow> NUL \<notin> set r' \<Longrightarrow> webhookKey r ev = webhookKey r' ev' \<longleftrightarrow> r = r' \<and> ev = ev'"
  by (auto simp: webhookKey_def dest: join_inj_left)

lemma wh_key_inj:
  "NUL \<notin> set (whRail w) \<Longrightarrow> NUL \<notin> set (whRail w') \<Longrightarrow>
   wh_key w = wh_key w' \<longleftrightarrow> whRail w = whRail w' \<and> whExternalEventID w = whExternalEventID w'"
  by (simp add: wh_key_def webhookKey_inj)

lemma wh_key_recv: "wh_key (w\<lparr>whReceivedAt := t\<rparr>) = wh_key w"
  by (simp add: wh_key_def)

context postgres_up
begin

lemma exec_run:
  assumes "\<And>sn. run_stmt ts jb sn st (tabs p) \<noteq> None"
  obtains sn where "run_stmt ts jb sn st (tabs p) = Some (tabs (snd (plExec px st p)))"
  using up_exec [OF assms] exec_effect [of st p "fst (plExec px st p)" "snd (plExec px st p)"] that
  by (metis prod.collapse)

lemma create_refines:
  assumes "iID i \<notin> irID ` set (tbIntents (tabs p))"
  shows "mem_of px (tabs (db_CreateIntent px now i p)) =
    mem_CreateIntent (col_intent ts now i) (mem_of px (tabs p))"
proof -
  define i2 where "i2 = i\<lparr>iCreatedAt := stamp_zero now (iCreatedAt i),
      iUpdatedAt := stamp_zero (stamp_zero now (iCreatedAt i)) (iUpdatedAt i)\<rparr>"
  have c: "db_CreateIntent px now i p = snd (plExec px (InsertIntent (rowOf px i2)) p)"
    by (simp add: db_CreateIntent_def Let_def i2_def stamp_zero_def)
  have row: "irID (stored_row ts jb (rowOf px i2)) = iID i"
    by (simp add: stored_row_def rowOf_def i2_def)
  have none: "row_at (iID i) (tabs p) = None" using assms by (simp add: row_at_def find_key_None)
  have scan: "scanIntent px (stored_row ts jb (rowOf px i2)) = col_intent ts now i"
    unfolding scan_stored_row by (simp add: col_intent_def Let_def i2_def)
  obtain sn where "run_stmt ts jb sn (InsertIntent (rowOf px i2)) (tabs p) = Some (tabs (db_CreateIntent px now i p))"
    unfolding c by (rule exec_run [of "InsertIntent (rowOf px i2)" p]) auto
  then have T: "tabs (db_CreateIntent px now i p) = tabs p\<lparr>tbIntents :=
      insert_new irID (stored_row ts jb (rowOf px i2)) (tbIntents (tabs p))\<rparr>" by simp
  have "db_stored px (tabs (db_CreateIntent px now i p)) =
      (db_stored px (tabs p))(iID i \<mapsto> col_intent ts now i)"
    using none unfolding T by (auto simp: db_stored_def row_at_insert row scan fun_eq_iff)
  moreover have "iID (col_intent ts now i) = iID i" by (simp add: col_intent_def Let_def)
  ultimately show ?thesis by (simp add: mem_of_def mem_CreateIntent_def T)
qed

lemma update_refines:
  assumes u: "db_UpdateIntent px t k fn p w = (r, p', w')"
  shows "snd (mem_UpdateIntent k (tx_cb ts t fn) (mem_of px (tabs p)) w) = (mem_of px (tabs p'), w')"
proof -
  obtain tx where tx: "plBegin px p = Inr tx" using up_begin by blast
  have wk: "work tx = tabs p" by (rule begin_sees [OF tx])
  show ?thesis
  proof (cases "row_at k (tabs p)")
    case None
    with u tx wk show ?thesis
      by (auto simp: db_UpdateIntent_def up_tx_intent row_or_none_def mem_UpdateIntent_def mem_of_def
          db_stored_def)
  next
    case (Some row)
    then have ti: "txIntent px k tx = Inr row" by (simp add: up_tx_intent wk)
    let ?i = "scanIntent px row"
    obtain r0 i' w0 where f: "fn ?i w = (r0, i', w0)" by (cases "fn ?i w")
    let ?set = "SetIntent k (rowOf px (i'\<lparr>iUpdatedAt := t\<rparr>))"
    let ?j = "i'\<lparr>iID := iID ?i, iCreatedAt := iCreatedAt ?i, iUpdatedAt := ts t\<rparr>"
    have st: "db_stored px (tabs p) k = Some ?i" using Some by (simp add: db_stored_def)
    note ran = db_UpdateIntent_cases [where fn = fn, OF tx ti f u]
    have T: "db_stored px (tabs p') = (db_stored px (tabs p))(k \<mapsto> (if r0 = FnOk then ?j else ?i)) \<and>
        (\<exists>x. tabs p' = tabs p\<lparr>tbIntents := x\<rparr>)"
    proof (cases "r0 = FnOk")
      case False
      with ran have "tabs p' = tabs p" by blast
      with False st show ?thesis by (auto simp: fun_eq_iff intro: exI [of _ "tbIntents (tabs p)"])
    next
      case True
      obtain tx1 where x: "txExec px ?set tx = (None, tx1)"
        using up_tx_exec [of ?set tx] by (cases "txExec px ?set tx") auto
      obtain p1 where c: "txCommit px tx1 p = (None, p1)"
        using up_commit [of tx1 p] by (cases "txCommit px tx1 p") auto
      have "p' = txRollback px tx1 p1"
        using u True x c unfolding db_UpdateIntent_ran [where fn = fn, OF tx ti f] by simp
      with commit_effect [OF c] have "tabs p' = work tx1" by simp
      with tx_exec_effect [OF x] wk have T: "tabs p' = tabs p\<lparr>tbIntents := map (\<lambda>r0. if irID r0 = k
          then (stored_row ts jb (rowOf px (i'\<lparr>iUpdatedAt := t\<rparr>)))\<lparr>irID := irID r0, irCreatedAt := irCreatedAt r0\<rparr>
          else r0) (tbIntents (tabs p))\<rparr>" by simp
      have "scanIntent px ((stored_row ts jb (rowOf px (i'\<lparr>iUpdatedAt := t\<rparr>)))
          \<lparr>irID := irID row, irCreatedAt := irCreatedAt row\<rparr>) =
          (scanIntent px (stored_row ts jb (rowOf px (i'\<lparr>iUpdatedAt := t\<rparr>))))
          \<lparr>iID := irID row, iCreatedAt := irCreatedAt row\<rparr>" by (simp add: scanIntent_def)
      also have "\<dots> = ?j" unfolding scan_stored_row by (simp add: scanIntent_def)
      finally show ?thesis using Some True unfolding T
        by (auto simp: db_stored_def row_at_map fun_eq_iff)
    qed
    from ran have "w' = w0" by blast
    with T f st show ?thesis
      by (cases r0) (auto simp: mem_UpdateIntent_def tx_cb_def mem_of_def)
  qed
qed

text \<open>A statement whose effect does not depend on the server's clock.\<close>

lemma exec_tabs:
  assumes "\<And>sn. run_stmt ts jb sn st (tabs p) = Some T"
  shows "tabs (snd (plExec px st p)) = T"
proof -
  obtain sn where "run_stmt ts jb sn st (tabs p) = Some (tabs (snd (plExec px st p)))"
    by (rule exec_run [of st p]) (simp add: assms)
  with assms show ?thesis by simp
qed

lemma insert_new_append: "key r \<notin> key ` set rs \<Longrightarrow> insert_new key r rs = rs @ [r]"
  by (simp add: insert_new_def)

lemma stored_other_tables:
  "db_stored px (T\<lparr>tbCaptures := a\<rparr>) = db_stored px T"
  "db_stored px (T\<lparr>tbSettlements := b\<rparr>) = db_stored px T"
  "db_stored px (T\<lparr>tbRefunds := d\<rparr>) = db_stored px T"
  "db_stored px (T\<lparr>tbChargebacks := e\<rparr>) = db_stored px T"
  "db_stored px (T\<lparr>tbWebhooks := f\<rparr>) = db_stored px T"
  by (simp_all add: db_stored_def row_at_def)

lemmas row_refine_simps =
  insert_new_append insert_unique_def mem_of_def group_by_snoc stored_other_tables

lemma capture_refines:
  assumes "caID c \<notin> caID ` set (tbCaptures (tabs p))"
  shows "mem_of px (tabs (db_AddCapture px now c p)) =
    mem_AddCapture (c\<lparr>caCapturedAt := ts (stamp_zero now (caCapturedAt c))\<rparr>) (mem_of px (tabs p))"
  unfolding db_AddCapture_def
  by (subst exec_tabs, simp) (simp add: assms row_refine_simps mem_AddCapture_def)

lemma settlement_refines:
  assumes "seID x \<notin> seID ` set (tbSettlements (tabs p))"
  shows "mem_of px (tabs (db_AddSettlement px now x p)) =
    mem_AddSettlement (x\<lparr>seSettledAt := ts (stamp_zero now (seSettledAt x))\<rparr>) (mem_of px (tabs p))"
  unfolding db_AddSettlement_def
  by (subst exec_tabs, simp) (simp add: assms row_refine_simps mem_AddSettlement_def)

lemma refund_refines:
  assumes "reID r \<notin> reID ` set (tbRefunds (tabs p))"
  shows "mem_of px (tabs (db_AddRefund px now r p)) =
    mem_AddRefund (r\<lparr>reRefundedAt := ts (stamp_zero now (reRefundedAt r))\<rparr>) (mem_of px (tabs p))"
  unfolding db_AddRefund_def
  by (subst exec_tabs, simp) (simp add: assms row_refine_simps mem_AddRefund_def)

lemma chargeback_refines:
  assumes "cbID cb \<notin> cbID ` set (tbChargebacks (tabs p))"
    "cbCaseRef cb \<notin> cbCaseRef ` set (tbChargebacks (tabs p))"
  shows "mem_of px (tabs (db_AddChargeback px now cb p)) =
    mem_AddChargeback (cb\<lparr>cbCreatedAt := ts (stamp_zero now (cbCreatedAt cb)), cbUpdatedAt := ts now\<rparr>)
      (mem_of px (tabs p))"
  unfolding db_AddChargeback_def
  by (subst exec_tabs, simp add: assms insert_unique_def)
     (simp add: row_refine_simps mem_AddChargeback_def)

lemma webhook_refines:
  assumes "new_keys (tabs p) (CallWebhook x)"
  shows "mem_of px (tabs (snd (db_RecordWebhook px now x p))) =
    snd (mem_RecordWebhook (x\<lparr>whReceivedAt := ts (stamp_zero now (whReceivedAt x))\<rparr>) (mem_of px (tabs p)))"
proof -
  let ?x = "x\<lparr>whReceivedAt := ts (stamp_zero now (whReceivedAt x))\<rparr>"
  let ?ws = "tbWebhooks (tabs p)"
  have key: "(whRail x, whExternalEventID x) \<in> (\<lambda>w. (whRail w, whExternalEventID w)) ` set ?ws \<longleftrightarrow>
      wh_key x \<in> wh_key ` set ?ws"
    using assms by (auto simp: wh_key_inj image_iff)
  have T: "tabs (snd (db_RecordWebhook px now x p)) =
      tabs p\<lparr>tbWebhooks := (if wh_key x \<in> wh_key ` set ?ws then ?ws else ?ws @ [?x])\<rparr>"
    unfolding db_RecordWebhook_def
    by (rule exec_tabs) (use assms key in \<open>auto simp: insert_unique_def\<close>)
  show ?thesis
    using find_key_None [of wh_key "wh_key x" ?ws]
    by (auto simp: T mem_of_def mem_RecordWebhook_def wh_key_def [symmetric] stored_other_tables Let_def
        find_append fun_eq_iff wh_key_recv split: option.split)
qed

lemma mark_refines:
  assumes "new_keys (tabs p) (CallMark t rl ev)"
  shows "\<exists>t'. mem_of px (tabs (db_MarkWebhookProcessed px rl ev p)) =
    mem_MarkWebhookProcessed t' rl ev (mem_of px (tabs p))"
proof -
  obtain sn where sn: "run_stmt ts jb sn (SetProcessed rl ev) (tabs p) =
      Some (tabs (db_MarkWebhookProcessed px rl ev p))"
    unfolding db_MarkWebhookProcessed_def by (rule exec_run [of "SetProcessed rl ev" p]) auto
  have eq: "map (\<lambda>w. if whRail w = rl \<and> whExternalEventID w = ev
        then w\<lparr>whProcessedAt := Some (ts sn)\<rparr> else w) (tbWebhooks (tabs p)) =
      map (\<lambda>w. if wh_key w = webhookKey rl ev
        then w\<lparr>whProcessedAt := Some (ts sn)\<rparr> else w) (tbWebhooks (tabs p))"
    using assms webhookKey_inj by (auto simp: wh_key_def)
  have k: "wh_key (w\<lparr>whProcessedAt := Some (ts sn)\<rparr>) = wh_key w" for w by (simp add: wh_key_def)
  have "mem_of px (tabs (db_MarkWebhookProcessed px rl ev p)) =
      mem_MarkWebhookProcessed (ts sn) rl ev (mem_of px (tabs p))"
    using sn [symmetric]
    by (auto simp: mem_of_def mem_MarkWebhookProcessed_def stored_other_tables eq Let_def
        find_map_key [of wh_key, OF k] fun_eq_iff split: option.split)
  then show ?thesis by blast
qed

text \<open>Every call, and so every sequence of calls.\<close>

lemma call_refines:
  assumes "new_keys (tabs p) c" and "run_call (DB px now) c (p, w) = (p', w')"
  shows "\<exists>c'. amounts_to ts now c c' \<and>
    run_call MemStore c' (mem_of px (tabs p), w) = (mem_of px (tabs p'), w')"
proof (cases c)
  case (CallUpdate t k fn)
  obtain r where "db_UpdateIntent px t k fn p w = (r, p', w')"
    using assms(2) CallUpdate by (cases "db_UpdateIntent px t k fn p w") auto
  from update_refines [OF this] CallUpdate show ?thesis by simp
next
  case (CallMark t rl ev)
  with assms mark_refines [of p t rl ev] show ?thesis by (auto intro: exI)
qed (use assms in \<open>auto simp: create_refines capture_refines settlement_refines refund_refines
       chargeback_refines webhook_refines simp del: new_keys.simps(6)\<close>)

lemma calls_refine:
  assumes "new_run px now tabs cs (p, w)" and "fold (run_call (DB px now)) cs (p, w) = (p', w')"
  shows "\<exists>cs'. list_all2 (amounts_to ts now) cs cs' \<and>
    fold (run_call MemStore) cs' (mem_of px (tabs p), w) = (mem_of px (tabs p'), w')"
  using assms
proof (induction cs arbitrary: p w)
  case (Cons c cs)
  obtain p1 w1 where c: "run_call (DB px now) c (p, w) = (p1, w1)" by fastforce
  with Cons.prems obtain c' where c': "amounts_to ts now c c'"
    "run_call MemStore c' (mem_of px (tabs p), w) = (mem_of px (tabs p1), w1)"
    using call_refines [of p c now w p1 w1] by auto
  from Cons.IH [of p1 w1] Cons.prems c obtain cs' where "list_all2 (amounts_to ts now) cs cs'"
    "fold (run_call MemStore) cs' (mem_of px (tabs p1), w1) = (mem_of px (tabs p'), w')" by auto
  with c' show ?case by (intro exI [of _ "c' # cs'"]) simp
qed simp

text \<open>What is read agrees with the abstraction: rows up to the order of equal time stamps.\<close>

lemma reads_refine:
  "db_GetIntent px k p = mem_GetIntent k (mem_of px (tabs p))"
  "mset (db_CapturesFor px k p) = mset (mem_CapturesFor k (mem_of px (tabs p)))"
proof -
  show "db_GetIntent px k p = mem_GetIntent k (mem_of px (tabs p))"
    by (simp add: db_GetIntent_def up_intent row_or_none_def mem_GetIntent_def mem_of_def db_stored_def
        split: option.split)
  obtain cs where cs: "plCaptures px k p = Inr (map Inr cs)"
    "mset cs = mset (filter (\<lambda>c. caIntentID c = k) (tbCaptures (tabs p)))" using up_captures by blast
  have "scan_rows (\<lambda>c. c) out (map Inr cs) = out @ cs" for out
    by (induction cs arbitrary: out) simp_all
  with cs show "mset (db_CapturesFor px k p) = mset (mem_CapturesFor k (mem_of px (tabs p)))"
    by (simp add: db_CapturesFor_def scan_query_def mem_CapturesFor_def mem_of_def slice_group_by)
qed

lemma list_refines:
  "sorted (map iCreatedAt (db_ListIntents px status rail p)) \<and>
   mset (db_ListIntents px status rail p) = image_mset (scanIntent px) (mset (filter
     (\<lambda>r. (status = '''' \<or> statusString (irStatus r) = status) \<and> (rail = '''' \<or> irRail r = rail))
     (tbIntents (tabs p))))"
proof -
  obtain rs where rs: "plIntents px (fst (listQuery status rail)) (snd (listQuery status rail)) p = Inr (map Inr rs)"
    "sorted (map irCreatedAt rs)" "mset rs = mset (filter
     (\<lambda>r. (status = '''' \<or> statusString (irStatus r) = status) \<and> (rail = '''' \<or> irRail r = rail))
     (tbIntents (tabs p)))"
    using up_select [OF select_listQuery] by blast
  have "scan_rows f out (map Inr rs) = out @ map f rs" for out and f :: "intent_row \<Rightarrow> intent"
    by (induction rs arbitrary: out) simp_all
  then have "db_ListIntents px status rail p = map (scanIntent px) rs"
    using rs(1) by (simp add: db_ListIntents_def case_prod_beta scan_query_def)
  moreover have "map iCreatedAt (map (scanIntent px) rs) = map irCreatedAt rs"
    by (simp add: scanIntent_def)
  ultimately show ?thesis using rs(2,3) by (simp only: mset_map)
qed

end

section \<open>The refinement\<close>


text \<open>A creation, an update that fails, one that succeeds, and a capture row.\<close>

definition pg_intent :: intent where
  "pg_intent = \<lparr>iID = ''p1'', iRail = ''card'', iAmount = 100, iCurrency = ''USD'', iPayerRef = '''',
     iStatus = StatusAuthorized, iCapturedAmount = 0, iRefundedAmount = 0, iSettledAmount = 0,
     iExternalID = '''', iIdempotencyKey = '''', iThreeDSRequired = False, iCreatedAt = 1234, iUpdatedAt = 1234,
     iHistory = []\<rparr>"

definition pg_capture :: capture where
  "pg_capture = \<lparr>caID = ''c1'', caIntentID = ''p1'', caAmount = 70, caExternalRef = '''', caCapturedAt = 5678\<rparr>"

definition pg_calls :: "unit store_call list" where
  "pg_calls = [CallCreate pg_intent,
     CallUpdate 2000 ''p1'' (\<lambda>i w. (FnErr ErrCapture, i\<lparr>iCapturedAmount := 1\<rparr>, w)),
     CallUpdate 3000 ''p1'' (\<lambda>i w. (FnOk, i\<lparr>iCapturedAmount := 70\<rparr>, w)),
     CallCapture pg_capture]"

definition pg_empty :: refdb where
  "pg_empty = \<lparr>rdTabs = no_tables, rdVersions = []\<rparr>"


end
