(* ===== verification/PostgresProps.thy ===== *)
theory PostgresProps
  imports PostgresRefine Scenario
begin

text \<open>
  The service on the Postgres store: what holds whatever the server does, and how the endpoints
  behave where it differs from the in-memory store.
\<close>

section \<open>The service on a server that may fail\<close>

context postgres
begin

lemma service_store_DB: "service_store (DB px now) (\<lambda>p. db_stored px (tabs p))"
  by (rule service_store.intro) unfold_locales

end

text \<open>
  On Postgres the amounts of every stored intent stay in order, whatever calls fail and
  whatever requests arrive: in every reachable state (requests below \<open>2^62\<close>, rails that submit
  the whole amount) each row has \<open>0 \<le> refunded \<le> captured \<le> amount\<close>.
\<close>

lemma pg_amounts_in_order:
  assumes "postgres px tabs work ts jb" and "reach decode small_request svc0 svc"
    and "svStoreI svc0 = DB px now" "tbIntents (tabs (svStore svc0)) = []" "rails_full (svRails svc0)"
    and "row_at k (tabs (svStore svc)) = Some r"
  shows "0 \<le> sint (irRefundedAmount r) \<and> sint (irRefundedAmount r) \<le> sint (irCapturedAmount r) \<and>
    sint (irCapturedAmount r) \<le> sint (irAmount r) \<and> 0 < sint (irAmount r)"
proof -
  have "orderly (DB px now) (\<lambda>p. db_stored px (tabs p)) (core svc0)"
    using assms(3-5) by (simp add: orderly_def order_ok_def db_stored_def row_at_def)
  with service_store.orderly_reach [OF postgres.service_store_DB [OF assms(1)] assms(2), of now]
  have "order_ok (db_stored px (tabs (svStore svc)))" by (simp add: orderly_def)
  moreover have "db_stored px (tabs (svStore svc)) k = Some (scanIntent px r)"
    using assms(6) by (simp add: db_stored_def)
  ultimately have "in_order (scanIntent px r)" by (simp add: order_ok_def)
  then show ?thesis by (simp add: in_order_def scanIntent_def)
qed

text \<open>The scenario's service on the reference server.\<close>

definition pg_service :: "faults \<Rightarrow> (refdb, body idem_mem) service" where
  "pg_service fl = NewService (DB (ref_pool fl 0) 0) pg_empty NewMem (NewRegistry NewDummy)
     (Some (Recorder [])) ''s''"

text \<open>The commits of a server that reports each of them lost though it is done.\<close>

definition lost_commits :: faults where
  "lost_commits = no_faults\<lparr>flCommit := (\<lambda>T d. Some (ErrorString ''connection reset'', True))\<rparr>"

definition pg_created :: "faults \<Rightarrow> (refdb, body idem_mem) service" where
  "pg_created fl = snd (serve (demo_env ''p1'' 0) demo_decode
     (PostIntents ''k1'' (Some (demo_req RailCard 100))) (pg_service fl))"

definition pg_captured :: "faults \<Rightarrow> (refdb, body idem_mem) service" where
  "pg_captured fl = snd (serve (demo_env ''p2'' 100) demo_decode
     (PostCapture ''p1'' ''k2'' (JSONBody (Some 60))) (pg_created fl))"

lemma fresh_uuid_DB:
  "svStoreI svc = DB px now \<Longrightarrow> fresh_uuid e svc \<longleftrightarrow> db_GetIntent px (envUUID e 0) (svStore svc) = None"
  by (simp add: fresh_uuid_def intents_of_def)

lemma pg_service_sel [simp]:
  "svStoreI (pg_service fl) = DB (ref_pool fl 0) 0" "svStore (pg_service fl) = pg_empty"
  "svRails (pg_service fl) = NewRegistry NewDummy"
  by (simp_all add: pg_service_def NewService_def)

lemma reach_pg_store:
  assumes "reach decode small_request (pg_service fl) svc"
  shows "svStoreI svc = DB (ref_pool fl 0) 0"
proof -
  have "orderly (DB (ref_pool fl 0) 0) (\<lambda>p. db_stored (ref_pool fl 0) (rdTabs p)) (core (pg_service fl))"
    by (simp add: orderly_def order_ok_def db_stored_def row_at_def pg_empty_def no_tables_def rails_full_dummy)
  from service_store.orderly_reach [OF ref.service_store_DB assms this] show ?thesis
    by (simp add: orderly_def)
qed

lemma reach_pg_captured: "reach demo_decode small_request (pg_service lost_commits) (pg_captured lost_commits)"
proof -
  have c: "reach demo_decode small_request (pg_service lost_commits) (pg_created lost_commits)"
    unfolding pg_created_def
  proof (rule reach_step [OF reach_init])
    have "Option.is_none (db_GetIntent (ref_pool lost_commits 0) ''p1'' pg_empty)" by code_simp
    then show "fresh_uuid (demo_env ''p1'' 0) (pg_service lost_commits)"
      by (simp add: fresh_uuid_DB Option.is_none_def)
  qed (simp add: demo_req_def)
  show ?thesis unfolding pg_captured_def
  proof (rule reach_step [OF c])
    have "Option.is_none (db_GetIntent (ref_pool lost_commits 0) ''p2'' (svStore (pg_created lost_commits)))"
      by code_simp
    with reach_pg_store [OF c] show "fresh_uuid (demo_env ''p2'' 100) (pg_created lost_commits)"
      by (simp add: fresh_uuid_DB Option.is_none_def)
  qed simp
qed

lemma pg_amounts_in_order_example:
  "\<exists>r. row_at ''p1'' (rdTabs (svStore (pg_captured lost_commits))) = Some r \<and>
     irCapturedAmount r = 60 \<and> sint (irCapturedAmount r) \<le> sint (irAmount r)"
proof -
  have "map_option irCapturedAmount (row_at ''p1'' (rdTabs (svStore (pg_captured lost_commits)))) = Some 60"
    by code_simp
  then obtain r where r: "row_at ''p1'' (rdTabs (svStore (pg_captured lost_commits))) = Some r"
    "irCapturedAmount r = 60" by auto
  from pg_amounts_in_order [OF ref.postgres_axioms reach_pg_captured pg_service_sel(1) _ _ r(1)]
  have "sint (irCapturedAmount r) \<le> sint (irAmount r)"
    by (simp add: pg_empty_def no_tables_def rails_full_dummy)
  with r show ?thesis by blast
qed

section \<open>Transactions\<close>

text \<open>The tables after the \<open>UPDATE\<close> of one intent.\<close>

definition with_row :: "(time \<Rightarrow> time) \<Rightarrow> (bytes \<Rightarrow> bytes) \<Rightarrow> ('p, 't) pool \<Rightarrow> string \<Rightarrow> intent \<Rightarrow> tables \<Rightarrow> tables" where
  "with_row ts jb px iid i T = the (run_stmt ts jb 0 (SetIntent iid (rowOf px i)) T)"

text \<open>
  C24. \<open>UpdateIntent\<close> on Postgres is atomic, whatever fails: when it reports success, the callback
  succeeded and exactly its result is committed; when it reports an error, either the tables are
  as before, or the callback succeeded and its result is committed (a commit whose
  acknowledgement was lost); a callback that fails or panics leaves the tables as before.
\<close>

theorem pg_update_atomic:
  assumes pg: "postgres px tabs work ts jb"
    and u: "db_UpdateIntent px now iid fn p w = (r, p', w')"
  shows "case r of
      UpdOk j \<Rightarrow> \<exists>row i'. row_at iid (tabs p) = Some row \<and> fn (scanIntent px row) w = (FnOk, i', w') \<and>
        j = i'\<lparr>iUpdatedAt := now\<rparr> \<and> tabs p' = with_row ts jb px iid j (tabs p)
    | UpdErr e \<Rightarrow> tabs p' = tabs p \<or>
        (\<exists>row i'. row_at iid (tabs p) = Some row \<and> fn (scanIntent px row) w = (FnOk, i', w') \<and>
           tabs p' = with_row ts jb px iid (i'\<lparr>iUpdatedAt := now\<rparr>) (tabs p))
    | UpdPanic \<Rightarrow> tabs p' = tabs p"
proof (cases "\<exists>tx row. plBegin px p = Inr tx \<and> txIntent px iid tx = Inr row")
  case False
  with u show ?thesis
    by (auto simp: db_UpdateIntent_def postgres.rollback_effect [OF pg] split: sum.splits)
next
  case True
  then obtain tx row where tx: "plBegin px p = Inr tx" "txIntent px iid tx = Inr row" by blast
  have T: "work tx = tabs p" "row_at iid (tabs p) = Some row"
    using postgres.begin_sees [OF pg tx(1)] postgres.tx_intent_read [OF pg tx(2)] by auto
  obtain r0 i' w0 where f: "fn (scanIntent px row) w = (r0, i', w0)" by (cases "fn (scanIntent px row) w")
  let ?i1 = "i'\<lparr>iUpdatedAt := now\<rparr>"
  note ran = postgres.db_UpdateIntent_cases [where fn = fn, OF pg tx f u]
  have commit: "tabs p' = with_row ts jb px iid ?i1 (tabs p)" if "tabs p' = work tx1"
    "txExec px (SetIntent iid (rowOf px ?i1)) tx = (None, tx1)" for tx1
    using postgres.tx_exec_effect [OF pg that(2)] that(1) T(1) by (auto simp: with_row_def)
  show ?thesis
  proof (cases r)
    case (UpdOk j)
    obtain tx1 p1 where x: "r0 = FnOk" "j = ?i1" "txExec px (SetIntent iid (rowOf px ?i1)) tx = (None, tx1)"
      "txCommit px tx1 p = (None, p1)" "p' = txRollback px tx1 p1"
      using u UpdOk unfolding postgres.db_UpdateIntent_ran [where fn = fn, OF pg tx f]
      by (auto split: fnres.splits prod.splits option.splits)
    with postgres.commit_effect [OF pg x(4)] have "tabs p' = work tx1"
      by (simp add: postgres.rollback_effect [OF pg])
    from commit [OF this x(3)] x(1,2) UpdOk T f ran show ?thesis by auto
  next
    case (UpdErr e)
    with ran commit T f show ?thesis by auto
  next
    case UpdPanic
    with ran show ?thesis by auto
  qed
qed

theorem pg_update_atomic_witness:
  "\<exists>j p' w'. db_UpdateIntent (ref_pool no_faults 0) 9 ''p1'' (\<lambda>i w. (FnOk, i\<lparr>iStatus := StatusCaptured\<rparr>, w))
      (svStore (pg_created no_faults)) (0 :: nat) = (UpdOk j, p', w') \<and>
    rdTabs p' = with_row ts_us id (ref_pool no_faults 0) ''p1'' j (rdTabs (svStore (pg_created no_faults))) \<and>
    iStatus j = StatusCaptured"
proof -
  let ?fn = "\<lambda>i (w :: nat). (FnOk, i\<lparr>iStatus := StatusCaptured\<rparr>, w)"
  let ?u = "db_UpdateIntent (ref_pool no_faults 0) 9 ''p1'' ?fn (svStore (pg_created no_faults)) 0"
  have "case fst ?u of UpdOk j \<Rightarrow> True | _ \<Rightarrow> False" by code_simp
  then obtain j p' w' where u: "?u = (UpdOk j, p', w')" by (cases ?u) (auto split: updres.splits)
  from pg_update_atomic [OF ref.postgres_axioms u] u show ?thesis by auto
qed

section \<open>Where the endpoints differ from the in-memory store\<close>

context postgres_up
begin

lemma updateIntent_failed:
  assumes "svStoreI svc = DB px now" "row_at iid (tabs (svStore svc)) = Some row"
    and "fn (scanIntent px row) (fx_of svc) = (FnErr e, i', w')"
  obtains s' where "updateIntent t iid fn svc = (UpdErr e, w', put_fx w' (svc\<lparr>svStore := s'\<rparr>))"
    "tabs s' = tabs (svStore svc)"
proof -
  obtain tx where tx: "plBegin px (svStore svc) = Inr tx" using up_begin by blast
  have "txIntent px iid tx = Inr row" using assms(2) by (simp add: up_tx_intent begin_sees [OF tx])
  from db_UpdateIntent_ran [where fn = fn, OF tx this assms(3), of t] that [of "txRollback px tx (svStore svc)"]
  show thesis using assms(1) by (simp add: updateIntent_def)
qed

lemma refund_settled_step:
  assumes I: "svStoreI svc = DB px now" and r: "row_at iid (tabs (svStore svc)) = Some r"
    and st: "irStatus r = StatusSettled"
    and n: "refundAmount amt (scanIntent px r) = Inr n"
      "sint (irRefundedAmount r + n) \<le> sint (irCapturedAmount r)"
    and a: "Registry_For (svRails svc) (irRail r) = Some a"
      "ad_Refund a (scanIntent px r) n = (None, scanIntent px r)"
    and new: "envUUID e 1 \<notin> reID ` set (tbRefunds (tabs (svStore svc)))"
  shows "\<exists>svc' x. refundHandle e amt iid svc =
      (HRet 409 (Some (BError ''refund not allowed from current state'')), svc') \<and>
    svStoreI svc' = DB px now \<and> svRails svc' = svRails svc \<and>
    tabs (svStore svc') = tabs (svStore svc)\<lparr>tbRefunds := tbRefunds (tabs (svStore svc)) @ [x]\<rparr> \<and>
    reID x = envUUID e 1 \<and> reIntentID x = irID r \<and> reAmount x = n"
proof -
  let ?i = "scanIntent px r"
  let ?x = "\<lparr>reID = envUUID e 1, reIntentID = iID ?i, reAmount = n, reExternalRef = iExternalID ?i,
    reRefundedAt = envNow e 4, reState = ''refunded''\<rparr>"
  have sel: "iStatus ?i = StatusSettled" "iRefundedAmount ?i = irRefundedAmount r"
    "iCapturedAmount ?i = irCapturedAmount r" "iRail ?i = irRail r" "iID ?i = irID r"
    using st by (simp_all add: scanIntent_def)
  have "refundFn e (svRails svc) amt ?i (fx_of svc) =
      (FnErr ErrTerminalState, ?i\<lparr>iRefundedAmount := iRefundedAmount ?i + n\<rparr>,
       (fx_of svc)\<lparr>fxRefund := Some ?x\<rparr>)"
    using n a sel by (simp add: refundFn_def refundDone_def Transition_def Let_def not_less)
  then obtain s' where u: "updateIntent (envNow e 11) iid (refundFn e (svRails svc) amt) svc =
      (UpdErr ErrTerminalState, (fx_of svc)\<lparr>fxRefund := Some ?x\<rparr>,
       put_fx ((fx_of svc)\<lparr>fxRefund := Some ?x\<rparr>) (svc\<lparr>svStore := s'\<rparr>))"
    "tabs s' = tabs (svStore svc)"
    using updateIntent_failed [where fn = "refundFn e (svRails svc) amt" and t = "envNow e 11", OF I r] by metis
  let ?y = "?x\<lparr>reRefundedAt := ts (stamp_zero now (envNow e 4))\<rparr>"
  have "tabs (db_AddRefund px now ?x s') = tabs s'\<lparr>tbRefunds := tbRefunds (tabs s') @ [?y]\<rparr>"
    unfolding db_AddRefund_def using new u(2) by (intro exec_tabs) (simp add: insert_new_def)
  with u I sel show ?thesis
    by (intro exI [of _ "snd (refundHandle e amt iid svc)"] exI [of _ ?y])
       (simp add: refundHandle_def refundErr_def addRefund_def put_fx_def)
qed

lemma refund_settled_repeats:
  assumes "svStoreI svc = DB px now" "row_at iid (tabs (svStore svc)) = Some r" "irStatus r = StatusSettled"
    and "refundAmount amt (scanIntent px r) = Inr n" "sint (irRefundedAmount r + n) \<le> sint (irCapturedAmount r)"
    and "Registry_For (svRails svc) (irRail r) = Some a" "ad_Refund a (scanIntent px r) n = (None, scanIntent px r)"
    and "distinct (map (\<lambda>e. envUUID e 1) es)"
    and "(\<lambda>e. envUUID e 1) ` set es \<inter> reID ` set (tbRefunds (tabs (svStore svc))) = {}"
  shows "\<exists>xs. tabs (svStore (fold (\<lambda>e s. snd (refundHandle e amt iid s)) es svc)) =
      tabs (svStore svc)\<lparr>tbRefunds := tbRefunds (tabs (svStore svc)) @ xs\<rparr> \<and>
    length xs = length es \<and> (\<forall>x \<in> set xs. reIntentID x = irID r \<and> reAmount x = n)"
  using assms
proof (induction es arbitrary: svc)
  case Nil
  then show ?case by (intro exI [of _ "[]"]) simp
next
  case (Cons e es)
  from Cons.prems(9) have "envUUID e 1 \<notin> reID ` set (tbRefunds (tabs (svStore svc)))" by auto
  from refund_settled_step [OF Cons.prems(1-7) this] obtain svc' x where
    s: "snd (refundHandle e amt iid svc) = svc'" "svStoreI svc' = DB px now" "svRails svc' = svRails svc"
      "tabs (svStore svc') = tabs (svStore svc)\<lparr>tbRefunds := tbRefunds (tabs (svStore svc)) @ [x]\<rparr>"
    and x: "reID x = envUUID e 1" "reIntentID x = irID r" "reAmount x = n" by auto
  have "row_at iid (tabs (svStore svc')) = Some r" using Cons.prems(2) s(4) by (simp add: row_at_def)
  from Cons.IH [of svc', OF s(2) this] Cons.prems s x obtain xs where
    "tabs (svStore (fold (\<lambda>e s. snd (refundHandle e amt iid s)) es svc')) =
      tabs (svStore svc')\<lparr>tbRefunds := tbRefunds (tabs (svStore svc')) @ xs\<rparr>"
    "length xs = length es" "\<forall>x \<in> set xs. reIntentID x = irID r \<and> reAmount x = n" by auto
  with s x show ?case by (intro exI [of _ "x # xs"]) simp
qed

end

text \<open>
  C38. On Postgres the refund of a settled intent is answered 409 and its new refunded total is
  rolled back, after the rail has refunded the money and the refund row is stored: any number of
  such requests is accepted by the endpoint's own checks, each of them leaving a row of the full
  amount, and the intent still as it was.
\<close>

theorem pg_settled_refund_unbounded:
  assumes "postgres_up px tabs work ts jb"
    and "svStoreI svc = DB px now" "row_at iid (tabs (svStore svc)) = Some r" "irStatus r = StatusSettled"
    and "refundAmount amt (scanIntent px r) = Inr n" "sint (irRefundedAmount r + n) \<le> sint (irCapturedAmount r)"
    and "Registry_For (svRails svc) (irRail r) = Some a" "ad_Refund a (scanIntent px r) n = (None, scanIntent px r)"
    and "distinct (map (\<lambda>e. envUUID e 1) es)"
    and "(\<lambda>e. envUUID e 1) ` set es \<inter> reID ` set (tbRefunds (tabs (svStore svc))) = {}"
  shows "\<exists>xs. tabs (svStore (fold (\<lambda>e s. snd (refundHandle e amt iid s)) es svc)) =
      tabs (svStore svc)\<lparr>tbRefunds := tbRefunds (tabs (svStore svc)) @ xs\<rparr> \<and>
    length xs = length es \<and> (\<forall>x \<in> set xs. reIntentID x = irID r \<and> reAmount x = n)"
  using postgres_up.refund_settled_repeats [OF assms] .

text \<open>A service on the reference server that holds one settled intent.\<close>

definition pg_settled :: "(refdb, body idem_mem) service" where
  "pg_settled = (pg_service no_faults)\<lparr>svStore := pg_empty\<lparr>rdTabs := no_tables\<lparr>tbIntents :=
     [rowOf (ref_pool no_faults 0) (demo_intent StatusSettled 100)]\<rparr>\<rparr>\<rparr>"

theorem pg_settled_refund_unbounded_witness:
  "\<exists>xs. tbRefunds (rdTabs (svStore (fold (\<lambda>e s. snd (refundHandle e None ''p1'' s))
      [demo_env ''a'' 0, demo_env ''b'' 0, demo_env ''c'' 0] pg_settled))) = xs \<and>
    length xs = 3 \<and> (\<forall>x \<in> set xs. reIntentID x = ''p1'' \<and> reAmount x = 100)"
proof -
  let ?px = "ref_pool no_faults 0"
  let ?r = "rowOf ?px (demo_intent StatusSettled 100)"
  have i: "scanIntent ?px ?r = demo_intent StatusSettled 100"
    using enc_history_ne by (simp add: scanIntent_def rowOf_def dec_enc_history demo_intent_def)
  have r: "irRail ?r = ''card''" "irStatus ?r = StatusSettled" "irID ?r = ''p1''" "irRefundedAmount ?r = 0"
    "irCapturedAmount ?r = 100" by (simp_all add: rowOf_def)
  have s: "svStoreI pg_settled = DB ?px 0" "rdTabs (svStore pg_settled) = no_tables\<lparr>tbIntents := [?r]\<rparr>"
    "svRails pg_settled = NewRegistry NewDummy"
    by (simp_all add: pg_settled_def)
  have "\<exists>xs. rdTabs (svStore (fold (\<lambda>e s. snd (refundHandle e None ''p1'' s))
      [demo_env ''a'' 0, demo_env ''b'' 0, demo_env ''c'' 0] pg_settled)) =
      rdTabs (svStore pg_settled)\<lparr>tbRefunds := tbRefunds (rdTabs (svStore pg_settled)) @ xs\<rparr> \<and>
    length xs = length [demo_env ''a'' 0, demo_env ''b'' 0, demo_env ''c'' 0] \<and>
    (\<forall>x \<in> set xs. reIntentID x = irID ?r \<and> reAmount x = 100)"
  proof (rule pg_settled_refund_unbounded [OF ref_up.postgres_up_axioms s(1), where r = ?r
        and a = "DummyAdapter NewDummy"])
    show "refundAmount None (scanIntent ?px ?r) = Inr 100" unfolding i by (simp add: refundAmount_def)
    show "ad_Refund (DummyAdapter NewDummy) (scanIntent ?px ?r) 100 = (None, scanIntent ?px ?r)"
      unfolding i by (simp add: NewDummy_def dummy_defs)
  qed (simp_all add: s r row_at_def demo_env_def no_tables_def)
  then show ?thesis by (auto simp: s r no_tables_def)
qed

lemma processWebhook_not_duplicate:
  "fst (processWebhook e rl wb svc) \<noteq> respond 200 (BStatus ''duplicate'')"
proof -
  have r: "webhookResult r \<noteq> respond 200 (BStatus ''duplicate'')" for r
    by (simp add: webhookResult_def split: updres.split)
  show ?thesis
    by (simp add: processWebhook_def handleSettlementWebhook_def handleChargebackWebhook_def
        chargebackNew_def chargebackKnown_def Let_def case_prod_beta r split: option.split)
qed

text \<open>
  C39. On Postgres a webhook event that has been recorded before is processed again: recording it
  reports no duplicate, and the answer is the one of processing it, never \<open>duplicate\<close>.
\<close>

theorem pg_duplicate_reprocessed:
  assumes up: "postgres_up px tabs work ts jb" and I: "svStoreI svc = DB px now"
    and w: "w \<in> set (tbWebhooks (tabs (svStore svc)))" "whRail w = rl"
      "whExternalEventID w = wbExternalEventID wb" "wbExternalEventID wb \<noteq> ''''"
  shows "\<exists>s1. tabs s1 = tabs (svStore svc) \<and>
    fst (deliverWebhook e rl wb svc) =
      fst (processWebhook e rl wb (svc\<lparr>svStore := s1, svMetrics := IncWebhookBacklog (svMetrics svc)\<rparr>)) \<and>
    fst (deliverWebhook e rl wb svc) \<noteq> respond 200 (BStatus ''duplicate'')"
proof -
  let ?wh = "\<lparr>whID = envUUID e 0, whRail = rl, whExternalEventID = wbExternalEventID wb,
    whSignature = ''verified'', whReceivedAt = envNow e 1, whProcessedAt = None\<rparr>"
  let ?st = "InsertWebhook (?wh\<lparr>whReceivedAt := stamp_zero now (whReceivedAt ?wh)\<rparr>)"
  have run: "run_stmt ts jb sn ?st (tabs (svStore svc)) = Some (tabs (svStore svc))" for sn
    using w by (force simp: insert_unique_def)
  obtain s1 where s1: "db_RecordWebhook px now ?wh (svStore svc) = (None, s1)" "tabs s1 = tabs (svStore svc)"
    using postgres_up.up_exec [OF up, of ?st "svStore svc"] postgres_up.exec_tabs [OF up, of ?st, OF run] run
    by (cases "plExec px ?st (svStore svc)") (auto simp: db_RecordWebhook_def)
  have "fst (deliverWebhook e rl wb svc) =
      fst (processWebhook e rl wb (svc\<lparr>svStore := s1, svMetrics := IncWebhookBacklog (svMetrics svc)\<rparr>))"
    using w(4) I s1(1) by (simp add: deliverWebhook_def split: prod.split)
  with s1(2) processWebhook_not_duplicate show ?thesis by metis
qed

definition pg_delivered :: "(refdb, body idem_mem) service" where
  "pg_delivered = (pg_service no_faults)\<lparr>svStore := pg_empty\<lparr>rdTabs := no_tables\<lparr>tbWebhooks :=
     [\<lparr>whID = ''w1'', whRail = ''card'', whExternalEventID = ''ev1'', whSignature = ''verified'',
       whReceivedAt = 0, whProcessedAt = Some 0\<rparr>]\<rparr>\<rparr>\<rparr>"

theorem pg_duplicate_reprocessed_witness:
  "fst (deliverWebhook (demo_env ''u'' 0) ''card'' (demo_decode ''ev1'') pg_delivered) \<noteq>
     respond 200 (BStatus ''duplicate'')"
proof -
  let ?w = "\<lparr>whID = ''w1'', whRail = ''card'', whExternalEventID = ''ev1'', whSignature = ''verified'',
    whReceivedAt = 0, whProcessedAt = Some 0\<rparr>"
  have I: "svStoreI pg_delivered = DB (ref_pool no_faults 0) 0"
    and w: "?w \<in> set (tbWebhooks (rdTabs (svStore pg_delivered)))"
    by (simp_all add: pg_delivered_def)
  have d: "whRail ?w = ''card''" "whExternalEventID ?w = wbExternalEventID (demo_decode ''ev1'')"
    "wbExternalEventID (demo_decode ''ev1'') \<noteq> ''''" by (simp_all add: demo_decode_def)
  from pg_duplicate_reprocessed [OF ref_up.postgres_up_axioms I w d, of "demo_env ''u'' 0"] show ?thesis
    by blast
qed

section \<open>Migrations\<close>

text \<open>
  C31. After \<open>Up\<close> succeeded, exactly the versions of the embedded migrations have been added to
  the version table; running \<open>Up\<close> again runs no migration: it only issues the statement that
  creates the table if it is missing. \<open>Down\<close>, when it succeeds, removes exactly these versions.
\<close>

theorem migrations_idempotent:
  assumes vt: "version_table ex q applied" and ms: "All_migrations fs = Inr ms"
    and up: "Up fs (NewRunner ex (Some q)) now p = (None, p1)"
    and again: "ex CreateSchemaMigrations p1 = (None, p2)" "\<And>v. \<exists>b. q v p2 = Inr b"
    and down: "Down fs (NewRunner ex (Some q)) p2 = (None, p3)"
  shows "applied p1 = applied p \<union> mgVersion ` set ms \<and>
    Up fs (NewRunner ex (Some q)) now' p1 = (None, p2) \<and>
    applied p3 = applied p - mgVersion ` set ms"
proof -
  note u = version_table.Up_applied [OF vt up ms]
  moreover have "applied p2 = applied p1" by (rule version_table.create_frame [OF vt again(1)])
  moreover note version_table.Down_applied [OF vt down ms]
  ultimately show ?thesis using version_table.Up_again [OF vt up ms again] by auto
qed

theorem migrations_idempotent_witness:
  "\<exists>p1 p2 p3. Up (repo_fs ''u'' ''d'') (NewRunner (plMigrate (ref_pool no_faults 0))
      (Some (plVersion (ref_pool no_faults 0)))) (\<lambda>v. 0) pg_empty = (None, p1) \<and>
    set (rdVersions p1) = {''0001_init''} \<and>
    Down (repo_fs ''u'' ''d'') (NewRunner (plMigrate (ref_pool no_faults 0))
      (Some (plVersion (ref_pool no_faults 0)))) p2 = (None, p3) \<and> set (rdVersions p3) = {}"
proof -
  let ?px = "ref_pool no_faults 0"
  let ?rn = "NewRunner (plMigrate ?px) (Some (plVersion ?px))"
  let ?p1 = "pg_empty\<lparr>rdVersions := [''0001_init'']\<rparr>"
  have ms: "All_migrations (repo_fs ''u'' ''d'') = Inr [\<lparr>mgVersion = ''0001_init'', mgUp = ''u'', mgDown = ''d''\<rparr>]"
    by (rule All_repo_fs) simp_all
  have sel: "ref_migrate no_faults st d = (None, ref_version st d)"
    "plVersion ?px v d = Inr (v \<in> set (rdVersions d))" for st d v
    by (simp_all add: ref_pool_def ref_migrate_def no_faults_def ref_read_def)
  have u: "Up (repo_fs ''u'' ''d'') ?rn (\<lambda>v. 0) pg_empty = (None, ?p1)"
    by (simp add: Up_def ms NewRunner_def rn_applied_def sel pg_empty_def)
  have d: "Down (repo_fs ''u'' ''d'') ?rn ?p1 = (None, pg_empty)"
    by (simp add: Down_def ms NewRunner_def rn_applied_def sel pg_empty_def)
  from migrations_idempotent [OF ref_versions.version_table_axioms ms u _ _ d]
  have "set (rdVersions pg_empty) = {} - {''0001_init''}" by (simp add: sel pg_empty_def)
  with u d show ?thesis
    by (intro exI [of _ ?p1] exI [of _ ?p1] exI [of _ pg_empty]) (simp add: pg_empty_def)
qed

end
