(* ===== verification/Redis.thy ===== *)
theory Redis
  imports Service
begin

text \<open>
  Idempotency across replicas. Several processes share one idempotency store and their calls
  interleave; the locale \<open>idem_shared\<close> states what each call promises in terms of two views of the
  shared state (which keys are held, which answers are kept, as of a time), and proves once that a
  key is claimed at most once. It is interpreted on the in-memory store and, over what Redis
  documents of its commands (the locale \<open>redis_server\<close>), on the Redis-backed store.
\<close>

section \<open>What a shared idempotency store promises\<close>

locale idem_shared =
  fixes J :: "('i, 'b) idem_iface"
    and held_at :: "'i \<Rightarrow> time \<Rightarrow> string \<Rightarrow> bool"
    and answer_at :: "'i \<Rightarrow> time \<Rightarrow> string \<Rightarrow> 'b entry option"
  assumes lookup_answer: "id_LookupResponse J t k m = (Inr a, m') \<Longrightarrow> a = answer_at m t k"
    and lookup_frame:
      "id_LookupResponse J t k m = (x, m') \<Longrightarrow> t \<le> t' \<Longrightarrow>
       held_at m' t' k' = held_at m t' k' \<and> answer_at m' t' k' = answer_at m t' k'"
    and claim_won:
      "id_Claim J t k d m = (Inr True, m') \<Longrightarrow>
       \<not> held_at m t k \<and> (t \<le> t' \<and> t' < time_Add t d \<longrightarrow> held_at m' t' k)"
    and claim_frame:
      "id_Claim J t k d m = (y, m') \<Longrightarrow> t \<le> t' \<Longrightarrow> held_at m t' k' \<Longrightarrow> held_at m' t' k'"
      "id_Claim J t k d m = (y, m') \<Longrightarrow> t \<le> t' \<Longrightarrow> k' \<noteq> k \<or> held_at m t k \<Longrightarrow>
       answer_at m' t' k' = answer_at m t' k'"
    and store_answer:
      "id_StoreResponse J t k e d m = (None, m') \<Longrightarrow> t \<le> t' \<Longrightarrow> t' < time_Add t d \<Longrightarrow>
       answer_at m' t' k = Some e"
    and store_frame:
      "id_StoreResponse J t k e d m = (z, m') \<Longrightarrow> t \<le> t' \<Longrightarrow> k' \<noteq> k \<or> t' < time_Add t d \<Longrightarrow>
       held_at m t' k' \<Longrightarrow> held_at m' t' k'"
      "id_StoreResponse J t k e d m = (z, m') \<Longrightarrow> t \<le> t' \<Longrightarrow> k' \<noteq> k \<Longrightarrow>
       answer_at m' t' k' = answer_at m t' k'"

text \<open>The calls of all replicas in the order in which the store serves them, each with its time.\<close>

datatype 'b idem_op = OpLookup string | OpClaim string duration | OpStore string "'b entry" duration

fun idem_step :: "('i, 'b) idem_iface \<Rightarrow> time \<times> 'b idem_op \<Rightarrow> 'i \<Rightarrow> (error + bool) \<times> 'i" where
  "idem_step J (t, OpLookup k) m = (Inr False, snd (id_LookupResponse J t k m))"
| "idem_step J (t, OpClaim k d) m = id_Claim J t k d m"
| "idem_step J (t, OpStore k e d) m = (Inr False, snd (id_StoreResponse J t k e d m))"

fun op_on :: "'b idem_op \<Rightarrow> string \<Rightarrow> duration option" where
  "op_on (OpLookup k') k = None"
| "op_on (OpClaim k' d) k = (if k' = k then Some d else None)"
| "op_on (OpStore k' e d) k = (if k' = k then Some d else None)"

text \<open>How many calls win the claim on a key.\<close>

fun claims_won :: "('i, 'b) idem_iface \<Rightarrow> string \<Rightarrow> (time \<times> 'b idem_op) list \<Rightarrow> 'i \<Rightarrow> nat" where
  "claims_won J k [] m = 0"
| "claims_won J k (cl # ops) m =
     (case idem_step J cl m of (x, m') \<Rightarrow>
        (if x = Inr True \<and> op_on (snd cl) k \<noteq> None then 1 else 0) + claims_won J k ops m')"

text \<open>Times do not decrease, end before \<open>stop\<close>, and no claim or answer on \<open>k\<close> expires before it.\<close>

fun within :: "string \<Rightarrow> time \<Rightarrow> time \<Rightarrow> (time \<times> 'b idem_op) list \<Rightarrow> bool" where
  "within k t0 stop [] \<longleftrightarrow> True"
| "within k t0 stop ((t, op) # ops) \<longleftrightarrow> t0 \<le> t \<and> t < stop \<and>
     (case op_on op k of None \<Rightarrow> True | Some d \<Rightarrow> stop \<le> time_Add t d) \<and> within k t stop ops"

context idem_shared
begin

lemma step_held:
  assumes "idem_step J (t, op) m = (x, m')" "t \<le> t'" "held_at m t' k"
    and "case op_on op k of None \<Rightarrow> True | Some d \<Rightarrow> t' < time_Add t d"
  shows "held_at m' t' k"
proof (cases op)
  case (OpLookup k1)
  obtain y where "id_LookupResponse J t k1 m = (y, m')"
    using assms(1) OpLookup by (cases "id_LookupResponse J t k1 m") auto
  from lookup_frame [OF this assms(2)] assms(3) show ?thesis by simp
next
  case (OpClaim k1 d)
  with assms claim_frame(1) show ?thesis by simp
next
  case (OpStore k1 e d)
  obtain y where y: "id_StoreResponse J t k1 e d m = (y, m')"
    using assms(1) OpStore by (cases "id_StoreResponse J t k1 e d m") auto
  have "k \<noteq> k1 \<or> t' < time_Add t d" using assms(4) OpStore by (auto split: if_splits)
  from store_frame(1) [OF y assms(2) this assms(3)] show ?thesis .
qed

lemma op_on_won: "idem_step J (t, op) m = (Inr True, m') \<Longrightarrow> op_on op k \<noteq> None \<Longrightarrow>
    \<exists>d. op = OpClaim k d \<and> id_Claim J t k d m = (Inr True, m')"
  by (cases op) (auto split: if_splits)

lemma held_no_claim:
  assumes "within k t0 stop ops" "\<And>t. t0 \<le> t \<Longrightarrow> t < stop \<Longrightarrow> held_at m t k"
  shows "claims_won J k ops m = 0"
  using assms
proof (induction ops arbitrary: t0 m)
  case (Cons cl ops)
  obtain t op x m' where cl: "cl = (t, op)" and s: "idem_step J (t, op) m = (x, m')"
    by (cases cl; cases "idem_step J cl m") auto
  from Cons(2) cl have w: "t0 \<le> t" "t < stop" "case op_on op k of None \<Rightarrow> True | Some d \<Rightarrow> stop \<le> time_Add t d"
    "within k t stop ops" by auto
  have "\<not> (x = Inr True \<and> op_on op k \<noteq> None)"
    using op_on_won [of t op m m' k] s claim_won [of t k _ m m'] Cons(3) w(1,2) by blast
  moreover have "held_at m' t' k" if "t \<le> t'" "t' < stop" for t'
    by (rule step_held [OF s that(1)]) (use Cons(3) w that in \<open>auto split: option.splits\<close>)
  then have "claims_won J k ops m' = 0" using Cons(1) [OF w(4)] by blast
  ultimately show ?case using cl s by simp
qed simp

lemma claims_once: "within k t0 stop ops \<Longrightarrow> claims_won J k ops m \<le> 1"
proof (induction ops arbitrary: t0 m)
  case (Cons cl ops)
  obtain t op x m' where cl: "cl = (t, op)" and s: "idem_step J (t, op) m = (x, m')"
    by (cases cl; cases "idem_step J cl m") auto
  from Cons(2) cl have w: "within k t stop ops" "case op_on op k of None \<Rightarrow> True | Some d \<Rightarrow> stop \<le> time_Add t d"
    by auto
  show ?case
  proof (cases "x = Inr True \<and> op_on op k \<noteq> None")
    case True
    then obtain d where d: "op = OpClaim k d" "id_Claim J t k d m = (Inr True, m')"
      using op_on_won s by blast
    have "held_at m' t' k" if "t \<le> t'" "t' < stop" for t'
      using claim_won [OF d(2), of t'] that w(2) d(1) by simp
    then have "claims_won J k ops m' = 0" by (rule held_no_claim [OF w(1)])
    with cl s True show ?thesis by simp
  next
    case False
    with cl s Cons(1) [OF w(1)] show ?thesis by auto
  qed
qed simp

end

section \<open>The in-memory store\<close>

definition mem_held :: "'b idem_mem \<Rightarrow> time \<Rightarrow> string \<Rightarrow> bool" where
  "mem_held m t k = (case m k of None \<Rightarrow> False | Some e \<Rightarrow> t < meExpires e)"

definition mem_answer :: "'b idem_mem \<Rightarrow> time \<Rightarrow> string \<Rightarrow> 'b entry option" where
  "mem_answer m t k = (case m k of None \<Rightarrow> None | Some e \<Rightarrow> if meExpires e < t then None else meResponse e)"

interpretation mem_shared: idem_shared IdemMem mem_held mem_answer
  by unfold_locales (auto simp: im_defs mem_held_def mem_answer_def split: option.splits if_splits)

section \<open>The Redis-backed store\<close>

text \<open>
  What Redis documents of the commands: \<open>rval r t k\<close> is the value of key \<open>k\<close> as of time \<open>t\<close>. A
  command that fails with an error may or may not have been executed.
\<close>

locale redis_server =
  fixes R :: "'r redis" and rval :: "'r \<Rightarrow> time \<Rightarrow> string \<Rightarrow> bytes option"
  assumes get_value: "rdGet R t k r = (RBytes b, r') \<Longrightarrow> rval r t k = Some b"
    and get_nil: "rdGet R t k r = (RNil, r') \<Longrightarrow> rval r t k = None"
    and get_frame: "rdGet R t k r = (x, r') \<Longrightarrow> t \<le> t' \<Longrightarrow> rval r' t' k' = rval r t' k'"
    and setnx_won:
      "rdSetNX R t k v d r = (Inr True, r') \<Longrightarrow>
       rval r t k = None \<and> (t \<le> t' \<and> t' < time_Add t d \<longrightarrow> rval r' t' k = Some v)"
    and setnx_keeps: "rdSetNX R t k v d r = (y, r') \<Longrightarrow> t \<le> t' \<Longrightarrow> rval r t' k = Some b \<Longrightarrow> rval r' t' k = Some b"
    and setnx_frame: "rdSetNX R t k v d r = (y, r') \<Longrightarrow> t \<le> t' \<Longrightarrow> k' \<noteq> k \<Longrightarrow> rval r' t' k' = rval r t' k'"
    and set_value:
      "rdSet R t k v d r = (None, r') \<Longrightarrow> t \<le> t' \<Longrightarrow> t' < time_Add t d \<Longrightarrow> rval r' t' k = Some v"
    and set_frame: "rdSet R t k v d r = (z, r') \<Longrightarrow> t \<le> t' \<Longrightarrow> k' \<noteq> k \<Longrightarrow> rval r' t' k' = rval r t' k'"

text \<open>With the JSON codec of the entries, which reads back what it wrote.\<close>

locale redis_idem = redis_server "rsServer s" rval
  for s :: "('r, 'b) redis_store" and rval +
  assumes codec: "rsMarshal s e = Inr b \<Longrightarrow> rsUnmarshal s b = Inr e"

definition redis_held :: "('r \<Rightarrow> time \<Rightarrow> string \<Rightarrow> bytes option) \<Rightarrow> ('r, 'b) redis_store \<Rightarrow> 'r \<Rightarrow> time \<Rightarrow> string \<Rightarrow> bool" where
  "redis_held rval s r t k = (rval r t (claimKey s k) \<noteq> None)"

definition redis_answer ::
  "('r \<Rightarrow> time \<Rightarrow> string \<Rightarrow> bytes option) \<Rightarrow> ('r, 'b) redis_store \<Rightarrow> 'r \<Rightarrow> time \<Rightarrow> string \<Rightarrow> 'b entry option" where
  "redis_answer rval s r t k =
     (case rval r t (respKey s k) of
        None \<Rightarrow> None
      | Some b \<Rightarrow> (case rsUnmarshal s b of Inl _ \<Rightarrow> None | Inr e \<Rightarrow> Some e))"

text \<open>Claims and answers never share a key of Redis.\<close>

lemma redis_keys [simp]:
  "claimKey s k = claimKey s k' \<longleftrightarrow> k = k'" "respKey s k = respKey s k' \<longleftrightarrow> k = k'"
  "claimKey s k \<noteq> respKey s k'" "respKey s k \<noteq> claimKey s k'"
  by (simp_all add: claimKey_def respKey_def)

lemma IdemRedis_sel [simp]:
  "id_LookupResponse (IdemRedis s) = ir_LookupResponse s" "id_Claim (IdemRedis s) = ir_Claim s"
  "id_StoreResponse (IdemRedis s) = ir_StoreResponse s" "id_Delete (IdemRedis s) = ir_Delete s"
  by (simp_all add: IdemRedis_def)

sublocale redis_idem \<subseteq> shared: idem_shared "IdemRedis s" "redis_held rval s" "redis_answer rval s"
proof (unfold_locales, goal_cases)
  case (1 t k m a m')
  then show ?case
    by (auto simp: ir_LookupResponse_def redis_answer_def dest!: get_value get_nil
        split: prod.splits redis_get.splits sum.splits)
next
  case (2 t k m x m' t' k')
  then obtain y where "rdGet (rsServer s) t (respKey s k) m = (y, m')"
    by (auto simp: ir_LookupResponse_def split: prod.splits redis_get.splits sum.splits)
  from get_frame [OF this 2(2)] show ?case by (simp add: redis_held_def redis_answer_def)
next
  case (3 t k d m m' t')
  then show ?case
    by (auto simp: ir_Claim_def redis_held_def dest!: setnx_won split: prod.splits sum.splits)
next
  case (4 t k d m y m' t' k')
  then obtain z where z: "rdSetNX (rsServer s) t (claimKey s k) ''1'' d m = (z, m')"
    by (auto simp: ir_Claim_def split: prod.splits sum.splits)
  from 4(3) setnx_keeps [OF z 4(2)] setnx_frame [OF z 4(2), of "claimKey s k'"] show ?case
    by (cases "k' = k") (auto simp: redis_held_def)
next
  case (5 t k d m y m' t' k')
  then obtain z where z: "rdSetNX (rsServer s) t (claimKey s k) ''1'' d m = (z, m')"
    by (auto simp: ir_Claim_def split: prod.splits sum.splits)
  from setnx_frame [OF z 5(2), of "respKey s k'"] show ?case by (simp add: redis_answer_def)
next
  case (6 t k e d m m' t')
  then obtain b where b: "rsMarshal s e = Inr b" "rdSet (rsServer s) t (respKey s k) b d m = (None, m')"
    by (auto simp: ir_StoreResponse_def split: prod.splits sum.splits option.splits)
  from set_value [OF b(2) 6(2,3)] codec [OF b(1)] show ?case by (simp add: redis_answer_def)
next
  case (7 t k e d m z m' t' k')
  then consider "m' = m" | b y where "rdSet (rsServer s) t (respKey s k) b d m = (y, m')"
    by (auto simp: ir_StoreResponse_def split: prod.splits sum.splits option.splits)
  then show ?case
  proof cases
    case (2 b y)
    from set_frame [OF 2 7(2), of "claimKey s k'"] 7(4) show ?thesis by (simp add: redis_held_def)
  qed (use 7 in simp)
next
  case (8 t k e d m z m' t' k')
  then consider "m' = m" | b y where "rdSet (rsServer s) t (respKey s k) b d m = (y, m')"
    by (auto simp: ir_StoreResponse_def split: prod.splits sum.splits option.splits)
  then show ?case
  proof cases
    case (2 b y)
    from set_frame [OF 2 8(2), of "respKey s k'"] 8(3) show ?thesis by (simp add: redis_answer_def)
  qed simp
qed

section \<open>The replay wrapper on a shared store\<close>

text \<open>The handler of a request with a key matters only when the request wins the claim.\<close>

lemma handler_needs_claim:
  assumes "key \<noteq> ''''"
    and "\<And>m1 m2. id_LookupResponse J (envNow e 0) (idemKey ep key) (svIdem svc) = (Inr None, m1) \<Longrightarrow>
      id_Claim J (envNow e 1) (idemKey ep key) (svIdemTTL svc) m1 \<noteq> (Inr True, m2)"
  shows "replayOrContinueStore e J ep key h svc = replayOrContinueStore e J ep key h' svc"
  using assms(1) assms(2)
  by (auto simp: replayOrContinueStore_def Let_def split: prod.split sum.split option.split bool.split)

locale service_shared = idem_shared J held_at answer_at
  for J :: "('i, body) idem_iface" and held_at answer_at
begin

lemma replay_kept:
  assumes "svIdemI svc2 = Some J" "key \<noteq> ''''"
    and "answer_at (svIdem svc2) (envNow e2 0) (idemKey ep key) = Some \<lparr>enStatus = st, enBody = v\<rparr>"
  shows "\<exists>m. replayOrContinue e2 ep key h2 svc2 \<in>
    {(Some \<lparr>rsStatus = st, rsReplay = True, rsBody = v\<rparr>, svc2\<lparr>svIdem := m\<rparr>),
     (Some (respondError 500 ''idempotency lookup failed''), svc2\<lparr>svIdem := m\<rparr>)}"
proof -
  obtain x m where x: "id_LookupResponse J (envNow e2 0) (idemKey ep key) (svIdem svc2) = (x, m)" by fastforce
  show ?thesis
  proof (cases x)
    case (Inl err)
    with x assms(1,2) show ?thesis
      by (intro exI [of _ m]) (simp add: replayOrContinue_def replayOrContinueStore_def Let_def)
  next
    case (Inr a)
    with lookup_answer x assms(3) have "a = Some \<lparr>enStatus = st, enBody = v\<rparr>" by metis
    with Inr x assms(1,2) show ?thesis
      by (intro exI [of _ m]) (simp add: replayOrContinue_def replayOrContinueStore_def Let_def)
  qed
qed

end

context redis_idem
begin

lemma is_shared: "idem_shared (IdemRedis s) (redis_held rval s) (redis_answer rval s)"
  by (rule shared.idem_shared_axioms)

end

lemma redis_service_shared:
  "redis_idem s rval \<Longrightarrow> service_shared (IdemRedis s) (redis_held rval s) (redis_answer rval s)"
  by (intro service_shared.intro redis_idem.is_shared)

interpretation mem_service: service_shared IdemMem mem_held mem_answer
  by (rule service_shared.intro) (rule mem_shared.idem_shared_axioms)

section \<open>A reference Redis\<close>

text \<open>
  A server that keeps each value with its expiry; \<open>down t\<close> makes the commands issued at time \<open>t\<close>
  fail.
\<close>

type_synonym redis_db = "string \<rightharpoonup> bytes \<times> time"

definition live :: "redis_db \<Rightarrow> time \<Rightarrow> string \<Rightarrow> bytes option" where
  "live r t k = (case r k of None \<Rightarrow> None | Some (v, x) \<Rightarrow> if t < x then Some v else None)"

definition ref_redis :: "(time \<Rightarrow> bool) \<Rightarrow> redis_db redis" where
  "ref_redis down =
     \<lparr>rdGet = (\<lambda>t k r. (if down t then RErr ''EOF'' else case live r t k of None \<Rightarrow> RNil | Some b \<Rightarrow> RBytes b, r)),
      rdSetNX = (\<lambda>t k v d r.
        if down t then (Inl ''EOF'', r)
        else if live r t k \<noteq> None then (Inr False, r) else (Inr True, r(k \<mapsto> (v, time_Add t d)))),
      rdSet = (\<lambda>t k v d r. if down t then (Some ''EOF'', r) else (None, r(k \<mapsto> (v, time_Add t d)))),
      rdDel = (\<lambda>ks r. (None, \<lambda>k. if k \<in> set ks then None else r k))\<rparr>"

interpretation ref_redis: redis_server "ref_redis down" live for down
  by unfold_locales (auto simp: ref_redis_def live_def split: option.splits if_splits)

text \<open>With a codec for the answers without a body.\<close>

definition ref_idem :: "(time \<Rightarrow> bool) \<Rightarrow> (redis_db, body) redis_store" where
  "ref_idem down = NewRedis (ref_redis down)
     (\<lambda>e. if enBody e = None then Inr (dec_digits (enStatus e)) else Inl ''not encoded'')
     (\<lambda>b. Inr \<lparr>enStatus = dec_value b, enBody = None\<rparr>) ''''"

lemma ref_idem_server [simp]: "rsServer (ref_idem down) = ref_redis down"
  by (simp add: ref_idem_def NewRedis_def)

interpretation ref_idem: redis_idem "ref_idem down" live for down
  by (intro redis_idem.intro redis_idem_axioms.intro)
     (auto simp: ref_redis.redis_server_axioms ref_idem_def NewRedis_def split: if_splits)

section \<open>Idempotency across replicas\<close>

text \<open>
  C8. A key is claimed at most once: whatever the calls of all replicas on the shared Redis, in
  whatever order it serves them, and whichever of them fail, at most one call wins the claim on
  a key as long as no claim made on it has expired. By \<open>handler_needs_claim\<close> only that request
  runs its handler.
\<close>

theorem redis_claims_once:
  assumes "redis_idem s rval" "within k t0 stop ops"
  shows "claims_won (IdemRedis s) k ops r \<le> 1"
  by (rule idem_shared.claims_once [OF redis_idem.is_shared [OF assms(1)] assms(2)])

theorem redis_claims_once_witness:
  "claims_won (IdemRedis (ref_idem (\<lambda>t. t = 1))) ''k''
     [(0, OpLookup ''k''), (1, OpClaim ''k'' 60), (2, OpClaim ''k'' 60), (3, OpClaim ''k'' 60),
      (4, OpStore ''k'' \<lparr>enStatus = 200, enBody = None\<rparr> 60), (5, OpClaim ''k'' 60)] Map.empty \<le> 1"
  by (rule redis_claims_once [OF ref_idem.redis_idem_axioms, where stop = 50 and ?t0.0 = 0])
     (simp add: time_Add_def)


text \<open>Two replicas on the reference server; the handler of the first answers 204.\<close>

definition replica :: "(time \<Rightarrow> bool) \<Rightarrow> redis_db \<Rightarrow> (memstore, redis_db) service" where
  "replica down r = WithIdempotencyStore (IdemRedis (ref_idem down)) r 0
     (NewService MemStore NewMemStore r (NewRegistry NewDummy) None ''s'')"

definition at_times :: "time \<Rightarrow> env" where
  "at_times t = \<lparr>envNow = (\<lambda>k. t + int k), envUUID = (\<lambda>k. ''u''), envOrder = [], envHMAC = (\<lambda>k b. b)\<rparr>"


end
