(* ===== verification/Worker.thy ===== *)
theory Worker
  imports Store Observe "HOL-Library.Multiset"
begin

text \<open>
  The webhook worker, \<open>internal/webhook/worker.go\<close>: a bounded queue, producers that enqueue
  without blocking, worker goroutines that drain it, and \<open>Stop\<close>. The goroutines interleave, so
  the worker is a step relation: every step is one action of one goroutine on the shared state,
  and a goroutine between two actions has its program counter. The handler and the store are
  parameters.
\<close>

section \<open>State\<close>

text \<open>
  Where a worker goroutine is in \<open>run\<close>: at the \<open>select\<close>; with a webhook received, the gauge
  not yet decremented; before \<open>inflight\<close> is incremented; before the handler; before
  \<open>MarkWebhookProcessed\<close>; before \<open>inflight\<close> is decremented; returned.
\<close>

datatype worker_pc =
    AtSelect | Received webhook | Counted webhook | Running webhook | Marking webhook
  | Finishing | Exited

text \<open>
  \<open>wkSent\<close> counts the producers that have sent their webhook and not yet incremented the
  gauge. \<open>wkAccepted\<close> and \<open>wkProcessed\<close> record what went in and what was marked, in order;
  \<open>wkDropped\<close> what was refused.
\<close>

record 's worker =
  wkQueue :: "webhook list"
  wkCap :: nat
  wkStopped :: bool
  wkWorkers :: "worker_pc list"
  wkSent :: nat
  wkInflight :: int64
  wkMetrics :: metrics
  wkStore :: 's
  wkWarnings :: "(string \<times> string) list"
  wkAccepted :: "webhook list"
  wkDropped :: "webhook list"
  wkProcessed :: "webhook list"

definition NewWorker :: "'s \<Rightarrow> metrics option \<Rightarrow> int \<Rightarrow> 's worker" where
  "NewWorker s m bufferSize =
     \<lparr>wkQueue = [], wkCap = (if bufferSize \<le> 0 then 64 else nat bufferSize), wkStopped = False,
      wkWorkers = [], wkSent = 0, wkInflight = 0,
      wkMetrics = (case m of None \<Rightarrow> NewMetrics | Some mt \<Rightarrow> mt), wkStore = s, wkWarnings = [],
      wkAccepted = [], wkDropped = [], wkProcessed = []\<rparr>"

text \<open>\<open>Enqueue\<close> up to its increment of the gauge: send when there is room, else drop.\<close>

definition Enqueue :: "webhook \<Rightarrow> 's worker \<Rightarrow> 's worker" where
  "Enqueue wh w =
     (if length (wkQueue w) < wkCap w
      then w\<lparr>wkQueue := wkQueue w @ [wh], wkSent := Suc (wkSent w), wkAccepted := wkAccepted w @ [wh]\<rparr>
      else w\<lparr>wkWarnings := wkWarnings w @ [(''webhook queue full, dropping'', whExternalEventID wh)],
             wkDropped := wkDropped w @ [wh]\<rparr>)"

definition Start :: "int \<Rightarrow> 's worker \<Rightarrow> 's worker" where
  "Start concurrency w =
     w\<lparr>wkWorkers := wkWorkers w @ replicate (if concurrency \<le> 0 then 1 else nat concurrency) AtSelect\<rparr>"

text \<open>
  \<open>Stop\<close> closes \<open>stopCh\<close>, which panics (\<open>None\<close>) when it is closed already; its wait ends when
  every worker has returned.
\<close>

definition Stop :: "'s worker \<Rightarrow> 's worker option" where
  "Stop w = (if wkStopped w then None else Some (w\<lparr>wkStopped := True\<rparr>))"

definition stop_returns :: "'s worker \<Rightarrow> bool" where
  "stop_returns w = (wkStopped w \<and> (\<forall>pc \<in> set (wkWorkers w). pc = Exited))"

definition Backlog :: "'s worker \<Rightarrow> nat" where
  "Backlog w = length (wkQueue w)"

text \<open>
  The body of \<open>Idle\<close>: one poll, with its two readings taken together, and the loop over what the
  successive polls see, with whether the context is done in between.
\<close>

definition idle_now :: "'s worker \<Rightarrow> bool" where
  "idle_now w = (Backlog w = 0 \<and> wkInflight w = 0)"

fun Idle :: "error \<Rightarrow> ('s worker \<times> bool) list \<Rightarrow> error option option" where
  "Idle cancelled [] = None"
| "Idle cancelled ((w, ctxDone) # polls) =
     (if idle_now w then Some None
      else if ctxDone then Some (Some cancelled)
      else Idle cancelled polls)"

section \<open>Steps\<close>

text \<open>
  One action of worker \<open>k\<close>, or of a producer that increments the gauge. With \<open>stopCh\<close> closed
  and the queue not empty, the \<open>select\<close> takes either branch. The handler is called with a nil
  payload; \<open>tm\<close> is the clock of the store.
\<close>

inductive work ::
  "('s, 'w) store_iface \<Rightarrow> (bytes \<Rightarrow> 's \<Rightarrow> error option \<times> 's) \<Rightarrow> 's worker \<Rightarrow> 's worker \<Rightarrow> bool"
  for I h where
  counted_in: "wkSent w = Suc n \<Longrightarrow>
    work I h w (w\<lparr>wkSent := n, wkMetrics := IncWebhookBacklog (wkMetrics w)\<rparr>)"
| receive: "k < length (wkWorkers w) \<Longrightarrow> wkWorkers w ! k = AtSelect \<Longrightarrow> wkQueue w = wh # q \<Longrightarrow>
    work I h w (w\<lparr>wkQueue := q, wkWorkers := (wkWorkers w)[k := Received wh]\<rparr>)"
| counted_out: "k < length (wkWorkers w) \<Longrightarrow> wkWorkers w ! k = Received wh \<Longrightarrow>
    work I h w (w\<lparr>wkMetrics := DecWebhookBacklog (wkMetrics w),
                  wkWorkers := (wkWorkers w)[k := Counted wh]\<rparr>)"
| begin_run: "k < length (wkWorkers w) \<Longrightarrow> wkWorkers w ! k = Counted wh \<Longrightarrow>
    work I h w (w\<lparr>wkInflight := wkInflight w + 1, wkWorkers := (wkWorkers w)[k := Running wh]\<rparr>)"
| handle: "k < length (wkWorkers w) \<Longrightarrow> wkWorkers w ! k = Running wh \<Longrightarrow> h [] (wkStore w) = (e, s') \<Longrightarrow>
    work I h w (w\<lparr>wkStore := s', wkWorkers := (wkWorkers w)[k := Marking wh],
                  wkWarnings := wkWarnings w @
                    (case e of None \<Rightarrow> [] | Some _ \<Rightarrow> [(''webhook handler error'', whExternalEventID wh)])\<rparr>)"
| mark: "k < length (wkWorkers w) \<Longrightarrow> wkWorkers w ! k = Marking wh \<Longrightarrow>
    work I h w (w\<lparr>wkStore := st_MarkWebhookProcessed I tm (whRail wh) (whExternalEventID wh) (wkStore w),
                  wkProcessed := wkProcessed w @ [wh], wkWorkers := (wkWorkers w)[k := Finishing]\<rparr>)"
| finish: "k < length (wkWorkers w) \<Longrightarrow> wkWorkers w ! k = Finishing \<Longrightarrow>
    work I h w (w\<lparr>wkInflight := wkInflight w - 1, wkWorkers := (wkWorkers w)[k := AtSelect]\<rparr>)"
| stopped: "k < length (wkWorkers w) \<Longrightarrow> wkWorkers w ! k = AtSelect \<Longrightarrow> wkStopped w \<Longrightarrow>
    work I h w (w\<lparr>wkWorkers := (wkWorkers w)[k := Exited]\<rparr>)"

text \<open>The states a worker can be in.\<close>

inductive wreach ::
  "('s, 'w) store_iface \<Rightarrow> (bytes \<Rightarrow> 's \<Rightarrow> error option \<times> 's) \<Rightarrow> 's worker \<Rightarrow> bool"
  for I h where
  new: "mtWebhookBacklog (wkMetrics (NewWorker s m n)) = 0 \<Longrightarrow> wreach I h (NewWorker s m n)"
| enqueue: "wreach I h w \<Longrightarrow> wreach I h (Enqueue wh w)"
| start: "wreach I h w \<Longrightarrow> wreach I h (Start n w)"
| stop: "wreach I h w \<Longrightarrow> Stop w = Some w' \<Longrightarrow> wreach I h w'"
| work: "wreach I h w \<Longrightarrow> work I h w w' \<Longrightarrow> wreach I h w'"

section \<open>The invariant\<close>

text \<open>The webhook a worker holds, and what it counts for in \<open>inflight\<close> and in the gauge.\<close>

fun held :: "worker_pc \<Rightarrow> webhook multiset" where
  "held (Received wh) = {#wh#}"
| "held (Counted wh) = {#wh#}"
| "held (Running wh) = {#wh#}"
| "held (Marking wh) = {#wh#}"
| "held _ = {#}"

fun flying :: "worker_pc \<Rightarrow> int64" where
  "flying (Running wh) = 1"
| "flying (Marking wh) = 1"
| "flying Finishing = 1"
| "flying _ = 0"

fun uncounted :: "worker_pc \<Rightarrow> int64" where
  "uncounted (Received wh) = 1"
| "uncounted _ = 0"

definition worker_ok :: "'s worker \<Rightarrow> bool" where
  "worker_ok w \<longleftrightarrow>
     length (wkQueue w) \<le> wkCap w \<and> 0 < wkCap w \<and>
     wkInflight w = (\<Sum>pc \<leftarrow> wkWorkers w. flying pc) \<and>
     mtWebhookBacklog (wkMetrics w) + of_nat (wkSent w) =
       of_nat (length (wkQueue w)) + (\<Sum>pc \<leftarrow> wkWorkers w. uncounted pc) \<and>
     mset (wkAccepted w) = mset (wkQueue w) + (\<Sum>pc \<leftarrow> wkWorkers w. held pc) + mset (wkProcessed w)"

lemma sum_list_upd:
  fixes f :: "'a \<Rightarrow> 'b::comm_monoid_add"
  assumes "k < length xs"
  shows "f (xs ! k) + (\<Sum>x \<leftarrow> xs[k := y]. f x) = (\<Sum>x \<leftarrow> xs. f x) + f y"
  using assms by (induction xs arbitrary: k) (auto simp: nth_Cons ac_simps split: nat.splits)

lemma sum_list_upd_group:
  fixes f :: "'a \<Rightarrow> 'b::ab_group_add"
  assumes "k < length xs"
  shows "(\<Sum>x \<leftarrow> xs[k := y]. f x) = (\<Sum>x \<leftarrow> xs. f x) + f y - f (xs ! k)"
  using sum_list_upd [OF assms, of f y] by (simp add: algebra_simps)

lemma held_upd:
  assumes "k < length ws" "ws ! k = pc"
  obtains M where "(\<Sum>pc \<leftarrow> ws. held pc) = held pc + M" "(\<Sum>pc \<leftarrow> ws[k := pc']. held pc) = M + held pc'"
proof -
  from sum_list_upd [OF assms(1), of held Exited] assms(2)
  have M: "(\<Sum>pc \<leftarrow> ws. held pc) = held pc + (\<Sum>pc \<leftarrow> ws[k := Exited]. held pc)" by simp
  with sum_list_upd [OF assms(1), of held pc'] assms(2) that show thesis
    by (metis add.assoc add_left_cancel)
qed

text \<open>A worker moves: the three sums change by its program counter, the webhooks are conserved.\<close>

lemma worker_ok_move:
  assumes "worker_ok w" "k < length (wkWorkers w)" "wkWorkers w ! k = pc"
    and "wkCap w' = wkCap w" "length (wkQueue w') \<le> length (wkQueue w)" "wkSent w' = wkSent w"
    and "wkWorkers w' = (wkWorkers w)[k := pc']" "wkAccepted w' = wkAccepted w"
    and "wkInflight w' = wkInflight w + flying pc' - flying pc"
    and "mtWebhookBacklog (wkMetrics w') + of_nat (length (wkQueue w)) =
      mtWebhookBacklog (wkMetrics w) + of_nat (length (wkQueue w')) + uncounted pc' - uncounted pc"
    and "mset (wkQueue w') + held pc' + mset (wkProcessed w') =
      mset (wkQueue w) + held pc + mset (wkProcessed w)"
  shows "worker_ok w'"
proof -
  obtain M where M: "(\<Sum>pc \<leftarrow> wkWorkers w. held pc) = held pc + M"
    "(\<Sum>pc \<leftarrow> wkWorkers w'. held pc) = M + held pc'"
    using held_upd [OF assms(2,3)] assms(7) by metis
  have "mset (wkAccepted w') = (mset (wkQueue w) + held pc + mset (wkProcessed w)) + M"
    using assms(1,8) M(1) by (simp add: worker_ok_def ac_simps)
  also have "\<dots> = mset (wkQueue w') + (\<Sum>pc \<leftarrow> wkWorkers w'. held pc) + mset (wkProcessed w')"
    unfolding assms(11) [symmetric] M(2) by (simp add: ac_simps)
  finally have "mset (wkAccepted w') =
    mset (wkQueue w') + (\<Sum>pc \<leftarrow> wkWorkers w'. held pc) + mset (wkProcessed w')" .
  moreover have "mtWebhookBacklog (wkMetrics w') + of_nat (wkSent w') =
      of_nat (length (wkQueue w')) + (\<Sum>pc \<leftarrow> wkWorkers w'. uncounted pc)"
  proof -
    have "mtWebhookBacklog (wkMetrics w) = of_nat (length (wkQueue w)) +
        (\<Sum>pc \<leftarrow> wkWorkers w. uncounted pc) - of_nat (wkSent w)"
      using assms(1) by (simp add: worker_ok_def algebra_simps)
    with assms(10) have "mtWebhookBacklog (wkMetrics w') = of_nat (length (wkQueue w')) +
        (\<Sum>pc \<leftarrow> wkWorkers w. uncounted pc) + uncounted pc' - uncounted pc - of_nat (wkSent w)"
      by (simp add: algebra_simps)
    then show ?thesis by (simp add: assms(3,6,7) sum_list_upd_group [OF assms(2)])
  qed
  ultimately show ?thesis
    using assms(1-5,7,9) by (simp add: worker_ok_def sum_list_upd_group)
qed

lemma work_ok:
  assumes "work I h w w'" "worker_ok w" shows "worker_ok w'"
  using assms
proof (induction rule: work.induct)
  case (counted_in w n)
  then show ?case by (simp add: worker_ok_def IncWebhookBacklog_def ac_simps)
next
  case (receive k w wh q)
  from receive(4,1,2) show ?case
    by (rule worker_ok_move [where pc' = "Received wh"]) (simp_all add: receive(3))
next
  case (counted_out k w wh)
  from counted_out(3,1,2) show ?case
    by (rule worker_ok_move [where pc' = "Counted wh"]) (simp_all add: DecWebhookBacklog_def)
next
  case (begin_run k w wh)
  from begin_run(3,1,2) show ?case by (rule worker_ok_move [where pc' = "Running wh"]) simp_all
next
  case (handle k w wh e s')
  from handle(4,1,2) show ?case by (rule worker_ok_move [where pc' = "Marking wh"]) simp_all
next
  case (mark k w wh tm)
  from mark(3,1,2) show ?case by (rule worker_ok_move [where pc' = Finishing]) simp_all
next
  case (finish k w)
  from finish(3,1,2) show ?case by (rule worker_ok_move [where pc' = AtSelect]) simp_all
next
  case (stopped k w)
  from stopped(4,1,2) show ?case by (rule worker_ok_move [where pc' = Exited]) simp_all
qed

lemma NewWorker_ok: "mtWebhookBacklog (wkMetrics (NewWorker s m n)) = 0 \<Longrightarrow> worker_ok (NewWorker s m n)"
  by (simp add: worker_ok_def NewWorker_def)

lemma Enqueue_ok: "worker_ok w \<Longrightarrow> worker_ok (Enqueue wh w)"
  by (simp add: worker_ok_def Enqueue_def algebra_simps)

lemma Start_ok: "worker_ok w \<Longrightarrow> worker_ok (Start n w)"
proof -
  have "(\<Sum>pc \<leftarrow> replicate k AtSelect. held pc) = {#}" for k by (induction k) simp_all
  then show "worker_ok w \<Longrightarrow> worker_ok (Start n w)"
    by (simp add: worker_ok_def Start_def sum_list_replicate)
qed

lemma Stop_ok: "worker_ok w \<Longrightarrow> Stop w = Some w' \<Longrightarrow> worker_ok w'"
  by (auto simp: worker_ok_def Stop_def split: if_splits)

lemma wreach_ok: "wreach I h w \<Longrightarrow> worker_ok w"
  by (induction rule: wreach.induct) (auto intro: NewWorker_ok Enqueue_ok Start_ok Stop_ok work_ok)

text \<open>No worker returns before \<open>stopCh\<close> is closed.\<close>

lemma work_frame:
  assumes "work I h w w'"
  shows "wkStopped w' = wkStopped w \<and> wkAccepted w' = wkAccepted w \<and> wkCap w' = wkCap w \<and>
    length (wkWorkers w') = length (wkWorkers w) \<and>
    (Exited \<in> set (wkWorkers w') \<longrightarrow> Exited \<in> set (wkWorkers w) \<or> wkStopped w)"
  using assms by (induction rule: work.induct) (auto dest!: set_update_subset_insert [THEN subsetD])

lemma wreach_exited: "wreach I h w \<Longrightarrow> Exited \<in> set (wkWorkers w) \<Longrightarrow> wkStopped w"
proof (induction rule: wreach.induct)
  case (work w w')
  then show ?case using work_frame [OF work(2)] by auto
qed (auto simp: NewWorker_def Enqueue_def Start_def Stop_def split: if_splits)

section \<open>Termination and draining\<close>

fun weight :: "worker_pc \<Rightarrow> nat" where
  "weight Exited = 0"
| "weight AtSelect = 1"
| "weight Finishing = 2"
| "weight (Marking wh) = 3"
| "weight (Running wh) = 4"
| "weight (Counted wh) = 5"
| "weight (Received wh) = 6"

definition load :: "'s worker \<Rightarrow> nat" where
  "load w = 6 * length (wkQueue w) + (\<Sum>pc \<leftarrow> wkWorkers w. weight pc) + wkSent w"

lemma weight_upd:
  assumes "k < length ws" "weight pc < weight (ws ! k)"
  shows "(\<Sum>pc \<leftarrow> ws[k := pc]. weight pc) < (\<Sum>pc \<leftarrow> ws. weight pc)"
  using sum_list_upd [OF assms(1), of weight pc] assms(2) by simp

lemma work_load:
  assumes "work I h w w'" shows "load w' < load w"
  using assms
proof (induction rule: work.induct)
  case (receive k w wh q)
  then show ?case using sum_list_upd [OF receive(1), of weight "Received wh"] by (simp add: load_def)
qed (simp_all add: load_def weight_upd)

text \<open>A worker that is not stopped can always act, unless there is nothing left to do.\<close>

lemma work_stuck:
  assumes stuck: "\<And>w'. \<not> work I h w w'" and w: "\<not> wkStopped w" "wkWorkers w \<noteq> []"
    "Exited \<notin> set (wkWorkers w)"
  shows "wkQueue w = [] \<and> wkSent w = 0 \<and> (\<forall>pc \<in> set (wkWorkers w). pc = AtSelect)"
proof -
  have at: "wkWorkers w ! k = AtSelect" if "k < length (wkWorkers w)" for k
  proof (cases "wkWorkers w ! k")
    case (Running wh)
    obtain e s' where "h [] (wkStore w) = (e, s')" by fastforce
    with that Running stuck show ?thesis by (blast intro: work.handle)
  qed (use that stuck w(3) in \<open>auto intro: work.intros dest: nth_mem\<close>)
  have "wkSent w = 0" using stuck work.counted_in [of w] by (cases "wkSent w") auto
  moreover have "wkQueue w = []" using stuck at [of 0] w(2) work.receive [of 0 w] by (cases "wkQueue w") auto
  ultimately show ?thesis using at by (metis in_set_conv_nth)
qed

lemma works_frame:
  "(work I h)\<^sup>*\<^sup>* w w' \<Longrightarrow> wreach I h w \<Longrightarrow> wreach I h w' \<and> wkStopped w' = wkStopped w \<and>
    wkAccepted w' = wkAccepted w \<and> length (wkWorkers w') = length (wkWorkers w)"
  by (induction rule: rtranclp_induct) (auto dest: work_frame intro: wreach.work)

lemma works_stop: "\<exists>w'. (work I h)\<^sup>*\<^sup>* w w' \<and> (\<forall>w''. \<not> work I h w' w'')"
proof (induction "load w" arbitrary: w rule: less_induct)
  case less
  show ?case
  proof (cases "\<exists>w1. work I h w w1")
    case True
    then obtain w1 where w1: "work I h w w1" by blast
    from less [OF work_load [OF w1]] w1 show ?thesis by (blast intro: converse_rtranclp_into_rtranclp)
  qed blast
qed

lemma all_idle_sums:
  "\<forall>pc \<in> set ws. pc = AtSelect \<Longrightarrow>
   (\<Sum>pc \<leftarrow> ws. flying pc) = 0 \<and> (\<Sum>pc \<leftarrow> ws. uncounted pc) = 0 \<and> (\<Sum>pc \<leftarrow> ws. held pc) = {#}"
  by (induction ws) auto

text \<open>
  A worker of \<open>MemStore\<close> with a handler that fails, in the states the examples below start
  from: two goroutines and one accepted webhook; and one goroutine after \<open>Stop\<close>, with the
  webhook still queued.
\<close>

definition wk_webhook :: webhook where
  "wk_webhook = \<lparr>whID = ''w'', whRail = RailCard, whExternalEventID = ''evt'', whSignature = ''verified'',
     whReceivedAt = 0, whProcessedAt = None\<rparr>"

definition wk_handler :: "bytes \<Rightarrow> memstore \<Rightarrow> error option \<times> memstore" where
  "wk_handler payload s = (Some (ErrorString ''no payload''), s)"

definition wk_queued :: "int \<Rightarrow> memstore worker" where
  "wk_queued n = Enqueue wk_webhook (Start n (NewWorker NewMemStore None 0))"

abbreviation wk_run :: "memstore worker \<Rightarrow> memstore worker \<Rightarrow> bool" where
  "wk_run \<equiv> work (MemStore :: (memstore, unit) store_iface) wk_handler"

lemma wk_queued_reach: "wreach (MemStore :: (memstore, unit) store_iface) wk_handler (wk_queued n)"
  unfolding wk_queued_def
  by (intro wreach.enqueue wreach.start wreach.new) (simp add: NewWorker_def NewMetrics_def)

lemma wk_queued_simps [simp]:
  "wkQueue (wk_queued n) = [wk_webhook]" "\<not> wkStopped (wk_queued n)"
  "wkWorkers (wk_queued n) = replicate (if n \<le> 0 then 1 else nat n) AtSelect"
  "wkAccepted (wk_queued n) = [wk_webhook]" "wkProcessed (wk_queued n) = []" "wkInflight (wk_queued n) = 0"
  by (simp_all add: wk_queued_def Enqueue_def Start_def NewWorker_def)

text \<open>
  C18. In every reachable state, whatever the interleaving of producers and workers: the queue
  holds at most its capacity; no accepted webhook is lost or processed twice (each is in the
  queue, held by one worker, or marked as processed); \<open>inflight\<close> counts the workers inside the
  handler; and the backlog gauge differs from the queue length only by the producers and workers
  that have sent or received and not yet counted.
\<close>

theorem worker_conserves:
  assumes "wreach I h w"
  shows "Backlog w \<le> wkCap w \<and>
    mset (wkAccepted w) = mset (wkQueue w) + (\<Sum>pc \<leftarrow> wkWorkers w. held pc) + mset (wkProcessed w) \<and>
    wkInflight w = (\<Sum>pc \<leftarrow> wkWorkers w. flying pc) \<and>
    mtWebhookBacklog (wkMetrics w) =
      of_nat (Backlog w) + (\<Sum>pc \<leftarrow> wkWorkers w. uncounted pc) - of_nat (wkSent w)"
  using wreach_ok [OF assms] by (simp add: worker_ok_def Backlog_def algebra_simps)

theorem worker_conserves_witness:
  "Backlog (wk_queued 2) \<le> wkCap (wk_queued 2) \<and>
   mset (wkAccepted (wk_queued 2)) = mset (wkQueue (wk_queued 2)) +
     (\<Sum>pc \<leftarrow> wkWorkers (wk_queued 2). held pc) + mset (wkProcessed (wk_queued 2))"
  using worker_conserves [OF wk_queued_reach [of 2]] by blast

text \<open>
  C17. The worker drains its queue: from any reachable state with a started worker that has not
  been stopped, the goroutines, left to themselves, take finitely many steps under every
  scheduling, and when none can step every webhook accepted so far has been marked as processed,
  exactly once, whatever the handler returned, the gauge and \<open>inflight\<close> are zero, and \<open>Idle\<close>
  returns.
\<close>

theorem worker_drains:
  assumes "wreach I h w" "\<not> wkStopped w" "wkWorkers w \<noteq> []"
  shows "(\<exists>w'. (work I h)\<^sup>*\<^sup>* w w' \<and> (\<forall>w''. \<not> work I h w' w'')) \<and>
    (\<nexists>f. f 0 = w \<and> (\<forall>n. work I h (f n) (f (Suc n)))) \<and>
    (\<forall>w'. (work I h)\<^sup>*\<^sup>* w w' \<and> (\<forall>w''. \<not> work I h w' w'') \<longrightarrow>
       mset (wkProcessed w') = mset (wkAccepted w) \<and> mtWebhookBacklog (wkMetrics w') = 0 \<and> idle_now w')"
proof (intro conjI allI impI works_stop)
  show "\<nexists>f. f 0 = w \<and> (\<forall>n. work I h (f n) (f (Suc n)))"
  proof
    assume "\<exists>f. f 0 = w \<and> (\<forall>n. work I h (f n) (f (Suc n)))"
    then obtain f where f: "\<And>n. work I h (f n) (f (Suc n))" by blast
    have "load (f n) + n \<le> load (f 0)" for n
    proof (induction n)
      case (Suc n)
      then show ?case using work_load [OF f [of n]] by simp
    qed simp
    from this [of "Suc (load (f 0))"] show False by simp
  qed
next
  fix w' assume "(work I h)\<^sup>*\<^sup>* w w' \<and> (\<forall>w''. \<not> work I h w' w'')"
  then have run: "(work I h)\<^sup>*\<^sup>* w w'" and stuck: "\<And>w''. \<not> work I h w' w''" by auto
  note fr = works_frame [OF run assms(1)]
  have e: "Exited \<notin> set (wkWorkers w')" using wreach_exited [of I h w'] fr assms(2) by blast
  have n: "wkWorkers w' \<noteq> []" "\<not> wkStopped w'" using fr assms(2,3) by auto
  note s = work_stuck [OF stuck n(2,1) e]
  then have s3: "\<forall>pc \<in> set (wkWorkers w'). pc = AtSelect" by blast
  have "worker_ok w'" using fr wreach_ok by blast
  with s all_idle_sums [OF s3] fr
  show "mset (wkProcessed w') = mset (wkAccepted w)" "mtWebhookBacklog (wkMetrics w') = 0" "idle_now w'"
    by (simp_all add: worker_ok_def idle_now_def Backlog_def)
qed


theorem worker_drains_witness:
  "\<exists>w'. wk_run\<^sup>*\<^sup>* (wk_queued 2) w' \<and> mset (wkProcessed w') = {#wk_webhook#} \<and> idle_now w'"
proof -
  have "wkWorkers (wk_queued 2) \<noteq> []" by simp
  from worker_drains [OF wk_queued_reach wk_queued_simps(2) this] show ?thesis by force
qed

text \<open>
  \<open>Stop\<close>: when it returns, every accepted webhook has been marked as processed or is still in
  the queue; none is in the hands of a worker.
\<close>

lemma stop_accounts:
  assumes "wreach I h w" "stop_returns w"
  shows "mset (wkAccepted w) = mset (wkQueue w) + mset (wkProcessed w)"
proof -
  have "(\<Sum>pc \<leftarrow> ws. held pc) = {#}" if "\<forall>pc \<in> set ws. pc = Exited" for ws
    using that by (induction ws) auto
  with wreach_ok [OF assms(1)] assms(2) show ?thesis by (simp add: worker_ok_def stop_returns_def)
qed

text \<open>
  \<open>Stop\<close> is documented to wait for the workers to drain the queue. It does not: with
  \<open>stopCh\<close> closed and a webhook queued, both branches of the \<open>select\<close> are ready, and there is
  an execution in which \<open>Stop\<close> returns while an accepted webhook is still in the queue, and
  whatever the goroutines that are left do, it is never processed.
\<close>

lemma stop_leaves_queue:
  "\<exists>w. wreach (MemStore :: (memstore, unit) store_iface) wk_handler w \<and> stop_returns w \<and>
     wkAccepted w = [wk_webhook] \<and> wkQueue w = [wk_webhook] \<and> wkProcessed w = [] \<and>
     (\<nexists>w'. wk_run\<^sup>*\<^sup>* w w' \<and> wkProcessed w' \<noteq> [])"
proof -
  obtain w1 where w1: "Stop (wk_queued 1) = Some w1" by (simp add: Stop_def)
  let ?w = "w1\<lparr>wkWorkers := (wkWorkers w1)[0 := Exited]\<rparr>"
  have [simp]: "w1 = (wk_queued 1)\<lparr>wkStopped := True\<rparr>" using w1 by (simp add: Stop_def)
  have "wk_run w1 ?w" by (rule work.stopped) simp_all
  with wreach.stop [OF wk_queued_reach w1]
  have r: "wreach (MemStore :: (memstore, unit) store_iface) wk_handler ?w" by (rule wreach.work)
  have "wkWorkers w' = [Exited] \<and> wkProcessed w' = []" if "wk_run\<^sup>*\<^sup>* ?w w'" for w'
    using that
  proof (induction rule: rtranclp_induct)
    case (step y z)
    from step(2,3) show ?case by (cases rule: work.cases) auto
  qed simp
  then have "\<nexists>w'. wk_run\<^sup>*\<^sup>* ?w w' \<and> wkProcessed w' \<noteq> []" by blast
  with r show ?thesis by (intro exI [of _ ?w]) (simp add: stop_returns_def)
qed

text \<open>
  \<open>Idle\<close> is documented to block until the queue is drained and all handlers in flight have
  completed. It may return early: between the receive from the queue and the increment of
  \<open>inflight\<close> a webhook is counted by neither, and there is an execution in which \<open>Idle\<close> sees an
  empty queue and no handler in flight while the only accepted webhook has not been processed.
\<close>

lemma idle_returns_early:
  "\<exists>w. wreach (MemStore :: (memstore, unit) store_iface) wk_handler w \<and>
     wkAccepted w = [wk_webhook] \<and> wkProcessed w = [] \<and> Idle cancelled [(w, False)] = Some None"
proof -
  let ?w = "(wk_queued 1)\<lparr>wkQueue := [], wkWorkers := (wkWorkers (wk_queued 1))[0 := Received wk_webhook]\<rparr>"
  have "wk_run (wk_queued 1) ?w" by (rule work.receive) simp_all
  with wk_queued_reach have "wreach (MemStore :: (memstore, unit) store_iface) wk_handler ?w"
    by (rule wreach.work)
  then show ?thesis by (intro exI [of _ ?w]) (simp add: idle_now_def Backlog_def)
qed

end
