(* ===== verification/Authtoken.thy ===== *)
theory Authtoken
  imports Prelude
begin

text \<open>
  Bearer-token authentication, \<open>internal/authtoken/middleware.go\<close>: base64url without padding
  (package encoding/base64), \<open>Issue\<close>, \<open>token_sign\<close>, \<open>token_verify\<close>, the middleware and
  \<open>SecretFromEnv\<close>. HMAC-SHA256 and the JSON codec of headers and claims are parameters.
\<close>

section \<open>base64.RawURLEncoding\<close>

text \<open>The alphabet, and the value of a character in it.\<close>

definition b64_alphabet :: string where
  "b64_alphabet = ''ABCDEFGHIJKLMNOPQRSTUVWXYZabcdefghijklmnopqrstuvwxyz0123456789-_''"

definition b64_char :: "nat \<Rightarrow> char" where
  "b64_char n = b64_alphabet ! n"

fun index_of :: "'a \<Rightarrow> 'a list \<Rightarrow> nat option" where
  "index_of x [] = None"
| "index_of x (y # ys) = (if x = y then Some 0 else map_option Suc (index_of x ys))"

definition b64_val :: "char \<Rightarrow> nat option" where
  "b64_val c = index_of c b64_alphabet"

text \<open>The sextets of a byte string: four per three bytes, the last group cut short.\<close>

fun sextets :: "nat list \<Rightarrow> nat list" where
  "sextets (a # b # c # rest) =
     (a div 4) # ((a mod 4) * 16 + b div 16) # ((b mod 16) * 4 + c div 64) # (c mod 64) # sextets rest"
| "sextets [a, b] = [a div 4, (a mod 4) * 16 + b div 16, (b mod 16) * 4]"
| "sextets [a] = [a div 4, (a mod 4) * 16]"
| "sextets [] = []"

fun octets :: "nat list \<Rightarrow> nat list" where
  "octets (w # x # y # z # rest) =
     (w * 4 + x div 16) # ((x mod 16) * 16 + y div 4) # ((y mod 4) * 64 + z) # octets rest"
| "octets [w, x, y] = [w * 4 + x div 16, (x mod 16) * 16 + y div 4]"
| "octets [w, x] = [w * 4 + x div 16]"
| "octets _ = []"

definition token_encode :: "bytes \<Rightarrow> string" where
  "token_encode bs = map b64_char (sextets (map of_char bs))"

text \<open>
  The decoder skips line breaks and stops at the first character outside the alphabet with its
  offset; a single sextet in the last group is an error too.
\<close>

definition CorruptInputError :: "nat \<Rightarrow> error" where
  "CorruptInputError n =
     ErrorString (''illegal base64 data at input byte '' @ strconv_FormatInt (of_nat n))"

fun b64_scan :: "nat \<Rightarrow> string \<Rightarrow> nat + nat list" where
  "b64_scan k [] = Inr []"
| "b64_scan k (c # cs) =
     (if c = CHR 0x0A \<or> c = CHR 0x0D then b64_scan (Suc k) cs
      else case b64_val c of
             None \<Rightarrow> Inl k
           | Some v \<Rightarrow> (case b64_scan (Suc k) cs of Inl e \<Rightarrow> Inl e | Inr vs \<Rightarrow> Inr (v # vs)))"

definition token_decode :: "string \<Rightarrow> error + bytes" where
  "token_decode s =
     (case b64_scan 0 s of
        Inl k \<Rightarrow> Inl (CorruptInputError k)
      | Inr vs \<Rightarrow>
          (if length vs mod 4 = 1 then Inl (CorruptInputError (length s - 1))
           else Inr (map char_of (octets vs))))"

section \<open>Tokens\<close>

record claims =
  clSub :: string
  clIat :: int64
  clExp :: int64

text \<open>
  \<open>jcHeader\<close> and \<open>jcClaims\<close> marshal the header map and the claims, \<open>jcParse\<close> unmarshals a
  payload into claims; \<open>mac\<close> is HMAC-SHA256 of a key and a message.
\<close>

record jwt_codec =
  jcHeader :: "(string \<times> string) list \<Rightarrow> error + bytes"
  jcClaims :: "claims \<Rightarrow> error + bytes"
  jcParse :: "bytes \<Rightarrow> error + claims"

definition token_sign ::
  "(bytes \<Rightarrow> bytes \<Rightarrow> bytes) \<Rightarrow> jwt_codec \<Rightarrow> (string \<times> string) list \<Rightarrow> claims \<Rightarrow> string \<Rightarrow> error + string" where
  "token_sign mac jc header c secret =
     (case jcHeader jc header of
        Inl err \<Rightarrow> Inl err
      | Inr hb \<Rightarrow>
          (case jcClaims jc c of
             Inl err \<Rightarrow> Inl err
           | Inr cb \<Rightarrow>
               (let head = token_encode hb; body = token_encode cb;
                    sig = token_encode (mac secret (head @ ''.'' @ body))
                in Inr (head @ ''.'' @ body @ ''.'' @ sig))))"

text \<open>\<open>strings.Split(s, sep)\<close> for a separator of one character.\<close>

fun strings_Split :: "char \<Rightarrow> string \<Rightarrow> string list" where
  "strings_Split sep [] = [[]]"
| "strings_Split sep (c # cs) =
     (if c = sep then [] # strings_Split sep cs
      else case strings_Split sep cs of [] \<Rightarrow> [[c]] | p # ps \<Rightarrow> (c # p) # ps)"

definition token_verify ::
  "(bytes \<Rightarrow> bytes \<Rightarrow> bytes) \<Rightarrow> jwt_codec \<Rightarrow> string \<Rightarrow> string \<Rightarrow> error + claims" where
  "token_verify mac jc token secret =
     (case strings_Split (CHR ''.'') token of
        [p0, p1, p2] \<Rightarrow>
          (if token_encode (mac secret (p0 @ ''.'' @ p1)) \<noteq> p2 then Inl (ErrorString ''invalid signature'')
           else
             (case token_decode p1 of
                Inl err \<Rightarrow> Inl (Errorf ''decode payload: '' err '''')
              | Inr body \<Rightarrow>
                  (case jcParse jc body of
                     Inl err \<Rightarrow> Inl (Errorf ''parse payload: '' err '''')
                   | Inr c \<Rightarrow> Inr c)))
      | _ \<Rightarrow> Inl (ErrorString ''malformed token''))"

text \<open>\<open>Time.Unix\<close>: whole seconds since the epoch.\<close>

definition time_UnixSec :: "time \<Rightarrow> int64" where
  "time_UnixSec t = word_of_int (t div 1000000000)"

definition token_life :: duration where
  "token_life = 86400000000000"

definition Issue ::
  "(bytes \<Rightarrow> bytes \<Rightarrow> bytes) \<Rightarrow> jwt_codec \<Rightarrow> time \<Rightarrow> string \<Rightarrow> string \<Rightarrow> error + string" where
  "Issue mac jc now serviceName secret =
     (if secret = '''' then Inl (ErrorString ''authtoken: secret is required to issue a token'')
      else
        token_sign mac jc [(''alg'', ''HS256''), (''typ'', ''JWT'')]
          \<lparr>clSub = serviceName, clIat = time_UnixSec now, clExp = time_UnixSec (time_Add now token_life)\<rparr>
          secret)"

section \<open>The middleware\<close>

definition skipPaths :: "string \<Rightarrow> bool" where
  "skipPaths path = (path = ''/healthz'' \<or> path = ''/readyz'' \<or> path = ''/metrics'')"

text \<open>The request is handed on, or answered 401 with a message.\<close>

datatype auth_result = Passed | Unauthorized string

definition Middleware ::
  "(bytes \<Rightarrow> bytes \<Rightarrow> bytes) \<Rightarrow> jwt_codec \<Rightarrow> string \<Rightarrow> bool \<Rightarrow> time \<Rightarrow> string \<Rightarrow> string \<Rightarrow> auth_result" where
  "Middleware mac jc secret bypass now path auth =
     (if bypass \<or> skipPaths path then Passed
      else if \<not> strings_HasPrefix auth ''Bearer ''
           then Unauthorized ''missing or malformed Authorization header''
      else
        (case token_verify mac jc (strings_TrimPrefix auth ''Bearer '') secret of
           Inl err \<Rightarrow> Unauthorized (error_text err)
         | Inr c \<Rightarrow>
             (if sint (clExp c) < sint (time_UnixSec now) then Unauthorized ''token expired''
              else Passed)))"

text \<open>
  \<open>SecretFromEnv\<close>: the secret, no secret with authentication disabled, or a fatal exit;
  \<open>testing\<close> is whether the binary is a test binary.
\<close>

datatype 'a startup = Started 'a | Fatal string

definition SecretFromEnv :: "(string \<Rightarrow> string) \<Rightarrow> bool \<Rightarrow> (string \<times> bool) startup" where
  "SecretFromEnv getenv testing =
     (let s = getenv ''SERVICE_TOKEN_SECRET'' in
      if s \<noteq> '''' then Started (s, False)
      else if getenv ''DEV_MODE'' = ''1'' \<or> testing then Started ('''', True)
      else Fatal ''SERVICE_TOKEN_SECRET not set and DEV_MODE!=1; refusing to start in production mode'')"

section \<open>base64 round trip\<close>

lemma index_of_nth: "distinct xs \<Longrightarrow> n < length xs \<Longrightarrow> index_of (xs ! n) xs = Some n"
  by (induction xs arbitrary: n) (auto simp: nth_Cons split: nat.splits)

lemma b64_val_char [simp]: "n < 64 \<Longrightarrow> b64_val (b64_char n) = Some n"
proof -
  have d: "distinct b64_alphabet" and l: "length b64_alphabet = 64" by (code_simp, code_simp)
  assume "n < 64"
  with d l show "b64_val (b64_char n) = Some n"
    by (simp add: b64_val_def b64_char_def index_of_nth)
qed

lemma b64_char_not:
  assumes "n < 64" shows "b64_char n \<noteq> CHR ''.''" "b64_char n \<noteq> CHR 0x0A" "b64_char n \<noteq> CHR 0x0D"
proof -
  have "b64_val (CHR ''.'') = None" "b64_val (CHR 0x0A) = None" "b64_val (CHR 0x0D) = None"
    by (code_simp, code_simp, code_simp)
  with b64_val_char [OF assms] show "b64_char n \<noteq> CHR ''.''" "b64_char n \<noteq> CHR 0x0A" "b64_char n \<noteq> CHR 0x0D"
    by (metis option.distinct(1))+
qed

lemma sextets_bound: "\<forall>b \<in> set bs. b < 256 \<Longrightarrow> s \<in> set (sextets bs) \<Longrightarrow> s < 64"
proof (induction bs rule: sextets.induct)
  case (1 a b c rest)
  have "a div 4 < 64" "(a mod 4) * 16 + b div 16 < 64" "(b mod 16) * 4 + c div 64 < 64" "c mod 64 < 64"
    using 1(2) by (auto simp: less_mult_imp_div_less)
  with 1 show ?case by auto
next
  case (2 a b)
  have "a div 4 < 64" "(a mod 4) * 16 + b div 16 < 64" "(b mod 16) * 4 < 64"
    using 2(1) by (auto simp: less_mult_imp_div_less)
  with 2 show ?case by auto
next
  case (3 a)
  have "a div 4 < 64" "(a mod 4) * 16 < 64" using 3(1) by (auto simp: less_mult_imp_div_less)
  with 3 show ?case by auto
qed simp

lemma octets_sextets: "\<forall>b \<in> set bs. b < 256 \<Longrightarrow> octets (sextets bs) = bs"
proof (induction bs rule: sextets.induct)
  case (1 a b c rest)
  have "((a mod 4) * 16 + b div 16) div 16 = a mod 4" "((a mod 4) * 16 + b div 16) mod 16 = b div 16"
    "((b mod 16) * 4 + c div 64) div 4 = b mod 16" "((b mod 16) * 4 + c div 64) mod 4 = c div 64"
    using 1(2) by (simp_all add: less_mult_imp_div_less)
  with 1 show ?case by simp
next
  case (2 a b)
  have "((a mod 4) * 16 + b div 16) div 16 = a mod 4" "((a mod 4) * 16 + b div 16) mod 16 = b div 16"
    using 2 by (simp_all add: less_mult_imp_div_less)
  then show ?case by simp
qed simp_all

lemma sextets_length: "length (sextets bs) mod 4 \<noteq> Suc 0"
  by (induction bs rule: sextets.induct) simp_all

lemma b64_scan_chars: "\<forall>v \<in> set vs. v < 64 \<Longrightarrow> b64_scan k (map b64_char vs) = Inr vs"
  by (induction vs arbitrary: k) (simp_all add: b64_char_not)

lemma char_bytes: "\<forall>b \<in> set (map of_char s :: nat list). b < 256"
  by (induction s) simp_all

lemma decode_encode [simp]: "token_decode (token_encode bs) = Inr bs"
proof -
  let ?ss = "sextets (map of_char bs)"
  have "b64_scan 0 (map b64_char ?ss) = Inr ?ss"
    by (rule b64_scan_chars) (use sextets_bound [OF char_bytes] in blast)
  then show ?thesis
    by (simp add: token_decode_def token_encode_def sextets_length octets_sextets [OF char_bytes] comp_def)
qed

lemma encode_no_dot [simp]: "CHR ''.'' \<notin> set (token_encode bs)"
  using sextets_bound [OF char_bytes, of _ bs] b64_char_not(1) by (force simp: token_encode_def)

section \<open>Splitting at dots\<close>

lemma Split_ne: "strings_Split sep s \<noteq> []"
  by (cases s) (auto split: list.split)

lemma Split_no_sep: "sep \<notin> set p \<Longrightarrow> strings_Split sep p = [p]"
  by (induction p) auto

lemma Split_append:
  "sep \<notin> set p \<Longrightarrow> strings_Split sep (p @ sep # s) = p # strings_Split sep s"
  by (induction p) auto

lemma Split_parts:
  "strings_Split sep s = ps \<Longrightarrow>
   (\<forall>p \<in> set ps. sep \<notin> set p) \<and> s = concat (map (\<lambda>p. p @ [sep]) (butlast ps)) @ last ps"
proof (induction s arbitrary: ps)
  case (Cons c cs)
  obtain q qs where q: "strings_Split sep cs = q # qs" using Split_ne [of sep cs] by (cases "strings_Split sep cs") auto
  with Cons.IH [OF q] Cons.prems show ?case by (auto split: if_splits)
qed auto

lemma Split_three:
  "strings_Split (CHR ''.'') token = [p0, p1, p2] \<longleftrightarrow>
   token = p0 @ ''.'' @ p1 @ ''.'' @ p2 \<and>
   CHR ''.'' \<notin> set p0 \<and> CHR ''.'' \<notin> set p1 \<and> CHR ''.'' \<notin> set p2"
  using Split_parts [of "CHR ''.''" token "[p0, p1, p2]"]
  by (auto simp: Split_append Split_no_sep)

section \<open>What the middleware lets through\<close>

text \<open>The claims of a token that is well-formed and signed with the secret.\<close>

lemma verify_Inr_iff:
  "token_verify mac jc token secret = Inr c \<longleftrightarrow>
   (\<exists>p0 p1 body. token = p0 @ ''.'' @ p1 @ ''.'' @ token_encode (mac secret (p0 @ ''.'' @ p1)) \<and>
      CHR ''.'' \<notin> set p0 \<and> CHR ''.'' \<notin> set p1 \<and> token_decode p1 = Inr body \<and> jcParse jc body = Inr c)"
proof -
  have "token_verify mac jc token secret = Inr c \<longleftrightarrow>
      (\<exists>p0 p1 p2 body. strings_Split (CHR ''.'') token = [p0, p1, p2] \<and>
         token_encode (mac secret (p0 @ ''.'' @ p1)) = p2 \<and> token_decode p1 = Inr body \<and> jcParse jc body = Inr c)"
    by (auto simp: token_verify_def split: list.splits sum.splits)
  also have "\<dots> \<longleftrightarrow> (\<exists>p0 p1 body. token = p0 @ ''.'' @ p1 @ ''.'' @ token_encode (mac secret (p0 @ ''.'' @ p1)) \<and>
      CHR ''.'' \<notin> set p0 \<and> CHR ''.'' \<notin> set p1 \<and> token_decode p1 = Inr body \<and> jcParse jc body = Inr c)"
    unfolding Split_three using encode_no_dot by metis
  finally show ?thesis .
qed

text \<open>
  With authentication enabled, a request outside the three skipped paths is handed to the
  service exactly when its header is \<open>Bearer\<close> and a token of three parts, whose third part is
  the encoded HMAC, under the service secret, of the first two as they are written, whose second
  part decodes to claims, and whose expiry is not in the past. The header part is not read.
\<close>

lemma middleware_passes_iff:
  assumes "\<not> skipPaths path"
  shows "Middleware mac jc secret False now path auth = Passed \<longleftrightarrow>
    (\<exists>p0 p1 body c. auth = ''Bearer '' @ p0 @ ''.'' @ p1 @ ''.'' @ token_encode (mac secret (p0 @ ''.'' @ p1)) \<and>
       CHR ''.'' \<notin> set p0 \<and> CHR ''.'' \<notin> set p1 \<and> token_decode p1 = Inr body \<and> jcParse jc body = Inr c \<and>
       sint (time_UnixSec now) \<le> sint (clExp c))"
proof -
  have "Middleware mac jc secret False now path auth = Passed \<longleftrightarrow>
      (\<exists>token c. auth = ''Bearer '' @ token \<and> token_verify mac jc token secret = Inr c \<and>
         sint (time_UnixSec now) \<le> sint (clExp c))"
    using assms
    by (auto simp: Middleware_def strings_HasPrefix_def strings_TrimPrefix_def prefix_def not_less
        split: sum.splits)
  then show ?thesis unfolding verify_Inr_iff by blast
qed

text \<open>A codec for the instances below: the two instants in decimal, then the subject.\<close>

definition cut_slash :: "bytes \<Rightarrow> bytes \<times> bytes" where
  "cut_slash b = (takeWhile (\<lambda>c. c \<noteq> CHR ''/'') b, tl (dropWhile (\<lambda>c. c \<noteq> CHR ''/'') b))"

definition demo_jwt :: jwt_codec where
  "demo_jwt =
     \<lparr>jcHeader = (\<lambda>h. Inr ''h''),
      jcClaims = (\<lambda>c. Inr (strconv_FormatInt (clExp c) @ ''/'' @ strconv_FormatInt (clIat c) @ ''/'' @ clSub c)),
      jcParse = (\<lambda>b. case cut_slash b of (e, b1) \<Rightarrow> case cut_slash b1 of (i, s) \<Rightarrow>
        (case (strconv_ParseInt e, strconv_ParseInt i) of
           (Some ex, Some ia) \<Rightarrow> Inr \<lparr>clSub = s, clIat = ia, clExp = ex\<rparr>
         | _ \<Rightarrow> Inl (ErrorString ''bad'')))\<rparr>"

lemma FormatInt_no_slash: "c \<in> set (strconv_FormatInt n) \<Longrightarrow> c \<noteq> CHR ''/''"
proof -
  have "c \<noteq> CHR ''/''" if "c \<in> set (dec_digits k)" for k
    using list_all_dec_digits [of k] that by (auto simp: list_all_iff is_dec_digit_def)
  then show "c \<in> set (strconv_FormatInt n) \<Longrightarrow> c \<noteq> CHR ''/''"
    by (auto simp: strconv_FormatInt_def split: if_splits)
qed

lemma cut_slash_FormatInt: "cut_slash (strconv_FormatInt n @ CHR ''/'' # s) = (strconv_FormatInt n, s)"
  using FormatInt_no_slash by (auto simp: cut_slash_def takeWhile_append dropWhile_append)

lemma demo_jwt_codec: "jcClaims demo_jwt c = Inr b \<Longrightarrow> jcParse demo_jwt b = Inr c"
  by (auto simp: demo_jwt_def cut_slash_FormatInt ParseInt_FormatInt)

lemma middleware_passes_iff_witness:
  "Middleware (\<lambda>k m. k @ m) demo_jwt ''s'' False 0 ''/v1/payments''
     (''Bearer h.'' @ token_encode ''60/0/svc'' @ ''.'' @ token_encode (''s'' @ ''h.'' @ token_encode ''60/0/svc'')) = Passed"
proof -
  have p: "jcParse demo_jwt ''60/0/svc'' = Inr \<lparr>clSub = ''svc'', clIat = 0, clExp = 60\<rparr>" by code_simp
  have "\<not> skipPaths ''/v1/payments''" by (simp add: skipPaths_def)
  then show ?thesis
    by (rule iffD2 [OF middleware_passes_iff]; intro exI [of _ "''h''"] exI [of _ "token_encode ''60/0/svc''"]
        exI [of _ "''60/0/svc''"] exI [of _ "\<lparr>clSub = ''svc'', clIat = 0, clExp = 60\<rparr>"])
       (simp add: p time_UnixSec_def)
qed

text \<open>
  C26. Tokens round trip: a token that \<open>Issue\<close> mints is verified back to its own claims, and the
  middleware of the service that shares the secret accepts it until the second in which it
  expires, one day later, and refuses it afterwards as expired.
\<close>

theorem issued_token_accepted:
  assumes "Issue mac jc t0 name secret = Inr token"
    and codec: "\<And>c b. jcClaims jc c = Inr b \<Longrightarrow> jcParse jc b = Inr c"
    and range: "min_int64 \<le> t0 div 1000000000" "t0 div 1000000000 + 86400 \<le> max_int64"
      "min_int64 \<le> t div 1000000000" "t div 1000000000 \<le> max_int64"
  shows "(\<exists>c. token_verify mac jc token secret = Inr c \<and> clSub c = name) \<and>
    Middleware mac jc secret False t ''/v1/payments'' (''Bearer '' @ token) =
      (if t div 1000000000 \<le> t0 div 1000000000 + 86400 then Passed else Unauthorized ''token expired'')"
proof -
  let ?c = "\<lparr>clSub = name, clIat = time_UnixSec t0, clExp = time_UnixSec (time_Add t0 token_life)\<rparr>"
  obtain hb cb where h: "jcHeader jc [(''alg'', ''HS256''), (''typ'', ''JWT'')] = Inr hb" "jcClaims jc ?c = Inr cb"
    "token = token_encode hb @ ''.'' @ token_encode cb @ ''.'' @ token_encode (mac secret (token_encode hb @ ''.'' @ token_encode cb))"
    using assms(1) by (auto simp: Issue_def token_sign_def Let_def split: if_splits sum.splits)
  have v: "token_verify mac jc token secret = Inr ?c"
    unfolding verify_Inr_iff using h codec [OF h(2)]
    by (intro exI [of _ "token_encode hb"] exI [of _ "token_encode cb"] exI [of _ cb]) simp
  have add: "time_Add t0 token_life = t0 + 86400000000000" by (simp add: time_Add_def token_life_def)
  have div: "(t0 + 86400000000000) div 1000000000 = t0 div 1000000000 + 86400" by simp
  have "sint (time_UnixSec (time_Add t0 token_life)) = t0 div 1000000000 + 86400"
    "sint (time_UnixSec t) = t div 1000000000"
    using range unfolding add time_UnixSec_def div
    by (simp_all add: sint_of_int_int64 del: of_int_add)
  with v show ?thesis
    by (auto simp: Middleware_def skipPaths_def strings_HasPrefix_def strings_TrimPrefix_def not_less)
qed

theorem issued_token_accepted_witness:
  "\<exists>token. Issue (\<lambda>k m. k @ m) demo_jwt 0 ''svc'' ''s'' = Inr token \<and>
     Middleware (\<lambda>k m. k @ m) demo_jwt ''s'' False 1000000000 ''/v1/payments'' (''Bearer '' @ token) = Passed \<and>
     Middleware (\<lambda>k m. k @ m) demo_jwt ''s'' False 86401000000000 ''/v1/payments'' (''Bearer '' @ token) =
       Unauthorized ''token expired''"
proof -
  obtain token where t: "Issue (\<lambda>k m. k @ m) demo_jwt 0 ''svc'' ''s'' = Inr token"
    by (simp add: Issue_def token_sign_def demo_jwt_def Let_def)
  from issued_token_accepted [OF t demo_jwt_codec, where t = 1000000000]
    issued_token_accepted [OF t demo_jwt_codec, where t = 86401000000000] t
  show ?thesis by (simp add: min_int64_def max_int64_def)
qed

end
