(* ===== verification/Logging.thy ===== *)
theory Logging
  imports Rail
begin

text \<open>
  The structured logger, \<open>internal/logging/logging.go\<close>. A logger is a value with its writer, its
  threshold and its fields; what has been written to the process's standard output is a list of
  lines that \<open>Log\<close> extends. The JSON encoder and the time format are parameters.
\<close>

section \<open>Levels\<close>

type_synonym level = string

abbreviation LevelDebug :: level where "LevelDebug \<equiv> ''debug''"
abbreviation LevelInfo :: level where "LevelInfo \<equiv> ''info''"
abbreviation LevelWarn :: level where "LevelWarn \<equiv> ''warn''"
abbreviation LevelError :: level where "LevelError \<equiv> ''error''"

text \<open>A level that is not in the map has the zero value.\<close>

definition levelOrder :: "level \<Rightarrow> nat" where
  "levelOrder l =
     (if l = LevelInfo then 1 else if l = LevelWarn then 2 else if l = LevelError then 3 else 0)"

text \<open>
  \<open>strings.ToLower\<close> on ASCII text. In the comparisons below a letter outside ASCII whose lower
  case is an ASCII letter (the Kelvin sign, the dotted capital I) makes no difference to
  \<open>ParseLevel\<close>: the only level it could spell is the default.
\<close>

definition strings_ToLower :: "string \<Rightarrow> string" where
  "strings_ToLower s = map char_lower s"

definition ParseLevel :: "string \<Rightarrow> level" where
  "ParseLevel s =
     (let l = strings_ToLower s in
      if l \<in> {LevelDebug, LevelInfo, LevelWarn, LevelError} then l else LevelInfo)"

section \<open>The logger\<close>

datatype 'v log_value = LText string | LField 'v

datatype writer = Discard | Stdout

record 'v logger =
  lgWriter :: writer
  lgLevel :: level
  lgFields :: "string \<rightharpoonup> 'v log_value"

definition NewLogger :: "writer option \<Rightarrow> level \<Rightarrow> 'v logger" where
  "NewLogger w level =
     \<lparr>lgWriter = (case w of None \<Rightarrow> Discard | Some x \<Rightarrow> x), lgLevel = level, lgFields = Map.empty\<rparr>"

definition NewDefault :: "(string \<Rightarrow> string) \<Rightarrow> 'v logger" where
  "NewDefault environ = NewLogger (Some Stdout) (ParseLevel (environ ''LOG_LEVEL''))"

definition With :: "(string \<rightharpoonup> 'v log_value) \<Rightarrow> 'v logger \<Rightarrow> 'v logger" where
  "With flds l = l\<lparr>lgFields := lgFields l ++ flds\<rparr>"

text \<open>
  \<open>marshal\<close> is \<open>json.Marshal\<close> of an entry (the empty text on an error, which the code ignores),
  \<open>stamp\<close> the formatted clock reading. The result is what is on standard output afterwards.
\<close>

definition log_entry ::
  "string \<Rightarrow> level \<Rightarrow> string \<Rightarrow> (string \<rightharpoonup> 'v log_value) \<Rightarrow> 'v logger \<Rightarrow> (string \<rightharpoonup> 'v log_value)" where
  "log_entry stamp level msg flds l =
     (lgFields l ++ flds)(''level'' \<mapsto> LText level, ''msg'' \<mapsto> LText msg, ''ts'' \<mapsto> LText stamp)"

definition Log ::
  "((string \<rightharpoonup> 'v log_value) \<Rightarrow> bytes) \<Rightarrow> string \<Rightarrow> level \<Rightarrow> string \<Rightarrow> (string \<rightharpoonup> 'v log_value)
     \<Rightarrow> 'v logger \<Rightarrow> bytes list \<Rightarrow> bytes list" where
  "Log marshal stamp level msg flds l out =
     (if levelOrder level < levelOrder (lgLevel l) then out
      else
        let b = marshal (log_entry stamp level msg flds l) in
        case lgWriter l of Discard \<Rightarrow> out | Stdout \<Rightarrow> out @ [b @ [CHR 0x0A]])"

definition log_Debug ::
  "((string \<rightharpoonup> 'v log_value) \<Rightarrow> bytes) \<Rightarrow> string \<Rightarrow> string \<Rightarrow> (string \<rightharpoonup> 'v log_value)
     \<Rightarrow> 'v logger \<Rightarrow> bytes list \<Rightarrow> bytes list" where
  "log_Debug marshal stamp msg flds l out = Log marshal stamp LevelDebug msg flds l out"

definition log_Info ::
  "((string \<rightharpoonup> 'v log_value) \<Rightarrow> bytes) \<Rightarrow> string \<Rightarrow> string \<Rightarrow> (string \<rightharpoonup> 'v log_value)
     \<Rightarrow> 'v logger \<Rightarrow> bytes list \<Rightarrow> bytes list" where
  "log_Info marshal stamp msg flds l out = Log marshal stamp LevelInfo msg flds l out"

definition log_Warn ::
  "((string \<rightharpoonup> 'v log_value) \<Rightarrow> bytes) \<Rightarrow> string \<Rightarrow> string \<Rightarrow> (string \<rightharpoonup> 'v log_value)
     \<Rightarrow> 'v logger \<Rightarrow> bytes list \<Rightarrow> bytes list" where
  "log_Warn marshal stamp msg flds l out = Log marshal stamp LevelWarn msg flds l out"

definition log_Error ::
  "((string \<rightharpoonup> 'v log_value) \<Rightarrow> bytes) \<Rightarrow> string \<Rightarrow> string \<Rightarrow> (string \<rightharpoonup> 'v log_value)
     \<Rightarrow> 'v logger \<Rightarrow> bytes list \<Rightarrow> bytes list" where
  "log_Error marshal stamp msg flds l out = Log marshal stamp LevelError msg flds l out"

section \<open>Redaction\<close>

definition redactedKeys :: "string list" where
  "redactedKeys = [''pan'', ''card_number'', ''card_token'', ''track'', ''cvv'', ''cvc'',
     ''webhook_secret'', ''authorization'']"

text \<open>For a key of ASCII characters.\<close>

definition Redact :: "string \<Rightarrow> string" where
  "Redact key = (if strings_ToLower key \<in> set redactedKeys then ''[redacted]'' else key)"

section \<open>Lemmas\<close>

lemma ParseLevel_range: "ParseLevel s \<in> {LevelDebug, LevelInfo, LevelWarn, LevelError}"
  by (simp add: ParseLevel_def Let_def)

lemma With_With: "With g (With f l) = With (f ++ g) l"
  by (simp add: With_def)

lemma log_entry_With: "log_entry stamp lv msg f (With g l) = log_entry stamp lv msg (g ++ f) l"
  by (simp add: log_entry_def With_def)

text \<open>
  The logger: below its threshold nothing is written; at or above it exactly one line is
  written, whose entry has the level, message and time of the call, whatever the fields say, the
  fields of the call before those of \<open>With\<close>, and those before the ones of the parent logger.
\<close>

lemma log_writes:
  assumes "lgWriter l = Stdout"
  shows "Log marshal stamp lv msg flds (With g l) out =
    (if levelOrder lv < levelOrder (lgLevel l) then out
     else out @ [marshal (\<lambda>k.
       if k = ''ts'' then Some (LText stamp) else if k = ''msg'' then Some (LText msg)
       else if k = ''level'' then Some (LText lv)
       else (case flds k of Some v \<Rightarrow> Some v | None \<Rightarrow>
              (case g k of Some v \<Rightarrow> Some v | None \<Rightarrow> lgFields l k))) @ [CHR 0x0A]])"
proof -
  have "log_entry stamp lv msg flds (With g l) = (\<lambda>k.
       if k = ''ts'' then Some (LText stamp) else if k = ''msg'' then Some (LText msg)
       else if k = ''level'' then Some (LText lv)
       else (case flds k of Some v \<Rightarrow> Some v | None \<Rightarrow>
              (case g k of Some v \<Rightarrow> Some v | None \<Rightarrow> lgFields l k)))"
    by (auto simp: log_entry_def With_def map_add_def fun_eq_iff split: option.split)
  with assms show ?thesis by (simp add: Log_def With_def Let_def)
qed

lemma log_writes_witness:
  "Log (\<lambda>e. case e ''msg'' of Some (LText m) \<Rightarrow> m | _ \<Rightarrow> '''') ''t'' LevelWarn ''queue full''
     [''msg'' \<mapsto> LField ()] (With [''msg'' \<mapsto> LText ''x''] (NewLogger (Some Stdout) (ParseLevel ''INFO''))) [] =
   [''queue full'' @ [CHR 0x0A]]"
proof -
  have "lgWriter (NewLogger (Some Stdout) (ParseLevel ''INFO'') :: unit logger) = Stdout"
    "lgLevel (NewLogger (Some Stdout) (ParseLevel ''INFO'') :: unit logger) = LevelInfo"
    by (simp add: NewLogger_def, simp add: NewLogger_def, code_simp)
  then show ?thesis by (simp add: log_writes levelOrder_def)
qed

end
