(* ===== verification/Config.thy ===== *)
theory Config
  imports Service Authtoken Logging
begin

text \<open>
  Configuration: \<open>internal/config/config.go\<close>, the mutual-TLS material of \<open>internal/mtls/mtls.go\<close>,
  and \<open>Service.ApplyConfig\<close> of \<open>internal/api/handlers.go\<close>. The environment of the process is a
  function from names to values, the empty string for a variable that is not set. A call of
  \<open>log.Fatal\<close> is \<open>Fatal\<close>.
\<close>

section \<open>time.ParseDuration\<close>

text \<open>
  The parser of the standard library, \<open>[-+]?([0-9]*(\.[0-9]*)?[a-z]+)+\<close>. Its \<open>uint64\<close> sums are
  naturals; only the sum over the parts can reach \<open>2^64\<close>, and wraps there. \<open>frac f unit scale\<close> is the
  floating-point product \<open>uint64(float64(f) * (float64(unit) / scale))\<close>.
\<close>

definition dec_digit :: "char \<Rightarrow> nat" where
  "dec_digit c = of_char c - 48"

fun leadingInt :: "nat \<Rightarrow> string \<Rightarrow> (nat \<times> string) option" where
  "leadingInt x [] = Some (x, [])"
| "leadingInt x (c # cs) =
     (if \<not> is_dec_digit c then Some (x, c # cs)
      else if 2 ^ 63 div 10 < x then None
      else
        let y = x * 10 + dec_digit c in
        if 2 ^ 63 < y then None else leadingInt y cs)"

fun leadingFraction :: "nat \<Rightarrow> nat \<Rightarrow> bool \<Rightarrow> string \<Rightarrow> nat \<times> nat \<times> string" where
  "leadingFraction x scale overflow [] = (x, scale, [])"
| "leadingFraction x scale overflow (c # cs) =
     (if \<not> is_dec_digit c then (x, scale, c # cs)
      else if overflow then leadingFraction x scale True cs
      else if (2 ^ 63 - 1) div 10 < x then leadingFraction x scale True cs
      else
        let y = x * 10 + dec_digit c in
        if 2 ^ 63 < y then leadingFraction x scale True cs
        else leadingFraction y (scale * 10) False cs)"

definition unitMap :: "string \<Rightarrow> nat option" where
  "unitMap u =
     (if u = ''ns'' then Some 1
      else if u = ''us'' \<or> u = [CHR 0xC2, CHR 0xB5, CHR ''s''] \<or> u = [CHR 0xCE, CHR 0xBC, CHR ''s'']
           then Some (10 ^ 3)
      else if u = ''ms'' then Some (10 ^ 6)
      else if u = ''s'' then Some (10 ^ 9)
      else if u = ''m'' then Some (60 * 10 ^ 9)
      else if u = ''h'' then Some (3600 * 10 ^ 9)
      else None)"

definition unit_char :: "char \<Rightarrow> bool" where
  "unit_char c = (c \<noteq> CHR ''.'' \<and> \<not> is_dec_digit c)"

text \<open>One round of the loop: the value of the next part, and what is left of the text.\<close>

definition duration_part :: "(nat \<Rightarrow> nat \<Rightarrow> nat \<Rightarrow> nat) \<Rightarrow> string \<Rightarrow> (nat \<times> string) option" where
  "duration_part frac s =
     (case leadingInt 0 s of
        None \<Rightarrow> None
      | Some (v, s1) \<Rightarrow>
          (let pre = length s1 \<noteq> length s;
               (f, scale, s2, post) =
                 (if prefix ''.'' s1
                  then (case leadingFraction 0 1 False (tl s1) of
                          (f, scale, s2) \<Rightarrow> (f, scale, s2, length s2 \<noteq> length (tl s1)))
                  else (0, 1, s1, False));
               u = takeWhile unit_char s2; rest = dropWhile unit_char s2
           in if \<not> pre \<and> \<not> post then None
              else if u = '''' then None
              else
                (case unitMap u of
                   None \<Rightarrow> None
                 | Some unit \<Rightarrow>
                     (if 2 ^ 63 div unit < v then None
                      else
                        let v' = v * unit + (if 0 < f then frac f unit scale else 0) in
                        if 0 < f \<and> 2 ^ 63 < v' then None else Some (v', rest)))))"

lemma leadingInt_length: "leadingInt x s = Some (v, r) \<Longrightarrow> length r \<le> length s"
  by (induction x s rule: leadingInt.induct) (auto simp: Let_def split: if_splits)

lemma leadingFraction_length: "leadingFraction x sc ov s = (f, sc', r) \<Longrightarrow> length r \<le> length s"
  by (induction x sc ov s rule: leadingFraction.induct) (auto simp: Let_def split: if_splits)

lemma dropWhile_shorter: "takeWhile P s \<noteq> [] \<Longrightarrow> length (dropWhile P s) < length s"
  by (cases s) (auto simp: length_dropWhile_le le_imp_less_Suc split: if_splits)

lemma duration_part_length:
  assumes "duration_part frac s = Some (v, rest)" shows "length rest < length s"
proof -
  obtain v0 s1 where s1: "leadingInt 0 s = Some (v0, s1)"
    using assms by (auto simp: duration_part_def split: option.splits)
  obtain f scale s2 post where s2: "(if prefix ''.'' s1
      then (case leadingFraction 0 1 False (tl s1) of
              (f, scale, s2) \<Rightarrow> (f, scale, s2, length s2 \<noteq> length (tl s1)))
      else (0, 1, s1, False)) = (f, scale, s2, post)" by (meson prod_cases4)
  then have "length s2 \<le> length s1"
    by (auto split: if_splits prod.splits dest!: leadingFraction_length)
  moreover have "length s1 \<le> length s" by (rule leadingInt_length [OF s1])
  moreover have "takeWhile unit_char s2 \<noteq> [] \<and> rest = dropWhile unit_char s2"
    using assms s1 s2 by (auto simp: duration_part_def Let_def split: option.splits if_splits)
  ultimately show ?thesis using dropWhile_shorter [of unit_char s2] by force
qed

function duration_loop :: "(nat \<Rightarrow> nat \<Rightarrow> nat \<Rightarrow> nat) \<Rightarrow> nat \<Rightarrow> string \<Rightarrow> nat option" where
  "duration_loop frac d s =
     (if s = [] then Some d
      else
        (case duration_part frac s of
           None \<Rightarrow> None
         | Some (v, rest) \<Rightarrow>
             (let d' = (d + v) mod 2 ^ 64 in
              if 2 ^ 63 < d' then None else duration_loop frac d' rest)))"
  by pat_completeness auto
termination
  by (relation "measure (\<lambda>(frac, d, s). length s)") (auto simp: duration_part_length)

declare duration_loop.simps [simp del]

definition time_ParseDuration :: "(nat \<Rightarrow> nat \<Rightarrow> nat \<Rightarrow> nat) \<Rightarrow> string \<Rightarrow> duration option" where
  "time_ParseDuration frac orig =
     (let neg = prefix ''-'' orig; plus = prefix ''+'' orig;
          s = (if neg \<or> plus then tl orig else orig)
      in if s = ''0'' then Some 0
         else if s = '''' then None
         else
           (case duration_loop frac 0 s of
              None \<Rightarrow> None
            | Some d \<Rightarrow>
                (if neg then Some (- of_nat d)
                 else if 2 ^ 63 - 1 < d then None else Some (of_nat d))))"


section \<open>Environment variables\<close>

abbreviation seconds :: "int64 \<Rightarrow> duration" where
  "seconds n \<equiv> n * 1000000000"

definition DevMode :: "(string \<Rightarrow> string) \<Rightarrow> bool" where
  "DevMode environ = (environ ''DEV_MODE'' = ''1'')"

definition MustEnv :: "(string \<Rightarrow> string) \<Rightarrow> string \<Rightarrow> string startup" where
  "MustEnv environ name =
     (let v = environ name in
      if v \<noteq> '''' then Started v
      else if DevMode environ then Started ''''
      else Fatal (''required env var '' @ name @
             '' not set and DEV_MODE!=1; refusing to start in production mode''))"

definition MustEnvOrFatal :: "(string \<Rightarrow> string) \<Rightarrow> string \<Rightarrow> string \<Rightarrow> string startup" where
  "MustEnvOrFatal environ name msg =
     (let v = environ name in
      if v \<noteq> '''' then Started v
      else if DevMode environ then Started ''''
      else Fatal (if msg = '''' then ''required env var '' @ name @
             '' not set and DEV_MODE!=1; refusing to start in production mode'' else msg))"

definition getenv :: "(string \<Rightarrow> string) \<Rightarrow> string \<Rightarrow> string \<Rightarrow> string" where
  "getenv environ key d = (let v = environ key in if v \<noteq> '''' then v else d)"

definition getduration ::
  "(nat \<Rightarrow> nat \<Rightarrow> nat \<Rightarrow> nat) \<Rightarrow> (string \<Rightarrow> string) \<Rightarrow> string \<Rightarrow> duration \<Rightarrow> duration" where
  "getduration frac environ key d =
     (let v = environ key in
      if v = '''' then d
      else
        (case time_ParseDuration frac v of
           Some x \<Rightarrow> x
         | None \<Rightarrow> (case strconv_ParseInt v of None \<Rightarrow> d | Some n \<Rightarrow> seconds n)))"

section \<open>Mutual TLS\<close>

record mtls_config =
  mtCertFile :: string
  mtKeyFile :: string
  mtCAFile :: string

definition Enabled :: "mtls_config \<Rightarrow> bool" where
  "Enabled c = (mtCertFile c \<noteq> '''' \<and> mtKeyFile c \<noteq> '''')"

text \<open>
  The client: its timeout and, for mutual TLS, the key pair and the pool of authorities
  (\<open>None\<close> for the ones of the host). Loading a key pair, reading a file and parsing a bundle of
  certificates are parameters.
\<close>

record ('cert, 'pool) http_client =
  hcTimeout :: duration
  hcTLS :: "('cert \<times> 'pool option) option"

definition HTTPClient ::
  "(string \<Rightarrow> string \<Rightarrow> error + 'cert) \<Rightarrow> (string \<Rightarrow> error + bytes) \<Rightarrow> (bytes \<Rightarrow> 'pool option)
     \<Rightarrow> mtls_config \<Rightarrow> error + ('cert, 'pool) http_client" where
  "HTTPClient loadPair readFile parsePEM c =
     (if \<not> Enabled c then Inr \<lparr>hcTimeout = seconds 10, hcTLS = None\<rparr>
      else
        (case loadPair (mtCertFile c) (mtKeyFile c) of
           Inl err \<Rightarrow> Inl err
         | Inr cert \<Rightarrow>
             (if mtCAFile c = '''' then Inr \<lparr>hcTimeout = seconds 10, hcTLS = Some (cert, None)\<rparr>
              else
                (case readFile (mtCAFile c) of
                   Inl err \<Rightarrow> Inl err
                 | Inr caPEM \<Rightarrow>
                     (case parsePEM caPEM of
                        None \<Rightarrow> Inl (ErrorString ''mtls: failed to parse CA bundle'')
                      | Some pool \<Rightarrow>
                          Inr \<lparr>hcTimeout = seconds 10, hcTLS = Some (cert, Some pool)\<rparr>)))))"

section \<open>The configuration\<close>

record config =
  cfPort :: string
  cfRailURLs :: "rail \<rightharpoonup> string"
  cfFraudURL :: string
  cfThreeDSMPIURL :: string
  cfWebhookSecrets :: "rail \<rightharpoonup> string"
  cfWebhookReplayWindow :: duration
  cfIdempotencyKeyTTL :: duration
  cfLogLevel :: string
  cfOTLPEndpoint :: string
  cfMTLS :: mtls_config

definition FromEnv :: "(nat \<Rightarrow> nat \<Rightarrow> nat \<Rightarrow> nat) \<Rightarrow> (string \<Rightarrow> string) \<Rightarrow> config" where
  "FromEnv frac environ =
     \<lparr>cfPort = getenv environ ''PORT'' ''8080'',
      cfRailURLs =
        [RailCard \<mapsto> environ ''RAIL_CARD_URL'', RailACH \<mapsto> environ ''RAIL_ACH_URL'',
         RailSEPA \<mapsto> environ ''RAIL_SEPA_URL'', RailPIX \<mapsto> environ ''RAIL_PIX_URL'',
         RailUPI \<mapsto> environ ''RAIL_UPI_URL''],
      cfFraudURL = environ ''FRAUD_URL'',
      cfThreeDSMPIURL = environ ''THREE_DS_MPI_URL'',
      cfWebhookSecrets =
        [RailCard \<mapsto> environ ''WEBHOOK_SECRET_CARD'', RailACH \<mapsto> environ ''WEBHOOK_SECRET_ACH'',
         RailSEPA \<mapsto> environ ''WEBHOOK_SECRET_SEPA'', RailPIX \<mapsto> environ ''WEBHOOK_SECRET_PIX'',
         RailUPI \<mapsto> environ ''WEBHOOK_SECRET_UPI''],
      cfWebhookReplayWindow = getduration frac environ ''WEBHOOK_REPLAY_WINDOW'' (seconds 300),
      cfIdempotencyKeyTTL = getduration frac environ ''IDEMPOTENCY_KEY_TTL'' (seconds 86400),
      cfLogLevel = strings_ToLower (getenv environ ''LOG_LEVEL'' ''info''),
      cfOTLPEndpoint = environ ''OTEL_EXPORTER_OTLP_ENDPOINT'',
      cfMTLS = \<lparr>mtCertFile = environ ''MTLS_CERT_FILE'', mtKeyFile = environ ''MTLS_KEY_FILE'',
                mtCAFile = environ ''MTLS_CA_FILE''\<rparr>\<rparr>"

text \<open>A lookup of a Go map of strings: the empty string for a key that is absent.\<close>

definition lookup_str :: "('k \<rightharpoonup> string) \<Rightarrow> 'k \<Rightarrow> string" where
  "lookup_str m k = (case m k of None \<Rightarrow> '''' | Some v \<Rightarrow> v)"

definition EnabledRails :: "config \<Rightarrow> rail list" where
  "EnabledRails c =
     filter (\<lambda>r. lookup_str (cfRailURLs c) r \<noteq> '''') [RailCard, RailACH, RailSEPA, RailPIX, RailUPI]"

definition WebhookSecret :: "(string \<Rightarrow> string) \<Rightarrow> config \<Rightarrow> rail \<Rightarrow> string" where
  "WebhookSecret environ c r =
     (let s = lookup_str (cfWebhookSecrets c) r in
      if s \<noteq> '''' then s else environ ''WEBHOOK_SECRET'')"

text \<open>\<open>ApplyConfig\<close>, on the service and its logger.\<close>

definition config_keys :: "config \<Rightarrow> (rail \<rightharpoonup> bytes)" where
  "config_keys c = (\<lambda>r. case cfWebhookSecrets c r of
     None \<Rightarrow> None | Some secret \<Rightarrow> (if secret = '''' then None else Some secret))"

definition ApplyConfig ::
  "config \<Rightarrow> ('s, 'i) service \<times> 'v logger \<Rightarrow> ('s, 'i) service \<times> 'v logger" where
  "ApplyConfig c sl =
     (case sl of (svc, lg) \<Rightarrow>
        (let keys = config_keys c;
             svc1 = (if dom keys = {} then svc else svc\<lparr>svWebhookKeys := keys\<rparr>)
         in (svc1\<lparr>svReplayWindow := cfWebhookReplayWindow c\<rparr>,
             (if cfLogLevel c \<noteq> '''' then NewLogger (Some Discard) (ParseLevel (cfLogLevel c)) else lg))))"

section \<open>Durations\<close>

lemma foldl_dec_mono: "x \<le> foldl (\<lambda>a c. a * 10 + (of_char c - 48)) (x :: nat) s"
proof (induction s arbitrary: x)
  case (Cons c s)
  have "x \<le> x * 10 + (of_char c - 48)" by simp
  also have "\<dots> \<le> foldl (\<lambda>a c. a * 10 + (of_char c - 48)) (x * 10 + (of_char c - 48)) s" by (rule Cons)
  finally show ?case by simp
qed simp

lemma leadingInt_digits:
  assumes "list_all is_dec_digit ds" "r = [] \<or> \<not> is_dec_digit (hd r)"
    "foldl (\<lambda>a c. a * 10 + (of_char c - 48)) x ds \<le> 2 ^ 63"
  shows "leadingInt x (ds @ r) = Some (foldl (\<lambda>a c. a * 10 + (of_char c - 48)) x ds, r)"
  using assms
proof (induction ds arbitrary: x)
  case Nil
  then show ?case by (cases r) auto
next
  case (Cons c ds)
  let ?y = "x * 10 + dec_digit c"
  have y: "?y \<le> 2 ^ 63"
    using Cons(4) foldl_dec_mono [of ?y ds] by (simp add: dec_digit_def)
  then have "\<not> 2 ^ 63 div 10 < x" by simp
  with Cons y show ?case by (simp add: dec_digit_def)
qed

lemma unitMap_units:
  assumes "unitMap u = Some k"
  shows "u \<noteq> ''''" "takeWhile unit_char u = u" "dropWhile unit_char u = []"
    "\<not> is_dec_digit (hd u)" "hd u \<noteq> CHR ''.''" "0 < k"
  using assms
  by (auto simp: unitMap_def unit_char_def is_dec_digit_def split: if_splits)

lemma leadingInt_nat_text:
  assumes "n \<le> 2 ^ 63" "r = [] \<or> \<not> is_dec_digit (hd r)"
  shows "leadingInt 0 (nat_text n @ r) = Some (n, r)"
proof (cases "n = 0")
  case True
  have "is_dec_digit (CHR ''0'')" "dec_digit (CHR ''0'') = 0" by (simp_all add: is_dec_digit_def dec_digit_def)
  with True assms(2) show ?thesis by (cases r) (auto simp: nat_text_def)
next
  case False
  with assms leadingInt_digits [of "dec_digits n" r 0] show ?thesis
    by (simp add: nat_text_def flip: dec_value_def)
qed

lemma nat_text_shape:
  "nat_text n \<noteq> []" "\<not> prefix ''-'' (nat_text n @ r)" "\<not> prefix ''+'' (nat_text n @ r)"
proof -
  have ne: "nat_text n \<noteq> []" and d: "is_dec_digit (hd (nat_text n))"
    using hd_dec_digits [of n] by (auto simp: nat_text_def is_dec_digit_def)
  then obtain c cs where "nat_text n = c # cs" "is_dec_digit c" by (cases "nat_text n") auto
  then show "nat_text n \<noteq> []" "\<not> prefix ''-'' (nat_text n @ r)" "\<not> prefix ''+'' (nat_text n @ r)"
    by (auto simp: is_dec_digit_def)
qed

lemma duration_part_unit:
  assumes "unitMap u = Some k" "n * k \<le> 2 ^ 63"
  shows "duration_part frac (nat_text n @ u) = Some (n * k, [])"
proof -
  note u = unitMap_units [OF assms(1)]
  have n: "n \<le> 2 ^ 63 div k" using assms(2) u(6) by (simp add: less_eq_div_iff_mult_less_eq)
  then have "n \<le> 2 ^ 63" using div_le_dividend le_trans by blast
  with u have "leadingInt 0 (nat_text n @ u) = Some (n, u)" by (simp add: leadingInt_nat_text)
  moreover obtain c cs where "u = c # cs" "c \<noteq> CHR ''.''" using u by (cases u) auto
  ultimately show ?thesis
    using u n assms(1) nat_text_shape(1) [of n] by (simp add: duration_part_def Let_def not_less)
qed

lemma ParseDuration_unit:
  assumes "unitMap u = Some k" "int n * int k \<le> max_int64"
  shows "time_ParseDuration frac (nat_text n @ u) = Some (of_nat (n * k))"
proof -
  have "int (n * k) \<le> int (2 ^ 63 - 1)" using assms(2) by (simp add: max_int64_def)
  then have b: "n * k \<le> 2 ^ 63 - 1" by (simp only: of_nat_le_iff)
  have "nat_text n @ u \<noteq> ''0''"
  proof
    assume "nat_text n @ u = ''0''"
    then have "is_dec_digit (hd u)" using unitMap_units(1) [OF assms(1)] nat_text_shape(1) [of n]
      by (auto simp: append_eq_Cons_conv)
    with unitMap_units(4) [OF assms(1)] show False ..
  qed
  moreover have "duration_loop frac 0 (nat_text n @ u) = Some (n * k)"
    using b nat_text_shape(1) [of n] duration_part_unit [OF assms(1), of n frac]
    by (simp add: duration_loop.simps)
  ultimately show ?thesis using b nat_text_shape [of n] by (simp add: time_ParseDuration_def Let_def)
qed

lemma leadingInt_all_digits:
  "list_all is_dec_digit ds \<Longrightarrow> leadingInt x ds = Some (v, r) \<Longrightarrow> r = []"
  by (induction x ds rule: leadingInt.induct) (auto simp: Let_def split: if_splits)

lemma nat_text_digits: "list_all is_dec_digit (nat_text n)"
  by (simp add: nat_text_def is_dec_digit_def)

lemma digit_chars:
  "digit_char 0 = CHR ''0''" "digit_char (Suc 0) = CHR ''1''" "digit_char 2 = CHR ''2''"
  "digit_char 3 = CHR ''3''" "digit_char 4 = CHR ''4''" "digit_char 7 = CHR ''7''" "digit_char 9 = CHR ''9''"
  by code_simp+

lemma ParseDuration_bare:
  assumes "0 < n" shows "time_ParseDuration frac (nat_text n) = None"
proof -
  have "nat_text n \<noteq> ''0''"
  proof
    assume "nat_text n = ''0''"
    then have "dec_value (dec_digits n) = 0" using assms by (simp add: nat_text_def dec_value_def)
    with assms show False by simp
  qed
  moreover have "duration_part frac (nat_text n) = None"
  proof (cases "leadingInt 0 (nat_text n)")
    case (Some vr)
    with leadingInt_all_digits [OF nat_text_digits, of 0 n "fst vr" "snd vr"]
    show ?thesis by (cases vr) (simp add: duration_part_def Let_def)
  qed (simp add: duration_part_def)
  ultimately show ?thesis
    using nat_text_shape(1) [of n] nat_text_shape(2,3) [of n "[]"] by (simp add: time_ParseDuration_def duration_loop.simps Let_def)
qed

text \<open>
  Durations are read as they are written: a whole number with one of the units of
  \<open>time.ParseDuration\<close>, or without a unit, which means seconds, is exactly that many nanoseconds
  whenever they fit the 63 bits of a duration.
\<close>

lemma getduration_reads:
  assumes "unitMap u = Some k" "int n * int k \<le> max_int64"
    and "environ key = nat_text n @ u \<or> u = ''s'' \<and> environ key = nat_text n"
  shows "sint (getduration frac environ key d) = int n * int k"
proof -
  have v: "sint (of_nat (n * k) :: int64) = int n * int k"
    using assms(2) sint_of_int_int64 [of "int n * int k"] by (simp add: min_int64_def order_trans [of _ 0])
  show ?thesis
  proof (cases "environ key = nat_text n @ u")
    case True
    with ParseDuration_unit [OF assms(1,2)] v nat_text_shape(1) [of n]
    show ?thesis by (simp add: getduration_def Let_def)
  next
    case False
    with assms have e: "environ key = nat_text n" and k: "k = 10 ^ 9" by (auto simp: unitMap_def)
    show ?thesis
    proof (cases "n = 0")
      case True
      then show ?thesis using e by (simp add: getduration_def nat_text_def time_ParseDuration_def)
    next
      case False
      have "strconv_ParseInt (nat_text n) = Some (of_nat n)"
        using ParseInt_dec_digits [of n] False assms(2) k by (simp add: nat_text_def)
      with False e k v ParseDuration_bare [of n] nat_text_shape(1) [of n]
      show ?thesis by (simp add: getduration_def Let_def ac_simps)
    qed
  qed
qed

lemma getduration_reads_example:
  "sint (getduration (\<lambda>f u s. 0) (\<lambda>name. ''24h'') ''IDEMPOTENCY_KEY_TTL'' 0) = 86400 * 10 ^ 9"
proof -
  have "nat_text 24 @ ''h'' = ''24h''" "unitMap ''h'' = Some (3600 * 10 ^ 9)"
    by (simp_all add: nat_text_def dec_digits.simps digit_chars unitMap_def)
  then show ?thesis
    using getduration_reads [of "''h''" "3600 * 10 ^ 9" 24 "\<lambda>name. ''24h''" "''IDEMPOTENCY_KEY_TTL''"
        "\<lambda>f u s. 0" 0]
    by (simp add: max_int64_def)
qed

text \<open>
  A number of seconds too large for a duration is not refused but wraps around: with
  \<open>9223372037\<close> seconds of replay window, about 292 years, the window is negative.
\<close>

lemma getduration_wraps: "sint (getduration frac (\<lambda>name. ''9223372037'') key d) < 0"
proof -
  have "time_ParseDuration frac ''9223372037'' = None"
    using ParseDuration_bare [of 9223372037 frac] by (simp add: nat_text_def dec_digits.simps digit_chars)
  moreover have "strconv_ParseInt ''9223372037'' = Some 9223372037"
    using ParseInt_dec_digits [of 9223372037] by (simp add: dec_digits.simps digit_chars max_int64_def)
  ultimately show ?thesis by (simp add: getduration_def Let_def)
qed

end
