(* ===== verification/Wiring.thy ===== *)
theory Wiring
  imports Config PostgresRefine
begin

text \<open>
  The wiring of the process, \<open>cmd/orchestrator-fiat/main.go\<close>, and \<open>Open\<close> of
  \<open>internal/idempotency/idempotency.go\<close>. A value of a Go interface type is its dynamic type with
  the value it points to; a call on it is dispatched on that type. What the process finds around
  itself (environment, database, Redis, brokers, remote services) is the record \<open>platform\<close>.
\<close>

section \<open>Interface values\<close>

datatype ('p, 't) store_value = MemValue memstore | DBValue "('p, 't) pool" 'p

fun store_upd ::
  "(memstore \<Rightarrow> memstore) \<Rightarrow> (('p, 't) pool \<Rightarrow> 'p \<Rightarrow> 'p) \<Rightarrow> ('p, 't) store_value \<Rightarrow> ('p, 't) store_value" where
  "store_upd f g (MemValue s) = MemValue (f s)"
| "store_upd f g (DBValue px p) = DBValue px (g px p)"

fun store_get :: "(memstore \<Rightarrow> 'a) \<Rightarrow> (('p, 't) pool \<Rightarrow> 'p \<Rightarrow> 'a) \<Rightarrow> ('p, 't) store_value \<Rightarrow> 'a" where
  "store_get f g (MemValue s) = f s"
| "store_get f g (DBValue px p) = g px p"

fun store_do ::
  "(memstore \<Rightarrow> 'a \<times> memstore) \<Rightarrow> (('p, 't) pool \<Rightarrow> 'p \<Rightarrow> 'a \<times> 'p) \<Rightarrow> ('p, 't) store_value
     \<Rightarrow> 'a \<times> ('p, 't) store_value" where
  "store_do f g (MemValue s) = map_prod id MemValue (f s)"
| "store_do f g (DBValue px p) = map_prod id (DBValue px) (g px p)"

fun store_update ::
  "(memstore \<Rightarrow> 'w \<Rightarrow> updres \<times> memstore \<times> 'w) \<Rightarrow> (('p, 't) pool \<Rightarrow> 'p \<Rightarrow> 'w \<Rightarrow> updres \<times> 'p \<times> 'w)
     \<Rightarrow> ('p, 't) store_value \<Rightarrow> 'w \<Rightarrow> updres \<times> ('p, 't) store_value \<times> 'w" where
  "store_update f g (MemValue s) w = map_prod id (map_prod MemValue id) (f s w)"
| "store_update f g (DBValue px p) w = map_prod id (map_prod (DBValue px) id) (g px p w)"

definition AnyStore :: "time \<Rightarrow> (('p, 't) store_value, 'w) store_iface" where
  "AnyStore now =
     (let M = MemStore; D = (\<lambda>px. DB px now) in
      \<lparr>st_CreateIntent = (\<lambda>i. store_upd (st_CreateIntent M i) (\<lambda>px. st_CreateIntent (D px) i)),
      st_GetIntent = (\<lambda>k. store_get (st_GetIntent M k) (\<lambda>px. st_GetIntent (D px) k)),
      st_ListIntents = (\<lambda>ord a b. store_get (st_ListIntents M ord a b)
         (\<lambda>px. st_ListIntents (D px) ord a b)),
      st_UpdateIntent = (\<lambda>t k fn. store_update (st_UpdateIntent M t k fn)
         (\<lambda>px. st_UpdateIntent (D px) t k fn)),
      st_AddCapture = (\<lambda>x. store_upd (st_AddCapture M x) (\<lambda>px. st_AddCapture (D px) x)),
      st_CapturesFor = (\<lambda>k. store_get (st_CapturesFor M k) (\<lambda>px. st_CapturesFor (D px) k)),
      st_AddSettlement = (\<lambda>x. store_upd (st_AddSettlement M x) (\<lambda>px. st_AddSettlement (D px) x)),
      st_SettlementsFor = (\<lambda>k. store_get (st_SettlementsFor M k) (\<lambda>px. st_SettlementsFor (D px) k)),
      st_AddRefund = (\<lambda>x. store_upd (st_AddRefund M x) (\<lambda>px. st_AddRefund (D px) x)),
      st_RefundsFor = (\<lambda>k. store_get (st_RefundsFor M k) (\<lambda>px. st_RefundsFor (D px) k)),
      st_AddChargeback = (\<lambda>x. store_upd (st_AddChargeback M x) (\<lambda>px. st_AddChargeback (D px) x)),
      st_ChargebacksFor = (\<lambda>k. store_get (st_ChargebacksFor M k) (\<lambda>px. st_ChargebacksFor (D px) k)),
      st_UpdateChargeback = (\<lambda>t ord k fn. store_do (st_UpdateChargeback M t ord k fn)
         (\<lambda>px. st_UpdateChargeback (D px) t ord k fn)),
      st_RecordWebhook = (\<lambda>x. store_do (st_RecordWebhook M x) (\<lambda>px. st_RecordWebhook (D px) x)),
      st_MarkWebhookProcessed = (\<lambda>t r k. store_upd (st_MarkWebhookProcessed M t r k)
         (\<lambda>px. st_MarkWebhookProcessed (D px) t r k)),
      st_WebhookExists = (\<lambda>r k. store_get (st_WebhookExists M r k)
         (\<lambda>px. st_WebhookExists (D px) r k))\<rparr>)"

datatype ('r, 'b) idem_value = MemIdem "'b idem_mem" | RedisIdem "('r, 'b) redis_store" 'r

fun idem_call ::
  "('b idem_mem \<Rightarrow> 'a \<times> 'b idem_mem) \<Rightarrow> (('r, 'b) redis_store \<Rightarrow> 'r \<Rightarrow> 'a \<times> 'r) \<Rightarrow> ('r, 'b) idem_value
     \<Rightarrow> 'a \<times> ('r, 'b) idem_value" where
  "idem_call f g (MemIdem m) = map_prod id MemIdem (f m)"
| "idem_call f g (RedisIdem s r) = map_prod id (RedisIdem s) (g s r)"

definition AnyIdem :: "(('r, 'b) idem_value, 'b) idem_iface" where
  "AnyIdem =
     \<lparr>id_LookupResponse = (\<lambda>t k. idem_call (id_LookupResponse IdemMem t k)
                             (\<lambda>s. id_LookupResponse (IdemRedis s) t k)),
      id_Claim = (\<lambda>t k d. idem_call (id_Claim IdemMem t k d) (\<lambda>s. id_Claim (IdemRedis s) t k d)),
      id_StoreResponse = (\<lambda>t k e d. idem_call (id_StoreResponse IdemMem t k e d)
                            (\<lambda>s. id_StoreResponse (IdemRedis s) t k e d)),
      id_Delete = (\<lambda>k. idem_call (id_Delete IdemMem k) (\<lambda>s. id_Delete (IdemRedis s) k))\<rparr>"

section \<open>The platform\<close>

text \<open>
  \<open>pfConnect\<close> is \<open>pgxpool.New\<close> on a DSN, \<open>pfRedisURL\<close> the error of \<open>redis.ParseURL\<close>, \<open>pfRedisPing\<close>
  that of the first ping, \<open>pfRedis\<close> and \<open>pfRedisState\<close> the server behind a URL.
\<close>

record ('p, 't, 'r) platform =
  pfEnv :: "string \<Rightarrow> string"
  pfTesting :: bool
  pfNow :: time
  pfStamp :: "string \<Rightarrow> time"
  pfFS :: embed_fs
  pfConnect :: "string \<Rightarrow> error + (('p, 't) pool \<times> 'p)"
  pfMarshal :: "audit_event \<Rightarrow> bytes option"
  pfSHA256 :: "bytes \<Rightarrow> bytes"
  pfRailSend :: "http_req \<Rightarrow> http_out"
  pfRailDecode :: "bytes \<Rightarrow> string + railResponse"
  pfStatusDecode :: "bytes \<Rightarrow> string + statusResponse"
  pfMPISend :: "mpi_req \<Rightarrow> http_out"
  pfMPIDecode :: "bytes \<Rightarrow> string + challenge"
  pfFraudSend :: "string \<Rightarrow> http_out"
  pfRedisURL :: "string \<Rightarrow> error option"
  pfRedisPing :: "string \<Rightarrow> error option"
  pfRedis :: "string \<Rightarrow> 'r redis"
  pfRedisState :: "string \<Rightarrow> 'r"
  pfEntryMarshal :: "body entry \<Rightarrow> string + bytes"
  pfEntryUnmarshal :: "bytes \<Rightarrow> string + body entry"

fun bind_startup :: "'a startup \<Rightarrow> ('a \<Rightarrow> 'b startup) \<Rightarrow> 'b startup" where
  "bind_startup (Started x) f = f x"
| "bind_startup (Fatal m) f = Fatal m"

section \<open>The parts\<close>

definition newStore :: "('p, 't, 'r) platform \<Rightarrow> ('p, 't) store_value startup" where
  "newStore pf =
     (let dsn = pfEnv pf ''DB_URL'' in
      if dsn \<noteq> ''''
      then (case db_Open (pfFS pf) (pfStamp pf) (pfConnect pf dsn) of
              Inl err \<Rightarrow> Fatal (''postgres: open: '' @ error_text err)
            | Inr (px, p) \<Rightarrow> Started (DBValue px p))
      else if DevMode (pfEnv pf) then Started (MemValue NewMemStore)
      else bind_startup (MustEnvOrFatal (pfEnv pf) ''DB_URL''
             ''DB_URL required in production mode - set DEV_MODE=1 to allow in-memory store for development'')
             (\<lambda>_. Started (MemValue NewMemStore)))"

definition splitCSV :: "string \<Rightarrow> string list" where
  "splitCSV s = filter (\<lambda>p. p \<noteq> '''') (map strings_TrimSpace (strings_Split (CHR '','') s))"

definition newAuditSink :: "('p, 't, 'r) platform \<Rightarrow> bool \<Rightarrow> sink startup" where
  "newAuditSink pf devMode =
     (let brokers = pfEnv pf ''KAFKA_BROKERS'' in
      if brokers = '''' \<and> devMode then Started (Recorder [])
      else if brokers = ''''
           then Fatal ''KAFKA_BROKERS unset and DEV_MODE not set; cannot start audit producer''
      else
        (case NewKafkaSink (pfMarshal pf) (pfSHA256 pf) (splitCSV brokers) of
           Inl err \<Rightarrow>
             (if devMode then Started (Recorder [])
              else Fatal (''audit kafka init: '' @ error_text err))
         | Inr sink \<Rightarrow> Started sink))"

definition rail_adapters :: "('p, 't, 'r) platform \<Rightarrow> config \<Rightarrow> (rail \<rightharpoonup> adapter)" where
  "rail_adapters pf cfg = (\<lambda>r. case cfRailURLs cfg r of
     None \<Rightarrow> None
   | Some url \<Rightarrow>
       (if url = '''' then None
        else Some (HTTPAdapter (NewHTTP (pfRailSend pf) (pfRailDecode pf) (pfStatusDecode pf) url r))))"

definition newRailRegistry :: "('p, 't, 'r) platform \<Rightarrow> config \<Rightarrow> bool \<Rightarrow> registry startup" where
  "newRailRegistry pf cfg devMode =
     (let byRail = rail_adapters pf cfg in
      if dom byRail = {} \<and> devMode then Started (NewRegistry NewDummy)
      else if dom byRail = {}
           then Fatal (''no RAIL_*_URL configured and DEV_MODE!=1; set DEV_MODE=1 for local dev or '' @
                  ''provide RAIL_CARD_URL/RAIL_ACH_URL/RAIL_SEPA_URL/RAIL_PIX_URL/RAIL_UPI_URL'')
      else Started (NewRegistryFromMap byRail (if devMode then Some (DummyAdapter NewDummy) else None)))"

definition newMPIClient :: "('p, 't, 'r) platform \<Rightarrow> config \<Rightarrow> bool \<Rightarrow> mpi_client startup" where
  "newMPIClient pf cfg devMode =
     (if cfThreeDSMPIURL cfg \<noteq> ''''
      then Started (MPIHTTPClient (mpi_NewHTTP (pfMPISend pf) (pfMPIDecode pf) (cfThreeDSMPIURL cfg)))
      else if devMode then Started (MPIDummyClient NewMPIDummy)
      else Fatal (''THREE_DS_MPI_URL not set and DEV_MODE!=1; real MPI client required in production '' @
             ''- set DEV_MODE=1 for local dev''))"

definition newFraudClient :: "('p, 't, 'r) platform \<Rightarrow> config \<Rightarrow> bool \<Rightarrow> fraud_client startup" where
  "newFraudClient pf cfg devMode =
     (if cfFraudURL cfg \<noteq> ''''
      then Started (FraudHTTPClient (fraud_NewHTTP (pfFraudSend pf) (cfFraudURL cfg)))
      else if devMode then Started (FraudDummyClient NewFraudDummy)
      else Fatal (''FRAUD_URL not set and DEV_MODE!=1; refusing to start in production mode '' @
             ''- set DEV_MODE=1 for local dev''))"

definition idem_Open :: "('p, 't, 'r) platform \<Rightarrow> string \<Rightarrow> error + ('r, body) idem_value" where
  "idem_Open pf url =
     (if strings_TrimSpace url = '''' then Inr (MemIdem NewMem)
      else
        (case pfRedisURL pf url of
           Some err \<Rightarrow> Inl (Errorf ''parse REDIS_URL: '' err '''')
         | None \<Rightarrow>
             (case pfRedisPing pf url of
                Some err \<Rightarrow> Inl (Errorf ''ping redis: '' err '''')
              | None \<Rightarrow>
                  Inr (RedisIdem (NewRedis (pfRedis pf url) (pfEntryMarshal pf) (pfEntryUnmarshal pf) ''idempot'')
                         (pfRedisState pf url)))))"

definition newIdempotencyStore ::
  "('p, 't, 'r) platform \<Rightarrow> bool \<Rightarrow> ('r, body) idem_value startup" where
  "newIdempotencyStore pf devMode =
     (let redisURL = pfEnv pf ''REDIS_URL'' in
      if redisURL \<noteq> ''''
      then (case idem_Open pf redisURL of
              Inl err \<Rightarrow> Fatal (''idempotency: open redis: '' @ error_text err @
                '' - set REDIS_URL to a reachable Redis or unset it with DEV_MODE=1 for local dev'')
            | Inr st \<Rightarrow> Started st)
      else if devMode \<or> pfTesting pf then Started (MemIdem NewMem)
      else Fatal (''REDIS_URL not set and DEV_MODE!=1; refusing to start in production mode '' @
             ''- an in-memory idempotency store would lose dedup across replicas '' @
             ''(money-loss on retry); set REDIS_URL or DEV_MODE=1 for local dev''))"

section \<open>The service\<close>

type_synonym ('p, 't, 'r) wired_service = "(('p, 't) store_value, ('r, body) idem_value) service"

definition newService ::
  "('p, 't, 'r) platform \<Rightarrow> config \<Rightarrow> (('p, 't, 'r) wired_service \<times> 'v logger) startup" where
  "newService pf cfg =
     bind_startup (newStore pf) (\<lambda>st.
       let logger = NewDefault (pfEnv pf); devMode = DevMode (pfEnv pf) in
       bind_startup (newAuditSink pf devMode) (\<lambda>sink.
       bind_startup (newRailRegistry pf cfg devMode) (\<lambda>registry.
       bind_startup (newMPIClient pf cfg devMode) (\<lambda>mpiClient.
       bind_startup (newFraudClient pf cfg devMode) (\<lambda>fraudClient.
         let svc0 = NewService (AnyStore (pfNow pf)) st (MemIdem NewMem) registry (Some sink)
                      (WebhookSecret (pfEnv pf) cfg RailCard);
             svc1 = fst (ApplyConfig cfg (svc0, NewLogger (Some Discard) LevelInfo :: 'v logger));
             svc2 = svc1\<lparr>svMPI := mpiClient, svFraud := fraudClient\<rparr>
         in bind_startup (newIdempotencyStore pf devMode) (\<lambda>idemStore.
              Started (WithIdempotencyStore AnyIdem idemStore (cfIdempotencyKeyTTL cfg) svc2, logger)))))))"

section \<open>What the process is wired to\<close>

lemma bind_startup_Started:
  "bind_startup m f = Started y \<longleftrightarrow> (\<exists>x. m = Started x \<and> f x = Started y)"
  by (cases m) auto

lemma newStore_production:
  "\<not> DevMode (pfEnv pf) \<Longrightarrow> newStore pf = Started v \<longleftrightarrow>
     pfEnv pf ''DB_URL'' \<noteq> '''' \<and>
     (\<exists>px p. db_Open (pfFS pf) (pfStamp pf) (pfConnect pf (pfEnv pf ''DB_URL'')) = Inr (px, p) \<and> v = DBValue px p)"
  by (auto simp: newStore_def MustEnvOrFatal_def Let_def split: sum.split)

lemma newAuditSink_production:
  "newAuditSink pf False = Started a \<longleftrightarrow>
     splitCSV (pfEnv pf ''KAFKA_BROKERS'') \<noteq> [] \<and>
     a = KafkaSink \<lparr>ksWriter = True, ksMarshal = pfMarshal pf, ksSHA256 = pfSHA256 pf, ksSent = []\<rparr>"
proof -
  have "splitCSV '''' = []" by (simp add: splitCSV_def strings_TrimSpace_def)
  then show ?thesis by (auto simp: newAuditSink_def NewKafkaSink_def Let_def)
qed

lemma newRailRegistry_production:
  "newRailRegistry pf cfg False = Started r \<longleftrightarrow>
     rail_adapters pf cfg \<noteq> Map.empty \<and> r = NewRegistryFromMap (rail_adapters pf cfg) None"
  by (auto simp: newRailRegistry_def Let_def)

lemma newMPIClient_production:
  "newMPIClient pf cfg False = Started c \<longleftrightarrow> cfThreeDSMPIURL cfg \<noteq> '''' \<and>
     c = MPIHTTPClient (mpi_NewHTTP (pfMPISend pf) (pfMPIDecode pf) (cfThreeDSMPIURL cfg))"
  by (auto simp: newMPIClient_def)

lemma newFraudClient_production:
  "newFraudClient pf cfg False = Started c \<longleftrightarrow> cfFraudURL cfg \<noteq> '''' \<and>
     c = FraudHTTPClient (fraud_NewHTTP (pfFraudSend pf) (cfFraudURL cfg))"
  by (auto simp: newFraudClient_def)

lemma newIdempotencyStore_production:
  "\<not> pfTesting pf \<Longrightarrow> newIdempotencyStore pf False = Started v \<longleftrightarrow>
     pfEnv pf ''REDIS_URL'' \<noteq> '''' \<and> idem_Open pf (pfEnv pf ''REDIS_URL'') = Inr v"
  by (auto simp: newIdempotencyStore_def Let_def split: sum.split)

lemma idem_Open_redis:
  "idem_Open pf url = Inr v \<Longrightarrow> strings_TrimSpace url \<noteq> '''' \<Longrightarrow> \<exists>s r. v = RedisIdem s r"
  by (auto simp: idem_Open_def split: option.splits)

lemma ApplyConfig_sel [simp]:
  "svStore (fst (ApplyConfig c (svc, lg))) = svStore svc"
  "svRails (fst (ApplyConfig c (svc, lg))) = svRails svc"
  "svAudit (fst (ApplyConfig c (svc, lg))) = svAudit svc"
  "svReplayWindow (fst (ApplyConfig c (svc, lg))) = cfWebhookReplayWindow c"
  "svWebhookKeys (fst (ApplyConfig c (svc, lg))) =
     (if config_keys c = Map.empty then svWebhookKeys svc else config_keys c)"
  by (auto simp: ApplyConfig_def Let_def)

lemma WithIdempotencyStore_sel [simp]:
  "svStore (WithIdempotencyStore J st d svc) = svStore svc" "svRails (WithIdempotencyStore J st d svc) = svRails svc"
  "svAudit (WithIdempotencyStore J st d svc) = svAudit svc" "svMPI (WithIdempotencyStore J st d svc) = svMPI svc"
  "svFraud (WithIdempotencyStore J st d svc) = svFraud svc" "svIdem (WithIdempotencyStore J st d svc) = st"
  "svIdemI (WithIdempotencyStore J st d svc) = Some J"
  "svWebhookKeys (WithIdempotencyStore J st d svc) = svWebhookKeys svc"
  by (simp_all add: WithIdempotencyStore_def Let_def)

lemma NewService_sel [simp]:
  "svStore (NewService I s idem r a k) = s" "svRails (NewService I s idem r a k) = r"
  "svAudit (NewService I s idem r a k) = a"
  "svWebhookKeys (NewService I s idem r a k) =
     [RailCard \<mapsto> k, RailACH \<mapsto> k, RailSEPA \<mapsto> k, RailPIX \<mapsto> k, RailUPI \<mapsto> k]"
  by (simp_all add: NewService_def)

text \<open>
  C19. In production (no \<open>DEV_MODE=1\<close>, not a test binary) the process starts only fully wired:
  with the Postgres store, opened and migrated, the Kafka audit sink with at least one broker, an
  HTTP adapter for every rail that has a URL, at least one of them, and no stub behind the others,
  the HTTP clients for 3DS and for fraud, and Redis for idempotency, unless \<open>REDIS_URL\<close> is
  made of white space only. When any of these is not configured, it exits.
\<close>

theorem production_wiring:
  assumes "newService pf cfg = Started (svc, lg)" "\<not> DevMode (pfEnv pf)" "\<not> pfTesting pf"
  shows "(\<exists>px p. svStore svc = DBValue px p \<and>
       db_Open (pfFS pf) (pfStamp pf) (pfConnect pf (pfEnv pf ''DB_URL'')) = Inr (px, p)) \<and>
    splitCSV (pfEnv pf ''KAFKA_BROKERS'') \<noteq> [] \<and> (\<exists>k. svAudit svc = Some (KafkaSink k)) \<and>
    svRails svc = NewRegistryFromMap (rail_adapters pf cfg) None \<and> rail_adapters pf cfg \<noteq> Map.empty \<and>
    (\<exists>m. svMPI svc = MPIHTTPClient m) \<and> (\<exists>f. svFraud svc = FraudHTTPClient f) \<and>
    ((\<exists>s r. svIdem svc = RedisIdem s r) \<or>
     pfEnv pf ''REDIS_URL'' \<noteq> '''' \<and> strings_TrimSpace (pfEnv pf ''REDIS_URL'') = '''')"
  using assms
  by (auto simp: newService_def bind_startup_Started Let_def newStore_production newAuditSink_production
      newRailRegistry_production newMPIClient_production newFraudClient_production
      newIdempotencyStore_production dest: idem_Open_redis)

lemma config_keys_empty: "config_keys c = Map.empty \<longleftrightarrow> ran (cfWebhookSecrets c) \<subseteq> {''''}"
  by (fastforce simp: config_keys_def fun_eq_iff ran_def split: option.splits if_splits)

lemma ran_secrets:
  "ran (cfWebhookSecrets (FromEnv frac env)) =
     {env ''WEBHOOK_SECRET_CARD'', env ''WEBHOOK_SECRET_ACH'', env ''WEBHOOK_SECRET_SEPA'',
      env ''WEBHOOK_SECRET_PIX'', env ''WEBHOOK_SECRET_UPI''}"
  by (simp add: FromEnv_def insert_commute)

text \<open>
  C33. The webhook secrets of the wired service: as soon as one rail has a secret of its own, only
  the rails with their own secret have a key, and every webhook of another rail is refused;
  \<open>WEBHOOK_SECRET\<close>, which \<open>Config.WebhookSecret\<close> documents as the fallback of every rail, is used
  only when no rail has its own.
\<close>

theorem wired_webhook_keys:
  assumes "newService pf (FromEnv frac (pfEnv pf)) = Started (svc, lg)"
    and "r \<in> {RailCard, RailACH, RailSEPA, RailPIX, RailUPI}"
  shows "svWebhookKeys svc r =
    (if \<exists>k \<in> {''CARD'', ''ACH'', ''SEPA'', ''PIX'', ''UPI''}. pfEnv pf (''WEBHOOK_SECRET_'' @ k) \<noteq> ''''
     then (let own = lookup_str (cfWebhookSecrets (FromEnv frac (pfEnv pf))) r in
           if own = '''' then None else Some own)
     else Some (pfEnv pf ''WEBHOOK_SECRET''))"
proof -
  let ?c = "FromEnv frac (pfEnv pf)"
  have ne: "config_keys ?c = Map.empty \<longleftrightarrow>
     \<not> (\<exists>k \<in> {''CARD'', ''ACH'', ''SEPA'', ''PIX'', ''UPI''}. pfEnv pf (''WEBHOOK_SECRET_'' @ k) \<noteq> '''')"
    unfolding config_keys_empty ran_secrets by auto
  have own: "config_keys ?c r = (let own = lookup_str (cfWebhookSecrets ?c) r in if own = '''' then None else Some own)"
    by (auto simp: config_keys_def lookup_str_def Let_def split: option.split)
  have keys: "svWebhookKeys svc = (if config_keys ?c = Map.empty
      then [RailCard \<mapsto> WebhookSecret (pfEnv pf) ?c RailCard, RailACH \<mapsto> WebhookSecret (pfEnv pf) ?c RailCard,
        RailSEPA \<mapsto> WebhookSecret (pfEnv pf) ?c RailCard, RailPIX \<mapsto> WebhookSecret (pfEnv pf) ?c RailCard,
        RailUPI \<mapsto> WebhookSecret (pfEnv pf) ?c RailCard] else config_keys ?c)"
    using assms(1) by (auto simp: newService_def bind_startup_Started Let_def)
  show ?thesis
  proof (cases "config_keys ?c = Map.empty")
    case True
    then have "WebhookSecret (pfEnv pf) ?c RailCard = pfEnv pf ''WEBHOOK_SECRET''"
      unfolding ne by (simp add: WebhookSecret_def lookup_str_def FromEnv_def)
    with True assms(2) keys have "svWebhookKeys svc r = Some (pfEnv pf ''WEBHOOK_SECRET'')" by auto
    with True show ?thesis unfolding ne by simp
  qed (use keys ne own in simp)
qed

section \<open>Examples\<close>

text \<open>A production environment in which only the value of \<open>REDIS_URL\<close> varies.\<close>

definition prod_env :: "string \<Rightarrow> string \<Rightarrow> string" where
  "prod_env redis name = lookup_str (map_of
     [(''DB_URL'', ''postgres://db''), (''KAFKA_BROKERS'', ''k1, k2''), (''RAIL_CARD_URL'', ''http://card''),
      (''THREE_DS_MPI_URL'', ''http://mpi''), (''FRAUD_URL'', ''http://fraud''), (''REDIS_URL'', redis),
      (''WEBHOOK_SECRET_CARD'', ''own''), (''WEBHOOK_SECRET'', ''generic'')]) name"

definition prod_platform :: "string \<Rightarrow> (refdb, tables, unit) platform" where
  "prod_platform redis =
     \<lparr>pfEnv = prod_env redis, pfTesting = False, pfNow = 0, pfStamp = (\<lambda>v. 0), pfFS = repo_fs ''u'' ''d'',
      pfConnect = (\<lambda>dsn. Inr (ref_pool no_faults 0, pg_empty)),
      pfMarshal = (\<lambda>e. None), pfSHA256 = (\<lambda>b. b),
      pfRailSend = (\<lambda>r. DoErr ''down''), pfRailDecode = (\<lambda>b. Inl ''bad''), pfStatusDecode = (\<lambda>b. Inl ''bad''),
      pfMPISend = (\<lambda>r. DoErr ''down''), pfMPIDecode = (\<lambda>b. Inl ''bad''), pfFraudSend = (\<lambda>r. DoErr ''down''),
      pfRedisURL = (\<lambda>u. None), pfRedisPing = (\<lambda>u. None),
      pfRedis = (\<lambda>u. \<lparr>rdGet = (\<lambda>t k r. (RNil, r)), rdSetNX = (\<lambda>t k v d r. (Inr True, r)),
                     rdSet = (\<lambda>t k v d r. (None, r)), rdDel = (\<lambda>ks r. (None, r))\<rparr>),
      pfRedisState = (\<lambda>u. ()), pfEntryMarshal = (\<lambda>e. Inl ''bad''), pfEntryUnmarshal = (\<lambda>b. Inl ''bad'')\<rparr>"

abbreviation prod_config :: "string \<Rightarrow> config" where
  "prod_config redis \<equiv> FromEnv (\<lambda>f u s. 0) (prod_env redis)"

abbreviation prod_service ::
  "string \<Rightarrow> ((refdb, tables, unit) wired_service \<times> unit logger) startup" where
  "prod_service redis \<equiv> newService (prod_platform redis) (prod_config redis)"

lemma prod_platform_sel [simp]:
  "pfEnv (prod_platform redis) = prod_env redis" "\<not> pfTesting (prod_platform redis)"
  by (simp_all add: prod_platform_def)

lemma prod_not_dev: "\<not> DevMode (prod_env redis)"
  by (simp add: DevMode_def prod_env_def lookup_str_def)

lemma prod_store: "\<exists>px p. newStore (prod_platform redis) = Started (DBValue px p)"
proof -
  let ?px = "ref_pool no_faults 0"
  have ms: "All_migrations (repo_fs ''u'' ''d'') = Inr [\<lparr>mgVersion = ''0001_init'', mgUp = ''u'', mgDown = ''d''\<rparr>]"
    by (rule All_repo_fs) simp_all
  have sel: "ref_migrate no_faults st d = (None, ref_version st d)"
    "plVersion ?px v d = Inr (v \<in> set (rdVersions d))" "plPing ?px d = None" for st d v
    by (simp_all add: ref_pool_def ref_migrate_def no_faults_def ref_read_def)
  have "\<exists>p1. Up (repo_fs ''u'' ''d'') (db_runner ?px) (\<lambda>v. 0) pg_empty = (None, p1)"
    by (simp add: Up_def ms db_runner_def NewRunner_def rn_applied_def sel pg_empty_def)
  then have "\<exists>p1. db_Open (repo_fs ''u'' ''d'') (\<lambda>v. 0) (Inr (?px, pg_empty)) = Inr (?px, p1)"
    by (auto simp: db_Open_def sel)
  then show ?thesis
    by (auto simp: newStore_production prod_not_dev) (auto simp: prod_platform_def prod_env_def lookup_str_def)
qed

lemma prod_starts:
  assumes "redis \<noteq> ''''"
  obtains svc lg v where "prod_service redis = Started (svc, lg)"
    "idem_Open (prod_platform redis) redis = Inr v" "svIdem svc = v"
proof -
  let ?pf = "prod_platform redis"
  obtain px p where st: "newStore ?pf = Started (DBValue px p)" using prod_store by blast
  have "splitCSV ''k1, k2'' \<noteq> []" by code_simp
  then have au: "\<exists>a. newAuditSink ?pf False = Started a"
    by (simp add: newAuditSink_production) (simp add: prod_env_def lookup_str_def)
  have rl: "\<exists>r. newRailRegistry ?pf (prod_config redis) False = Started r"
    unfolding newRailRegistry_production
    by (auto simp: rail_adapters_def FromEnv_def prod_env_def lookup_str_def fun_eq_iff
        intro: exI [of _ RailCard])
  have cl: "\<exists>c. newMPIClient ?pf (prod_config redis) False = Started c"
    "\<exists>c. newFraudClient ?pf (prod_config redis) False = Started c"
    by (simp_all add: newMPIClient_production newFraudClient_production FromEnv_def prod_env_def lookup_str_def)
  have "\<exists>v. idem_Open ?pf redis = Inr v" by (simp add: idem_Open_def prod_platform_def)
  then obtain v where v: "idem_Open ?pf redis = Inr v" by blast
  have id: "newIdempotencyStore ?pf False = Started v"
    using v assms by (simp add: newIdempotencyStore_production) (simp add: prod_env_def lookup_str_def)
  from st au rl cl id v prod_not_dev [of redis] that show thesis
    by (fastforce simp: newService_def Let_def)
qed

theorem production_wiring_witness:
  "\<exists>svc lg s r. prod_service ''redis://r'' = Started (svc, lg) \<and> svIdem svc = RedisIdem s r"
proof -
  have "strings_TrimSpace ''redis://r'' \<noteq> ''''" by code_simp
  moreover obtain svc lg where s: "prod_service ''redis://r'' = Started (svc, lg)"
    by (rule prod_starts [of "''redis://r''"]) simp_all
  moreover have "prod_env ''redis://r'' ''REDIS_URL'' = ''redis://r''" by (simp add: prod_env_def lookup_str_def)
  ultimately show ?thesis
    using production_wiring [OF s] prod_not_dev by simp
qed

theorem wired_webhook_keys_witness:
  "\<exists>svc lg. prod_service ''redis://r'' = Started (svc, lg) \<and>
     svWebhookKeys svc RailCard = Some ''own'' \<and> svWebhookKeys svc RailACH = None \<and>
     WebhookSecret (prod_env ''redis://r'') (prod_config ''redis://r'') RailACH = ''generic''"
proof -
  obtain svc lg where s: "prod_service ''redis://r'' = Started (svc, lg)"
    by (rule prod_starts [of "''redis://r''"]) simp_all
  from s have s': "newService (prod_platform ''redis://r'')
    (FromEnv (\<lambda>f u s. 0) (pfEnv (prod_platform ''redis://r''))) = Started (svc, lg)" by simp
  have env: "prod_env ''redis://r'' ''WEBHOOK_SECRET_CARD'' = ''own''" "prod_env ''redis://r'' ''WEBHOOK_SECRET_ACH'' = ''''"
    "prod_env ''redis://r'' ''WEBHOOK_SECRET'' = ''generic''" by (simp_all add: prod_env_def lookup_str_def)
  have own: "lookup_str (cfWebhookSecrets (prod_config ''redis://r'')) RailCard = ''own''"
    "lookup_str (cfWebhookSecrets (prod_config ''redis://r'')) RailACH = ''''"
    by (simp_all add: FromEnv_def lookup_str_def env)
  have "svWebhookKeys svc RailCard = Some ''own''" "svWebhookKeys svc RailACH = None"
    using wired_webhook_keys [OF s', of RailCard] wired_webhook_keys [OF s', of RailACH]
    by (simp_all add: env own Let_def del: RailCard_def RailACH_def)
  moreover have "WebhookSecret (prod_env ''redis://r'') (prod_config ''redis://r'') RailACH = ''generic''"
    by (simp add: WebhookSecret_def own env Let_def del: RailACH_def)
  ultimately show ?thesis using s by blast
qed

text \<open>
  A blank \<open>REDIS_URL\<close> defeats the guard against an in-memory idempotency store: in production
  the process starts, with idempotency keys kept in its own memory, although the comment of
  \<open>newIdempotencyStore\<close> calls this a money-loss vector and promises a fatal exit.
\<close>

lemma blank_redis_url_starts:
  "\<exists>svc lg. \<not> DevMode (pfEnv (prod_platform '' '')) \<and> \<not> pfTesting (prod_platform '' '') \<and>
     prod_service '' '' = Started (svc, lg) \<and> svIdem svc = MemIdem NewMem"
proof -
  obtain svc lg v where "prod_service '' '' = Started (svc, lg)"
    "idem_Open (prod_platform '' '') '' '' = Inr v" "svIdem svc = v" by (rule prod_starts [of "'' ''"]) simp
  moreover have "strings_TrimSpace '' '' = ''''" by code_simp
  ultimately show ?thesis using prod_not_dev by (auto simp: idem_Open_def)
qed

end
