(* ===== verification/Otel.thy ===== *)
theory Otel
  imports Config
begin

text \<open>
  Tracing, \<open>internal/otel/otel.go\<close>: the choice between plain providers and providers that export
  over OTLP, the global providers of the process, and the shutdown that \<open>Init\<close> hands back. The
  OpenTelemetry library is a parameter: its constructors may fail, and its shutdowns act on a
  state \<open>'w\<close> of their own.
\<close>

text \<open>
  \<open>sdktrace.NewTracerProvider()\<close> without options, or with a batcher over an exporter, its timeout
  and a resource; \<open>noop.NewMeterProvider()\<close>, or a provider with a periodic reader.
\<close>

datatype ('x, 'r) tracer_provider = PlainTracer | BatchTracer 'x duration 'r

datatype ('y, 'r) meter_provider = NoopMeter | ReaderMeter 'y duration 'r

datatype propagator = TraceContext | Baggage

record ('x, 'y, 'r) otel_globals =
  ogTracer :: "('x, 'r) tracer_provider option"
  ogMeter :: "('y, 'r) meter_provider option"
  ogPropagator :: "propagator list"

text \<open>
  \<open>olMerge\<close> is \<open>resource.Merge\<close> of the default resource with the service name, \<open>olTraceNew\<close> and
  \<open>olMetricNew\<close> the exporters for an endpoint, without TLS.
\<close>

record ('x, 'y, 'r, 'w) otel_lib =
  olMerge :: "string \<Rightarrow> error + 'r"
  olTraceNew :: "string \<Rightarrow> error + 'x"
  olMetricNew :: "string \<Rightarrow> error + 'y"
  olTraceShutdown :: "('x, 'r) tracer_provider \<Rightarrow> 'w \<Rightarrow> error option \<times> 'w"
  olMetricShutdown :: "('y, 'r) meter_provider \<Rightarrow> 'w \<Rightarrow> error option \<times> 'w"

datatype ('x, 'y, 'r) shutdown_fn = NoShutdown
  | ShutdownBoth "('x, 'r) tracer_provider" "('y, 'r) meter_provider"

definition otel_set ::
  "('x, 'r) tracer_provider \<Rightarrow> ('y, 'r) meter_provider \<Rightarrow> ('x, 'y, 'r) otel_globals" where
  "otel_set tp mp =
     \<lparr>ogTracer = Some tp, ogMeter = Some mp, ogPropagator = [TraceContext, Baggage]\<rparr>"

definition otel_Init ::
  "('x, 'y, 'r, 'w) otel_lib \<Rightarrow> (string \<Rightarrow> string) \<Rightarrow> string \<Rightarrow> ('x, 'y, 'r) otel_globals
     \<Rightarrow> (error + ('x, 'y, 'r) shutdown_fn) \<times> ('x, 'y, 'r) otel_globals" where
  "otel_Init lib env serviceName g =
     (let endpoint = strings_TrimSpace (env ''OTEL_EXPORTER_OTLP_ENDPOINT'') in
      if endpoint = '''' then (Inr NoShutdown, otel_set PlainTracer NoopMeter)
      else
        let name = strings_TrimSpace (env ''OTEL_SERVICE_NAME'');
            serviceName = (if name \<noteq> '''' then name else serviceName);
            endpoint = strings_TrimPrefix (strings_TrimPrefix endpoint ''http://'') ''grpc://''
        in case olMerge lib serviceName of
             Inl err \<Rightarrow> (Inl (Errorf ''otel resource: '' err ''''), g)
           | Inr res \<Rightarrow>
               (case olTraceNew lib endpoint of
                  Inl err \<Rightarrow> (Inl (Errorf ''otel trace exporter: '' err ''''), g)
                | Inr spanExp \<Rightarrow>
                    (case olMetricNew lib endpoint of
                       Inl err \<Rightarrow> (Inl (Errorf ''otel metric exporter: '' err ''''), g)
                     | Inr metricExp \<Rightarrow>
                         (let tp = BatchTracer spanExp (seconds 10) res;
                              mp = ReaderMeter metricExp (seconds 10) res
                          in (Inr (ShutdownBoth tp mp), otel_set tp mp)))))"

text \<open>The function \<open>Init\<close> returns: both providers are stopped, the tracing error is reported first.\<close>

fun otel_shutdown ::
  "('x, 'y, 'r, 'w) otel_lib \<Rightarrow> ('x, 'y, 'r) shutdown_fn \<Rightarrow> 'w \<Rightarrow> error option \<times> 'w" where
  "otel_shutdown lib NoShutdown w = (None, w)"
| "otel_shutdown lib (ShutdownBoth tp mp) w =
     (case olTraceShutdown lib tp w of (te, w1) \<Rightarrow>
        case olMetricShutdown lib mp w1 of (me, w2) \<Rightarrow>
          let traceErr = map_option (\<lambda>err. Errorf ''trace shutdown: '' err '''') te;
              metricErr = map_option (\<lambda>err. Errorf ''metric shutdown: '' err '''') me
          in (if traceErr \<noteq> None then traceErr else metricErr, w2))"

section \<open>Properties\<close>

text \<open>Without an endpoint nothing of the library is called and nothing can fail.\<close>

lemma otel_Init_unset:
  "strings_TrimSpace (env ''OTEL_EXPORTER_OTLP_ENDPOINT'') = '''' \<Longrightarrow>
   otel_Init lib env name g = (Inr NoShutdown, otel_set PlainTracer NoopMeter)"
  by (simp add: otel_Init_def)


end
