(* ===== verification/Routing.thy ===== *)
theory Routing
  imports Scenario Wiring Otel "HOL-Library.Signed_Division"
begin

text \<open>
  The HTTP surface: \<open>NewMux\<close>, \<open>statusWriter\<close> and \<open>RequestLogMiddleware\<close> of
  \<open>internal/api/handlers.go\<close>, \<open>run\<close> and \<open>main\<close> of \<open>cmd/orchestrator-fiat/main.go\<close>. Of the standard library
  it models what \<open>http.ServeMux\<close> does with the registered patterns: cleaning of the path, matching
  by method and segments, 404 and 405. Requests with the method CONNECT or the target \<open>*\<close>, which
  no pattern matches, are left out.
\<close>

section \<open>Requests on the wire\<close>

text \<open>
  \<open>hrPath\<close> is \<open>r.URL.Path\<close>, \<open>hrEscaped\<close> is \<open>r.URL.EscapedPath()\<close>; a header or query parameter that is
  absent is the empty string. Reading the body may fail (\<open>None\<close>).
\<close>

record http_request =
  hrMethod :: string
  hrPath :: string
  hrEscaped :: string
  hrHeader :: "string \<Rightarrow> string"
  hrQuery :: "string \<Rightarrow> string"
  hrBody :: "bytes option"
  hrContentLength :: int

text \<open>The JSON decoders of the bodies; \<open>None\<close> is an error.\<close>

record decoders =
  jdCreate :: "bytes option \<Rightarrow> createIntentReq option"
  jdAmount :: "bytes option \<Rightarrow> int64 option option"
  jdChallenge :: "bytes option \<Rightarrow> string option"
  jdWebhook :: "bytes \<Rightarrow> webhookBody"

section \<open>Paths\<close>

definition slash :: char where
  "slash = CHR ''/''"

definition hex_val :: "char \<Rightarrow> nat option" where
  "hex_val c =
     (let n = of_char c :: nat in
      if 48 \<le> n \<and> n \<le> 57 then Some (n - 48)
      else if 97 \<le> n \<and> n \<le> 102 then Some (n - 87)
      else if 65 \<le> n \<and> n \<le> 70 then Some (n - 55)
      else None)"

text \<open>\<open>url.PathUnescape\<close>, and the variant of the router that keeps a text it cannot decode.\<close>

fun unescape :: "string \<Rightarrow> string option" where
  "unescape [] = Some []"
| "unescape (c # cs) =
     (if c \<noteq> CHR ''%'' then map_option (Cons c) (unescape cs)
      else
        (case cs of
           a # b # rest \<Rightarrow>
             (case (hex_val a, hex_val b) of
                (Some x, Some y) \<Rightarrow> map_option (Cons (char_of (16 * x + y))) (unescape rest)
              | _ \<Rightarrow> None)
         | _ \<Rightarrow> None))"

definition pathUnescape :: "string \<Rightarrow> string" where
  "pathUnescape s = (case unescape s of None \<Rightarrow> s | Some u \<Rightarrow> u)"

text \<open>\<open>path.Clean\<close> of a rooted path, and \<open>cleanPath\<close> of net/http.\<close>

definition clean_step :: "string list \<Rightarrow> string \<Rightarrow> string list" where
  "clean_step acc s =
     (if s = '''' \<or> s = ''.'' then acc else if s = ''..'' then butlast acc else acc @ [s])"

definition join_segs :: "string list \<Rightarrow> string" where
  "join_segs ss = (if ss = [] then [slash] else concat (map (Cons slash) ss))"

definition cleanPath :: "string \<Rightarrow> string" where
  "cleanPath p =
     (if p = '''' then [slash]
      else
        let p1 = (if hd p \<noteq> slash then slash # p else p);
            np = join_segs (foldl clean_step [] (strings_Split slash p1))
        in if last p1 = slash \<and> np \<noteq> [slash] then np @ [slash] else np)"

section \<open>Patterns\<close>

datatype seg = Lit string | Wild

datatype endpoint =
    EHealthz | EReadyz | ECreate | EList | EGet | ECapture | EVoid | ERefund | E3DS | EWebhook | EMetrics

definition patterns :: "(string \<times> seg list \<times> endpoint) list" where
  "patterns =
     [(''GET'', [Lit ''healthz''], EHealthz),
      (''GET'', [Lit ''readyz''], EReadyz),
      (''POST'', [Lit ''v1'', Lit ''payments'', Lit ''intents''], ECreate),
      (''GET'', [Lit ''v1'', Lit ''payments''], EList),
      (''GET'', [Lit ''v1'', Lit ''payments'', Wild], EGet),
      (''POST'', [Lit ''v1'', Lit ''payments'', Wild, Lit ''capture''], ECapture),
      (''POST'', [Lit ''v1'', Lit ''payments'', Wild, Lit ''void''], EVoid),
      (''POST'', [Lit ''v1'', Lit ''payments'', Wild, Lit ''refund''], ERefund),
      (''POST'', [Lit ''v1'', Lit ''payments'', Wild, Lit ''3ds-challenge''], E3DS),
      (''POST'', [Lit ''v1'', Lit ''webhooks'', Wild], EWebhook),
      (''GET'', [Lit ''metrics''], EMetrics)]"

text \<open>
  \<open>firstSegment\<close>: a trailing slash is the segment \<open>/\<close>, every other segment is decoded. A wildcard
  matches any segment but \<open>/\<close>.
\<close>

definition segment :: "string \<Rightarrow> string" where
  "segment s = (if s = '''' then [slash] else pathUnescape s)"

fun match_segs :: "seg list \<Rightarrow> string list \<Rightarrow> string list option" where
  "match_segs [] [] = Some []"
| "match_segs (Lit l # ps) (s # ss) = (if segment s = l then match_segs ps ss else None)"
| "match_segs (Wild # ps) (s # ss) =
     (if segment s = [slash] then None else map_option (Cons (segment s)) (match_segs ps ss))"
| "match_segs _ _ = None"

text \<open>A pattern for GET also serves HEAD.\<close>

definition match_pattern ::
  "string \<Rightarrow> string list \<Rightarrow> string \<times> seg list \<times> endpoint \<Rightarrow> (endpoint \<times> string list) option" where
  "match_pattern method ss pat =
     (case pat of (m, ps, h) \<Rightarrow>
        if m = method \<or> m = ''GET'' \<and> method = ''HEAD'' then map_option (Pair h) (match_segs ps ss) else None)"

datatype routed =
    Route endpoint "string list" | RouteNotFound | RouteMethodNotAllowed | RouteRedirect string

definition find_route :: "string \<Rightarrow> string list \<Rightarrow> routed" where
  "find_route method ss =
     (case List.map_filter (match_pattern method ss) patterns of
        (h, ws) # _ \<Rightarrow> Route h ws
      | [] \<Rightarrow>
          (if list_ex (\<lambda>pat. match_segs (fst (snd pat)) ss \<noteq> None) patterns then RouteMethodNotAllowed
           else RouteNotFound))"

definition route :: "string \<Rightarrow> string \<Rightarrow> routed" where
  "route method escaped =
     (let p = cleanPath escaped in
      if p \<noteq> escaped then RouteRedirect p else find_route method (strings_Split slash (tl p)))"

section \<open>The mux\<close>

datatype answer =
    Answered "response option" | MetricsPage "string \<rightharpoonup> int64" int64 duration | Denied string
  | NotFound | MethodNotAllowed | MovedPermanently string

fun status_of :: "answer \<Rightarrow> nat option" where
  "status_of (Answered r) = map_option rsStatus r"
| "status_of (MetricsPage t b p) = Some 200"
| "status_of (Denied m) = Some 401"
| "status_of NotFound = Some 404"
| "status_of MethodNotAllowed = Some 405"
| "status_of (MovedPermanently p) = Some 301"

text \<open>\<open>Metrics.Handler\<close>: the counters, the gauge and the percentile.\<close>

definition metrics_Handler :: "metrics \<Rightarrow> answer" where
  "metrics_Handler m = MetricsPage (mtTransitions m) (mtWebhookBacklog m) (p99 m)"

text \<open>The call of a handler with what it reads of the request.\<close>

definition amount_body :: "decoders \<Rightarrow> http_request \<Rightarrow> int64 option body_in" where
  "amount_body dc r =
     (if hrContentLength r = 0 then NoBody
      else case jdAmount dc (hrBody r) of None \<Rightarrow> BadJSON | Some a \<Rightarrow> JSONBody a)"

fun handler_request :: "decoders \<Rightarrow> http_request \<Rightarrow> endpoint \<Rightarrow> string list \<Rightarrow> request option" where
  "handler_request dc r EHealthz ws = Some GetHealthz"
| "handler_request dc r EReadyz ws = Some GetReadyz"
| "handler_request dc r ECreate ws =
     Some (PostIntents (hrHeader r ''Idempotency-Key'') (jdCreate dc (hrBody r)))"
| "handler_request dc r EList ws = Some (GetPayments (hrQuery r ''status'') (hrQuery r ''rail''))"
| "handler_request dc r EGet ws = Some (GetPayment (hd ws))"
| "handler_request dc r ECapture ws =
     Some (PostCapture (hd ws) (hrHeader r ''Idempotency-Key'') (amount_body dc r))"
| "handler_request dc r EVoid ws = Some (PostVoid (hd ws) (hrHeader r ''Idempotency-Key''))"
| "handler_request dc r ERefund ws =
     Some (PostRefund (hd ws) (hrHeader r ''Idempotency-Key'') (amount_body dc r))"
| "handler_request dc r E3DS ws =
     Some (Post3DSChallenge (hd ws) (hrHeader r ''Idempotency-Key'') (jdChallenge dc (hrBody r)))"
| "handler_request dc r EWebhook ws =
     Some (PostWebhook (hd ws) (hrBody r) (hrHeader r ''X-Webhook-Signature''))"
| "handler_request dc r EMetrics ws = None"

definition mux_serve ::
  "env \<Rightarrow> decoders \<Rightarrow> http_request \<Rightarrow> ('s, 'i) service \<Rightarrow> answer \<times> ('s, 'i) service" where
  "mux_serve e dc r svc =
     (case route (hrMethod r) (hrEscaped r) of
        RouteNotFound \<Rightarrow> (NotFound, svc)
      | RouteMethodNotAllowed \<Rightarrow> (MethodNotAllowed, svc)
      | RouteRedirect p \<Rightarrow> (MovedPermanently p, svc)
      | Route h ws \<Rightarrow>
          (case handler_request dc r h ws of
             None \<Rightarrow> (metrics_Handler (svMetrics svc), svc)
           | Some req \<Rightarrow> (case serve e (jdWebhook dc) req svc of (resp, svc') \<Rightarrow> (Answered resp, svc'))))"

text \<open>\<open>NewMux\<close>: the secret of the middleware and whether it is bypassed; then the wrapped mux.\<close>

definition NewMux :: "(string \<Rightarrow> string) \<Rightarrow> bool \<Rightarrow> (string \<times> bool) startup" where
  "NewMux environ testing = SecretFromEnv environ testing"

definition mux_ServeHTTP ::
  "(bytes \<Rightarrow> bytes \<Rightarrow> bytes) \<Rightarrow> jwt_codec \<Rightarrow> string \<times> bool \<Rightarrow> time \<Rightarrow> env \<Rightarrow> decoders \<Rightarrow> http_request
     \<Rightarrow> ('s, 'i) service \<Rightarrow> answer \<times> ('s, 'i) service" where
  "mux_ServeHTTP mac jc mux now e dc r svc =
     (case Middleware mac jc (fst mux) (snd mux) now (hrPath r) (hrHeader r ''Authorization'') of
        Unauthorized msg \<Rightarrow> (Denied msg, svc)
      | Passed \<Rightarrow> mux_serve e dc r svc)"

section \<open>Request log and start-up\<close>

text \<open>
  \<open>RequestLogMiddleware\<close> around a handler that answered \<open>ans\<close>: the status is the one the
  \<open>statusWriter\<close> saw, 200 by default; a handler that panics is not logged.
\<close>

definition RequestLogMiddleware ::
  "((string \<rightharpoonup> int64 log_value) \<Rightarrow> bytes) \<Rightarrow> string \<Rightarrow> int64 logger \<Rightarrow> time \<Rightarrow> time \<Rightarrow> http_request \<Rightarrow> answer
     \<Rightarrow> bytes list \<Rightarrow> bytes list" where
  "RequestLogMiddleware marshal stamp lg start stop r ans out =
     (case status_of ans of
        None \<Rightarrow> out
      | Some status \<Rightarrow>
          log_Info marshal stamp ''http''
            [''method'' \<mapsto> LText (hrMethod r), ''path'' \<mapsto> LText (hrPath r),
             ''status'' \<mapsto> LField (of_nat status),
             ''ms'' \<mapsto> LField (word_of_int (sint (time_Sub stop start) sdiv 1000000))] lg out)"

text \<open>
  \<open>run\<close>: what it builds before it listens, and the whole of it. \<open>listen\<close> is
  \<open>http.ListenAndServe\<close>, which returns only with an error; a fatal exit while the service is
  built ends the process, and the deferred shutdown of the tracing does not run.
\<close>

definition buildServer ::
  "(nat \<Rightarrow> nat \<Rightarrow> nat \<Rightarrow> nat) \<Rightarrow> ('p, 't, 'r) platform
     \<Rightarrow> (('p, 't, 'r) wired_service \<times> int64 logger \<times> (string \<times> bool) \<times> string) startup" where
  "buildServer frac pf =
     (let cfg = FromEnv frac (pfEnv pf) in
      bind_startup (newService pf cfg) (\<lambda>(svc, lg).
      bind_startup (NewMux (pfEnv pf) (pfTesting pf)) (\<lambda>mux.
        Started (svc, lg, mux, '':'' @ cfPort cfg))))"

datatype run_result = Returned error | Exited string

definition run ::
  "('x, 'y, 'o, 'w) otel_lib \<Rightarrow> (nat \<Rightarrow> nat \<Rightarrow> nat \<Rightarrow> nat) \<Rightarrow> ('p, 't, 'r) platform
     \<Rightarrow> (('p, 't, 'r) wired_service \<times> int64 logger \<times> (string \<times> bool) \<times> string \<Rightarrow> error)
     \<Rightarrow> ('x, 'y, 'o) otel_globals \<Rightarrow> 'w \<Rightarrow> run_result \<times> ('x, 'y, 'o) otel_globals \<times> 'w" where
  "run lib frac pf listen g w =
     (case otel_Init lib (pfEnv pf) ''payment-orchestration'' g of
        (Inl err, g') \<Rightarrow> (Returned err, g', w)
      | (Inr shutdown, g') \<Rightarrow>
          (case buildServer frac pf of
             Fatal m \<Rightarrow> (Exited m, g', w)
           | Started srv \<Rightarrow> (Returned (listen srv), g', snd (otel_shutdown lib shutdown w))))"

text \<open>\<open>main\<close> is \<open>log.Fatal(run())\<close>: the text the process dies with.\<close>

definition main ::
  "('x, 'y, 'o, 'w) otel_lib \<Rightarrow> (nat \<Rightarrow> nat \<Rightarrow> nat \<Rightarrow> nat) \<Rightarrow> ('p, 't, 'r) platform
     \<Rightarrow> (('p, 't, 'r) wired_service \<times> int64 logger \<times> (string \<times> bool) \<times> string \<Rightarrow> error)
     \<Rightarrow> ('x, 'y, 'o) otel_globals \<Rightarrow> 'w \<Rightarrow> string" where
  "main lib frac pf listen g w =
     (case fst (run lib frac pf listen g w) of Returned err \<Rightarrow> error_text err | Exited m \<Rightarrow> m)"

text \<open>
  The tracing shuts down exactly when the server came up and stopped listening: a fatal exit
  leaves the library as it was, with what it had not exported yet.
\<close>

lemma run_exit_skips_shutdown:
  assumes "buildServer frac pf = Fatal m" "fst (otel_Init lib (pfEnv pf) ''payment-orchestration'' g) = Inr sd"
  shows "run lib frac pf listen g w =
    (Exited m, snd (otel_Init lib (pfEnv pf) ''payment-orchestration'' g), w)"
  using assms by (auto simp: run_def split: prod.split)

section \<open>Paths and patterns\<close>

lemma length_Split: "length (strings_Split c s) = Suc (count_list s c)"
  by (induction s) (auto split: list.splits)


lemma unescape_count:
  "unescape s = Some t \<Longrightarrow> count_list s slash \<le> count_list t slash"
proof (induction s arbitrary: t rule: length_induct)
  case (1 s)
  show ?case
  proof (cases s)
    case Nil
    with 1 show ?thesis by simp
  next
    case (Cons c cs)
    show ?thesis
    proof (cases "c = CHR ''%''")
      case True
      with 1(2) Cons obtain a b rest x y u where u:
        "cs = a # b # rest" "hex_val a = Some x" "hex_val b = Some y" "unescape rest = Some u"
        "t = char_of (16 * x + y) # u"
        by (auto split: list.splits option.splits prod.splits)
      then have "a \<noteq> slash" "b \<noteq> slash" by (auto simp: hex_val_def slash_def)
      moreover have "count_list rest slash \<le> count_list u slash" using 1(1) u Cons by simp
      ultimately show ?thesis using True u Cons by (simp add: slash_def)
    next
      case False
      with 1 Cons show ?thesis by auto
    qed
  qed
qed

lemma match_segs_length: "match_segs ps ss = Some ws \<Longrightarrow> length ss = length ps"
  by (induction ps ss arbitrary: ws rule: match_segs.induct) (auto split: if_splits)

text \<open>At most one pattern matches a request: the order of registration does not matter.\<close>

lemma patterns_unique:
  "length (List.map_filter (match_pattern m ss) patterns) \<le> 1"
proof -
  have "ss = [] \<or> (\<exists>a. ss = [a]) \<or> (\<exists>a b. ss = [a, b]) \<or> (\<exists>a b c. ss = [a, b, c]) \<or>
      (\<exists>a b c d. ss = [a, b, c, d]) \<or> (\<exists>a b c d x xs. ss = a # b # c # d # x # xs)"
    by (metis list.exhaust)
  then show ?thesis
    by (elim disjE exE) (auto simp: patterns_def List.map_filter_simps match_pattern_def)
qed

lemma cleanPath_root: "\<exists>p'. cleanPath p = slash # p'"
proof -
  have "\<exists>q. join_segs ss = slash # q" for ss by (cases ss) (simp_all add: join_segs_def)
  then show ?thesis unfolding cleanPath_def Let_def by (auto; metis append_Cons)
qed

text \<open>Only the six mutating endpoints can change the service; they need POST and three segments.\<close>

lemma route_Route:
  assumes "route m p = Route h ws"
  obtains ps ss where "(if h \<in> {EHealthz, EReadyz, EList, EGet, EMetrics} then ''GET'' else ''POST'', ps, h) \<in> set patterns"
    "m = (if h \<in> {EHealthz, EReadyz, EList, EGet, EMetrics} then ''GET'' else ''POST'') \<or>
     h \<in> {EHealthz, EReadyz, EList, EGet, EMetrics} \<and> m = ''HEAD''"
    "match_segs ps ss = Some ws" "p = slash # tl p" "ss = strings_Split slash (tl p)"
proof -
  let ?ss = "strings_Split slash (tl p)"
  have p: "cleanPath p = p" using assms by (auto simp: route_def Let_def split: if_splits)
  then have p': "p = slash # tl p" using cleanPath_root [of p] by auto
  have "(h, ws) \<in> set (List.map_filter (match_pattern m ?ss) patterns)"
    using assms p by (auto simp: route_def find_route_def Let_def split: list.splits if_splits)
  then obtain pat where pat: "pat \<in> set patterns" "match_pattern m ?ss pat = Some (h, ws)"
    by (auto simp: List.map_filter_def)
  obtain m' ps where [simp]: "pat = (m', ps, h)" using pat(2)
    by (cases pat) (auto simp: match_pattern_def split: if_splits)
  have "m' = (if h \<in> {EHealthz, EReadyz, EList, EGet, EMetrics} then ''GET'' else ''POST'')"
    using pat(1) by (auto simp: patterns_def)
  with pat p' that [of ps ?ss] show thesis
    by (auto simp: match_pattern_def split: if_splits)
qed

lemma route_mutating:
  assumes "route m p = Route h ws" "h \<notin> {EHealthz, EReadyz, EList, EGet, EMetrics}"
  shows "m = ''POST''" "3 \<le> count_list p slash"
proof -
  obtain ps ss where r: "(''POST'', ps, h) \<in> set patterns" "m = ''POST''"
    "match_segs ps ss = Some ws" "p = slash # tl p" "ss = strings_Split slash (tl p)"
    by (rule route_Route [OF assms(1)]) (use assms(2) in auto)
  have "3 \<le> length ps" using r(1) by (auto simp: patterns_def)
  then have "2 \<le> count_list (tl p) slash"
    using match_segs_length [OF r(3)] length_Split [of slash "tl p"] r(5) by simp
  moreover have "count_list p slash = Suc (count_list (tl p) slash)" by (subst r(4)) simp
  ultimately show "m = ''POST''" "3 \<le> count_list p slash" using r(2) by simp_all
qed

lemma mux_serve_cases:
  "snd (mux_serve e dc r svc) = svc \<or>
   (\<exists>h ws req. route (hrMethod r) (hrEscaped r) = Route h ws \<and> handler_request dc r h ws = Some req \<and>
      h \<notin> {EHealthz, EReadyz, EList, EGet, EMetrics} \<and>
      snd (mux_serve e dc r svc) = snd (serve e (jdWebhook dc) req svc))"
proof (cases "route (hrMethod r) (hrEscaped r)")
  case (Route h ws)
  then show ?thesis by (cases h) (auto simp: mux_serve_def case_prod_beta)
qed (simp_all add: mux_serve_def)

text \<open>A request over HTTP is a step of the running service.\<close>

lemma mux_reach:
  assumes "reach (jdWebhook dc) (\<lambda>_. True) svc0 svc" "fresh_uuid e svc"
  shows "reach (jdWebhook dc) (\<lambda>_. True) svc0 (snd (mux_ServeHTTP mac jc mux now e dc r svc))"
proof -
  have "reach (jdWebhook dc) (\<lambda>_. True) svc0 (snd (mux_serve e dc r svc))"
    using mux_serve_cases [of e dc r svc] assms by (auto intro: reach_step)
  with assms(1) show ?thesis by (simp add: mux_ServeHTTP_def split: auth_result.split)
qed

text \<open>
  C9. In production every change of the service is authenticated: a request that changes it is a
  POST that carries a bearer token signed with the secret of the environment and not expired. All
  that is assumed of the request is that its escaped path is an encoding of its path.
\<close>

theorem state_change_needs_token:
  assumes "NewMux environ False = Started mux" "environ ''DEV_MODE'' \<noteq> ''1''"
    and "unescape (hrEscaped r) = Some (hrPath r)"
    and "mux_ServeHTTP mac jc mux now e dc r svc = (ans, svc')" "svc' \<noteq> svc"
  shows "hrMethod r = ''POST'' \<and> environ ''SERVICE_TOKEN_SECRET'' \<noteq> '''' \<and>
    (\<exists>token c. hrHeader r ''Authorization'' = ''Bearer '' @ token \<and>
       token_verify mac jc token (environ ''SERVICE_TOKEN_SECRET'') = Inr c \<and>
       sint (time_UnixSec now) \<le> sint (clExp c))"
proof -
  have mux: "mux = (environ ''SERVICE_TOKEN_SECRET'', False)" "environ ''SERVICE_TOKEN_SECRET'' \<noteq> ''''"
    using assms(1,2) by (auto simp: NewMux_def SecretFromEnv_def Let_def split: if_splits)
  have passed: "Middleware mac jc (fst mux) (snd mux) now (hrPath r) (hrHeader r ''Authorization'') = Passed"
    and "snd (mux_serve e dc r svc) \<noteq> svc"
    using assms(4,5) by (auto simp: mux_ServeHTTP_def split: auth_result.splits)
  then obtain h ws where h: "route (hrMethod r) (hrEscaped r) = Route h ws"
    "h \<notin> {EHealthz, EReadyz, EList, EGet, EMetrics}" using mux_serve_cases [of e dc r svc] by blast
  note m = route_mutating [OF h]
  have "3 \<le> count_list (hrPath r) slash" using m(2) unescape_count [OF assms(3)] by simp
  then have "\<not> skipPaths (hrPath r)" by (auto simp: skipPaths_def slash_def)
  with passed mux m(1) show ?thesis
    by (auto simp: Middleware_def strings_HasPrefix_def strings_TrimPrefix_def prefix_def not_less
        split: if_splits sum.splits)
qed

text \<open>A signed POST of the example, with the decoders it needs.\<close>

definition demo_decoders :: decoders where
  "demo_decoders = \<lparr>jdCreate = (\<lambda>b. Some (demo_req RailCard 100)), jdAmount = (\<lambda>b. None),
     jdChallenge = (\<lambda>b. None), jdWebhook = demo_decode\<rparr>"

definition demo_post :: "string \<Rightarrow> (string \<times> string) list \<Rightarrow> http_request" where
  "demo_post path hs = \<lparr>hrMethod = ''POST'', hrPath = path, hrEscaped = path,
     hrHeader = (\<lambda>k. lookup_str (map_of hs) k), hrQuery = (\<lambda>k. ''''), hrBody = Some ''ev1'', hrContentLength = 3\<rparr>"

definition demo_token :: string where
  "demo_token = ''h.'' @ token_encode ''60/0/svc'' @ ''.'' @ token_encode (''s'' @ ''h.'' @ token_encode ''60/0/svc'')"

definition demo_environ :: "string \<Rightarrow> string" where
  "demo_environ k = (if k = ''SERVICE_TOKEN_SECRET'' then ''s'' else '''')"

abbreviation demo_create :: http_request where
  "demo_create \<equiv> demo_post ''/v1/payments/intents''
     [(''Idempotency-Key'', ''k1''), (''Authorization'', ''Bearer '' @ demo_token)]"

lemma demo_mux: "NewMux demo_environ False = Started (''s'', False)"
  by (simp add: NewMux_def SecretFromEnv_def demo_environ_def)

lemma demo_create_serves:
  "snd (mux_ServeHTTP (\<lambda>k m. k @ m) demo_jwt (''s'', False) 0 (demo_env ''p1'' 0) demo_decoders demo_create demo_service) =
   demo_created"
proof -
  have m: "Middleware (\<lambda>k m. k @ m) demo_jwt ''s'' False 0 ''/v1/payments/intents'' (''Bearer '' @ demo_token) = Passed"
    by code_simp
  have r: "route ''POST'' ''/v1/payments/intents'' = Route ECreate []" by code_simp
  show ?thesis
    unfolding mux_ServeHTTP_def mux_serve_def demo_created_def
    by (simp add: demo_post_def lookup_str_def m [unfolded append.simps] r demo_decoders_def case_prod_beta)
qed

theorem state_change_needs_token_witness:
  "demo_created \<noteq> demo_service \<and>
   (\<exists>c. token_verify (\<lambda>k m. k @ m) demo_jwt demo_token ''s'' = Inr c \<and> 0 \<le> sint (clExp c))"
proof -
  have "ms_intents (svStore demo_created) ''p1'' \<noteq> None" "ms_intents (svStore demo_service) ''p1'' = None"
    by code_simp+
  then have ne: "demo_created \<noteq> demo_service" by auto
  obtain ans where s: "mux_ServeHTTP (\<lambda>k m. k @ m) demo_jwt (''s'', False) 0 (demo_env ''p1'' 0) demo_decoders
      demo_create demo_service = (ans, demo_created)"
    using demo_create_serves by (metis prod.collapse)
  have u: "unescape (hrEscaped demo_create) = Some (hrPath demo_create)" by (simp add: demo_post_def)
  have "demo_environ ''DEV_MODE'' \<noteq> ''1''" by (simp add: demo_environ_def)
  from state_change_needs_token [OF demo_mux this u s ne] ne show ?thesis
    by (simp add: demo_post_def lookup_str_def demo_environ_def time_UnixSec_def)
qed

section \<open>The routes\<close>

definition plain_seg :: "string \<Rightarrow> bool" where
  "plain_seg s \<longleftrightarrow> s \<noteq> '''' \<and> s \<noteq> ''.'' \<and> s \<noteq> ''..'' \<and> slash \<notin> set s \<and> CHR ''%'' \<notin> set s"

lemma segment_plain [simp]: "plain_seg s \<Longrightarrow> segment s = s"
proof -
  have "CHR ''%'' \<notin> set s \<Longrightarrow> unescape s = Some s" by (induction s) auto
  then show "plain_seg s \<Longrightarrow> segment s = s" by (simp add: plain_seg_def segment_def pathUnescape_def)
qed

lemma plain_not_slash [simp]: "plain_seg s \<Longrightarrow> s \<noteq> [slash]"
  by (auto simp: plain_seg_def)

lemma Split_join:
  "list_all plain_seg ss \<Longrightarrow> strings_Split slash (concat (map (Cons slash) ss)) = [] # ss"
proof (induction ss)
  case (Cons s ss)
  then have s: "slash \<notin> set s" by (simp add: plain_seg_def)
  show ?case
  proof (cases "ss = []")
    case True
    with s show ?thesis by (simp add: Split_no_sep)
  next
    case False
    then obtain q where q: "concat (map (Cons slash) ss) = slash # q" by (cases ss) auto
    with Cons have "strings_Split slash q = ss" by simp
    with s show ?thesis by (simp add: q Split_append)
  qed
qed simp

lemma clean_segs: "list_all plain_seg ss \<Longrightarrow> foldl clean_step acc ss = acc @ ss"
  by (induction ss arbitrary: acc) (auto simp: clean_step_def plain_seg_def)

lemma cleanPath_plain:
  assumes "list_all plain_seg ss" "ss \<noteq> []"
  shows "cleanPath (concat (map (Cons slash) ss)) = concat (map (Cons slash) ss)"
proof -
  let ?p = "concat (map (Cons slash) ss)"
  have "plain_seg (last ss)" using assms by (simp add: list_all_iff)
  then obtain s where s: "plain_seg s" "last ss = s" by blast
  have "ss = butlast ss @ [s]" using append_butlast_last_id [OF assms(2)] s(2) by simp
  then have "?p = concat (map (Cons slash) (butlast ss @ [s]))" by simp
  then have p: "?p = concat (map (Cons slash) (butlast ss)) @ slash # s" by simp
  have "last ?p = last s" unfolding p using s(1) by (simp add: plain_seg_def)
  moreover have "last s \<in> set s" using s(1) by (simp add: plain_seg_def)
  ultimately have "last ?p \<noteq> slash" using s(1) unfolding plain_seg_def by metis
  moreover obtain q where "?p = slash # q" using assms(2) by (cases ss) auto
  moreover have "foldl clean_step [] (strings_Split slash ?p) = ss"
    using assms(1) clean_segs [of ss "[]"] by (simp add: Split_join clean_step_def)
  ultimately show ?thesis using assms(2) by (simp add: cleanPath_def join_segs_def)
qed

text \<open>The router on a path of plain segments.\<close>

lemma route_plain:
  assumes "list_all plain_seg ss" "ss \<noteq> []"
  shows "route m (concat (map (Cons slash) ss)) = find_route m ss"
proof -
  obtain q where q: "concat (map (Cons slash) ss) = slash # q" using assms(2) by (cases ss) auto
  with Split_join [OF assms(1)] have "strings_Split slash q = ss" by simp
  with cleanPath_plain [OF assms] q show ?thesis by (simp add: route_def Let_def)
qed

text \<open>
  C32. The routes: for identifiers that are plain path segments the router is exactly this table.
  A payment is read by GET or HEAD, with the identifier as written; \<open>intents\<close> is told apart from the
  payments by the method; the four actions and the webhooks take POST only; a known path with
  another method is answered 405 and an unknown action 404.
\<close>

theorem routes_exact:
  assumes "plain_seg x" "plain_seg y"
  shows "route m (''/v1/payments/'' @ x) =
      (if m = ''GET'' \<or> m = ''HEAD'' then Route EGet [x]
       else if m = ''POST'' \<and> x = ''intents'' then Route ECreate [] else RouteMethodNotAllowed) \<and>
    route m (''/v1/payments/'' @ x @ ''/'' @ y) =
      (if y \<notin> {''capture'', ''void'', ''refund'', ''3ds-challenge''} then RouteNotFound
       else if m \<noteq> ''POST'' then RouteMethodNotAllowed
       else Route (if y = ''capture'' then ECapture else if y = ''void'' then EVoid
                   else if y = ''refund'' then ERefund else E3DS) [x]) \<and>
    route m (''/v1/webhooks/'' @ x) = (if m = ''POST'' then Route EWebhook [x] else RouteMethodNotAllowed)"
proof -
  have l: "plain_seg ''v1''" "plain_seg ''payments''" "plain_seg ''webhooks''" "plain_seg ''intents''"
    "plain_seg ''capture''" "plain_seg ''void''" "plain_seg ''refund''" "plain_seg ''3ds-challenge''"
    by (simp_all add: plain_seg_def slash_def)
  note mp = find_route_def patterns_def List.map_filter_simps match_pattern_def l assms
  have "find_route m [''v1'', ''payments'', x] =
      (if m = ''GET'' \<or> m = ''HEAD'' then Route EGet [x]
       else if m = ''POST'' \<and> x = ''intents'' then Route ECreate [] else RouteMethodNotAllowed)"
    by (auto simp: mp)
  moreover have "find_route m [''v1'', ''payments'', x, y] =
      (if y \<notin> {''capture'', ''void'', ''refund'', ''3ds-challenge''} then RouteNotFound
       else if m \<noteq> ''POST'' then RouteMethodNotAllowed
       else Route (if y = ''capture'' then ECapture else if y = ''void'' then EVoid
                   else if y = ''refund'' then ERefund else E3DS) [x])"
    by (auto simp: mp)
  moreover have "find_route m [''v1'', ''webhooks'', x] =
      (if m = ''POST'' then Route EWebhook [x] else RouteMethodNotAllowed)"
    by (auto simp: mp)
  moreover have "route m (''/v1/payments/'' @ x) = find_route m [''v1'', ''payments'', x]"
    "route m (''/v1/payments/'' @ x @ ''/'' @ y) = find_route m [''v1'', ''payments'', x, y]"
    "route m (''/v1/webhooks/'' @ x) = find_route m [''v1'', ''webhooks'', x]"
    using route_plain [of "[''v1'', ''payments'', x]" m] route_plain [of "[''v1'', ''payments'', x, y]" m]
      route_plain [of "[''v1'', ''webhooks'', x]" m] l assms by (simp_all add: slash_def)
  ultimately show ?thesis by (simp only: simp_thms)
qed

theorem routes_exact_witness:
  "route ''POST'' ''/v1/payments/p1/capture'' = Route ECapture [''p1''] \<and>
   route ''DELETE'' ''/v1/payments/p1'' = RouteMethodNotAllowed"
  using routes_exact [of "''p1''" "''capture''" "''POST''"] routes_exact [of "''p1''" "''capture''" "''DELETE''"]
  by (simp add: plain_seg_def slash_def)

text \<open>
  The README calls the webhook endpoints public and gated by their signature. They are behind
  the bearer-token middleware: in production a webhook without an \<open>Authorization\<close> header is
  answered 401 and changes nothing, whatever its signature.
\<close>

lemma webhook_needs_bearer:
  assumes "NewMux environ False = Started mux" "environ ''DEV_MODE'' \<noteq> ''1''"
    and "hrPath r = ''/v1/webhooks/'' @ rail" "hrHeader r ''Authorization'' = ''''"
  shows "mux_ServeHTTP mac jc mux now e dc r svc =
    (Denied ''missing or malformed Authorization header'', svc)"
proof -
  have "snd mux = False"
    using assms(1,2) by (auto simp: NewMux_def SecretFromEnv_def Let_def split: if_splits)
  with assms(3,4) show ?thesis
    by (simp add: mux_ServeHTTP_def Middleware_def skipPaths_def strings_HasPrefix_def)
qed

lemma webhook_needs_bearer_witness:
  "fst (serve (demo_env ''p3'' 200) demo_decode
       (PostWebhook ''card'' (Some ''ev1'') (hex_EncodeToString ''sev1'')) demo_captured) = Some received \<and>
   mux_ServeHTTP (\<lambda>k m. k @ m) demo_jwt (''s'', False) 0 (demo_env ''p3'' 200) demo_decoders
     (demo_post ''/v1/webhooks/card'' [(''X-Webhook-Signature'', hex_EncodeToString ''sev1'')]) demo_captured =
   (Denied ''missing or malformed Authorization header'', demo_captured)"
proof (intro conjI webhook_needs_bearer [OF demo_mux, where rail = "''card''"])
  show "fst (serve (demo_env ''p3'' 200) demo_decode
       (PostWebhook ''card'' (Some ''ev1'') (hex_EncodeToString ''sev1'')) demo_captured) = Some received"
    by code_simp
qed (simp_all add: demo_environ_def demo_post_def lookup_str_def)

end
