(* ===== verification/Threads.thy ===== *)
theory Threads
  imports Prelude "HOL-Library.Multiset"
begin

text \<open>
  Requests as threads. net/http serves every request in a goroutine of its own; between two
  calls that take a lock (of the store, the idempotency store, the audit sink, the metrics) any
  other goroutine may run. A thread is a resumption: it has returned, or its next step reads and
  changes the shared state under a lock and says how the thread goes on. This theory has nothing
  of the service in it: threads, their sequential composition, a pool of them with the
  interleaving of their steps, and the rule that proves an invariant of the shared state from
  the steps of one thread at a time.
\<close>

section \<open>Threads\<close>

datatype ('r, 'st) proc = Done 'r | Step "'st \<Rightarrow> ('r, 'st) proc \<times> 'st"

text \<open>A thread that runs alone.\<close>

primrec run_proc :: "('r, 'st) proc \<Rightarrow> 'st \<Rightarrow> 'r \<times> 'st" where
  "run_proc (Done r) = (\<lambda>s. (r, s))"
| "run_proc (Step f) = (\<lambda>s. case map_prod run_proc id (f s) of (g, s') \<Rightarrow> g s')"

primrec bind_proc :: "('a, 'st) proc \<Rightarrow> ('a \<Rightarrow> ('b, 'st) proc) \<Rightarrow> ('b, 'st) proc" where
  "bind_proc (Done r) k = k r"
| "bind_proc (Step f) k = Step (\<lambda>s. map_prod (\<lambda>p. bind_proc p k) id (f s))"

text \<open>A step that changes the state and has no result.\<close>

definition then_do :: "('st \<Rightarrow> 'st) \<Rightarrow> ('r, 'st) proc \<Rightarrow> ('r, 'st) proc" where
  "then_do f p = Step (\<lambda>s. (p, f s))"

fun returned :: "('r, 'st) proc \<Rightarrow> 'r option" where
  "returned (Done r) = Some r"
| "returned (Step f) = None"

lemma run_Step [simp]: "run_proc (Step f) s = (case f s of (p, s') \<Rightarrow> run_proc p s')"
  by (simp add: case_prod_beta)

declare run_proc.simps(2) [simp del]

lemma run_then_do [simp]: "run_proc (then_do f p) s = run_proc p (f s)"
  by (simp add: then_do_def)

lemma run_bind [simp]:
  "run_proc (bind_proc p k) s = (case run_proc p s of (r, s') \<Rightarrow> run_proc (k r) s')"
proof (induction p arbitrary: s)
  case (Step f)
  obtain p s' where f: "f s = (p, s')" by fastforce
  then have "\<exists>x. (p, s') = f x" by metis
  with Step.IH [of "f s" p s'] f show ?case by (simp add: image_iff)
qed simp

section \<open>How many steps a thread has left\<close>

inductive at_most :: "nat \<Rightarrow> ('r, 'st) proc \<Rightarrow> bool" where
  at_most_Done: "at_most n (Done r)"
| at_most_Step: "(\<And>s p s'. f s = (p, s') \<Longrightarrow> at_most n p) \<Longrightarrow> at_most (Suc n) (Step f)"

inductive_simps at_most_Step_iff: "at_most n (Step f)"

lemma at_most_mono: "at_most n p \<Longrightarrow> n \<le> m \<Longrightarrow> at_most m p"
proof (induction n p arbitrary: m rule: at_most.induct)
  case (at_most_Step f n)
  then obtain m' where "m = Suc m'" "n \<le> m'" by (cases m) auto
  with at_most_Step show ?case by (auto intro: at_most.at_most_Step)
qed (rule at_most_Done)

lemma at_most_then_do: "at_most n p \<Longrightarrow> at_most (Suc n) (then_do f p)"
  by (auto simp: then_do_def intro: at_most_Step)

lemma at_most_bind:
  "at_most n p \<Longrightarrow> (\<And>r. at_most m (k r)) \<Longrightarrow> at_most (n + m) (bind_proc p k)"
proof (induction n p rule: at_most.induct)
  case (at_most_Done n r)
  then show ?case by (simp add: at_most_mono [of m])
next
  case (at_most_Step f n)
  show ?case
    unfolding bind_proc.simps add_Suc
  proof (rule at_most.at_most_Step)
    fix s p s'
    assume "map_prod (\<lambda>p. bind_proc p k) id (f s) = (p, s')"
    then have "p = bind_proc (fst (f s)) k" by (cases "f s") simp
    with at_most_Step.IH [of s "fst (f s)" "snd (f s)"] at_most_Step.prems
    show "at_most (n + m) p" by simp
  qed
qed

section \<open>Pools of threads\<close>

type_synonym ('r, 'st) threads = "'st \<times> ('r, 'st) proc list"

inductive tick :: "('r, 'st) threads \<Rightarrow> ('r, 'st) threads \<Rightarrow> bool" where
  tick: "k < length ts \<Longrightarrow> ts ! k = Step f \<Longrightarrow> f s = (p, s') \<Longrightarrow> tick (s, ts) (s', ts[k := p])"

inductive_cases tickE: "tick c c'"

definition quiescent :: "('r, 'st) threads \<Rightarrow> bool" where
  "quiescent c = list_all (\<lambda>p. returned p \<noteq> None) (snd c)"

text \<open>One step of thread \<open>k\<close>, and a schedule of steps; a thread that has returned does not move.\<close>

definition tick_at :: "nat \<Rightarrow> ('r, 'st) threads \<Rightarrow> ('r, 'st) threads" where
  "tick_at k c =
     (case c of (s, ts) \<Rightarrow>
        (if k < length ts
         then (case ts ! k of
                 Done r \<Rightarrow> c
               | Step f \<Rightarrow> (case f s of (p, s') \<Rightarrow> (s', ts[k := p])))
         else c))"

definition schedule :: "nat list \<Rightarrow> ('r, 'st) threads \<Rightarrow> ('r, 'st) threads" where
  "schedule ks c = fold tick_at ks c"

lemma tick_at_tick: "tick_at k c = c \<or> tick c (tick_at k c)"
  by (auto simp: tick_at_def split: prod.split proc.split intro: tick.intros)

lemma schedule_tick: "tick\<^sup>*\<^sup>* c (schedule ks c)"
proof (induction ks arbitrary: c)
  case (Cons k ks)
  have "tick\<^sup>*\<^sup>* c (tick_at k c)" using tick_at_tick [of k c] by auto
  with Cons [of "tick_at k c"] show ?case by (simp add: schedule_def)
qed (simp add: schedule_def)

lemma tick_progress: "quiescent c \<or> (\<exists>c'. tick c c')"
proof (rule disjCI)
  assume no: "\<nexists>c'. tick c c'"
  obtain s ts where c: "c = (s, ts)" by fastforce
  have "returned p \<noteq> None" if "p \<in> set ts" for p
  proof (cases p)
    case (Step f)
    from that obtain k where k: "k < length ts" "ts ! k = p" by (auto simp: in_set_conv_nth)
    obtain p' s' where "f s = (p', s')" by fastforce
    with tick [OF k(1)] k(2) Step no c show ?thesis by blast
  qed simp
  with c show "quiescent c" by (simp add: quiescent_def list_all_iff)
qed

text \<open>
  Every step uses up one of the steps its thread has left, so a pool in which no new thread
  starts comes to rest after at most as many steps as its threads have left together.
\<close>

lemma tick_rank:
  assumes "tick (s, ts) (s', ts')" "list_all2 at_most ns ts"
  shows "\<exists>ns'. list_all2 at_most ns' ts' \<and> Suc (sum_list ns') = sum_list ns"
  using assms(1)
proof (cases rule: tick.cases)
  case (tick k f p)
  have len: "length ns = length ts" using assms(2) by (simp add: list_all2_lengthD)
  have "at_most (ns ! k) (Step f)" using list_all2_nthD2 [OF assms(2) tick(2)] tick(3) by simp
  then obtain n where n: "ns ! k = Suc n" "at_most n p" using tick(4) by (auto simp: at_most_Step_iff)
  have "sum_list (ns[k := n]) + Suc n = sum_list ns + n"
    using sum_list_update [of k ns n] elem_le_sum_list [of k ns] len tick(2) n(1) by simp
  then show ?thesis
    using assms(2) n(2) tick(1) by (intro exI [of _ "ns[k := n]"]) (simp add: list_all2_update_cong)
qed

lemma ticks_bounded:
  assumes "(tick ^^ n) (s, ts) (s', ts')" "list_all2 at_most ns ts"
  shows "n \<le> sum_list ns"
  using assms
proof (induction n arbitrary: s ts ns)
  case (Suc n)
  obtain s1 ts1 where t: "tick (s, ts) (s1, ts1)" "(tick ^^ n) (s1, ts1) (s', ts')"
    using relpowp_Suc_D2 [OF Suc.prems(1)] by auto
  from tick_rank [OF t(1) Suc.prems(2)] obtain ns' where
    ns': "list_all2 at_most ns' ts1" "Suc (sum_list ns') = sum_list ns" by blast
  from Suc.IH [OF t(2) ns'(1)] ns'(2) show ?case by simp
qed simp

section \<open>Invariants of the shared state\<close>

text \<open>
  What a thread owes or has reserved between two of its steps is a multiset of ghosts.
  \<open>J u s D\<close> is the invariant: \<open>D\<close> is what all threads together owe, \<open>u\<close> what is known of the
  arrivals so far. A thread is safe with the ghosts \<open>d\<close> when every step it takes, whatever the
  others owe, re-establishes the invariant with its own ghosts changed to some \<open>d'\<close> with which
  the rest of it is safe, and when it returns with a result and ghosts that satisfy \<open>Q\<close>.
\<close>

inductive safe ::
  "('u \<Rightarrow> 'st \<Rightarrow> 'g multiset \<Rightarrow> bool) \<Rightarrow> ('r \<Rightarrow> 'g multiset \<Rightarrow> bool) \<Rightarrow> 'g multiset
     \<Rightarrow> ('r, 'st) proc \<Rightarrow> bool"
  for J Q where
  safe_Done: "Q r d \<Longrightarrow> safe J Q d (Done r)"
| safe_Step: "(\<And>u s D p s'. J u s (D + d) \<Longrightarrow> f s = (p, s') \<Longrightarrow> \<exists>d'. J u s' (D + d') \<and> safe J Q d' p)
    \<Longrightarrow> safe J Q d (Step f)"

inductive_simps safe_Done_iff [simp]: "safe J Q d (Done r)"
inductive_simps safe_Step_iff: "safe J Q d (Step f)"

lemma safe_StepI:
  assumes "\<And>u s D. J u s (D + d) \<Longrightarrow> \<exists>d'. J u (snd (f s)) (D + d') \<and> safe J Q d' (fst (f s))"
  shows "safe J Q d (Step f)"
  using assms by (intro safe_Step) (metis fst_conv snd_conv)

lemma safe_then_do:
  assumes "\<And>u s D. J u s (D + d) \<Longrightarrow> J u (f s) (D + d')" "safe J Q d' p"
  shows "safe J Q d (then_do f p)"
  using assms unfolding then_do_def by (intro safe_StepI) auto

lemma safe_bind:
  assumes "safe J Q d p" and "\<And>r d'. Q r d' \<Longrightarrow> safe J R d' (k r)"
  shows "safe J R d (bind_proc p k)"
  using assms(1)
proof (induction rule: safe.induct)
  case (safe_Step d f)
  show ?case
    unfolding bind_proc.simps
  proof (rule safe_StepI)
    fix u s D
    assume J: "J u s (D + d)"
    obtain p s' where f: "f s = (p, s')" by fastforce
    from safe_Step [OF J f] f
    show "\<exists>d'. J u (snd (map_prod (\<lambda>p. bind_proc p k) id (f s))) (D + d') \<and>
        safe J R d' (fst (map_prod (\<lambda>p. bind_proc p k) id (f s)))" by auto
  qed
qed (simp add: assms(2))

text \<open>A ghost the thread gives up before its first step.\<close>

lemma safe_drop:
  assumes "safe J Q {#} (Step f)" and "\<And>u s D. J u s (D + d) \<Longrightarrow> J u s D"
  shows "safe J Q d (Step f)"
proof (rule safe_Step)
  fix u s D p s'
  assume "J u s (D + d)" "f s = (p, s')"
  with assms(2) assms(1) [unfolded safe_Step_iff]
  show "\<exists>d'. J u s' (D + d') \<and> safe J Q d' p" by (metis add.right_neutral)
qed

text \<open>The invariant of a pool: its threads are safe with ghosts that add up.\<close>

abbreviation settled_up :: "'r \<Rightarrow> 'g multiset \<Rightarrow> bool" where
  "settled_up r d \<equiv> d = {#}"

definition pool_inv ::
  "('u \<Rightarrow> 'st \<Rightarrow> 'g multiset \<Rightarrow> bool) \<Rightarrow> 'u \<Rightarrow> ('r, 'st) threads \<Rightarrow> bool" where
  "pool_inv J u c \<longleftrightarrow> (\<exists>ds. list_all2 (safe J settled_up) ds (snd c) \<and> J u (fst c) (sum_list ds))"

lemma sum_list_split_at:
  fixes ds :: "'g multiset list"
  assumes "k < length ds"
  shows "\<exists>D. \<forall>d. sum_list (ds[k := d]) = D + d"
  using assms
  by (intro exI [of _ "sum_list (take k ds) + sum_list (drop (Suc k) ds)"])
     (simp add: upd_conv_take_nth_drop ac_simps)

lemma pool_inv_start: "J u s {#} \<Longrightarrow> pool_inv J u (s, [])"
  by (auto simp: pool_inv_def)

lemma pool_inv_tick:
  assumes inv: "pool_inv J u c" and t: "tick c c'"
  shows "pool_inv J u c'"
  using t
proof (cases rule: tick.cases)
  case (tick k ts f s p s')
  from inv tick(1) obtain ds where ds: "list_all2 (safe J settled_up) ds ts" "J u s (sum_list ds)"
    by (auto simp: pool_inv_def)
  have len: "k < length ds" using ds(1) tick(3) by (simp add: list_all2_lengthD)
  obtain D where D: "\<And>d. sum_list (ds[k := d]) = D + d" using sum_list_split_at [OF len] by blast
  have "safe J settled_up (ds ! k) (Step f)" using list_all2_nthD [OF ds(1) len] tick(4) by simp
  moreover have "J u s (D + ds ! k)" using D [of "ds ! k"] ds(2) by simp
  ultimately obtain d' where d': "J u s' (D + d')" "safe J settled_up d' p"
    using tick(5) unfolding safe_Step_iff by blast
  have "list_all2 (safe J settled_up) (ds[k := d']) (ts[k := p])"
    using ds(1) d'(2) by (simp add: list_all2_update_cong)
  with d'(1) D tick(2) show ?thesis by (auto simp: pool_inv_def intro!: exI [of _ "ds[k := d']"])
qed

lemma pool_inv_arrive:
  assumes inv: "pool_inv J u (s, ts)" and p: "safe J settled_up d p"
    and J: "\<And>D. J u s D \<Longrightarrow> J u' s (D + d)"
  shows "pool_inv J u' (s, ts @ [p])"
proof -
  from inv obtain ds where ds: "list_all2 (safe J settled_up) ds ts" "J u s (sum_list ds)"
    by (auto simp: pool_inv_def)
  from J [OF ds(2)] p ds(1) show ?thesis
    by (auto simp: pool_inv_def intro!: exI [of _ "ds @ [d]"] list_all2_appendI)
qed

text \<open>Once every thread has returned, nothing is owed.\<close>

lemma pool_inv_quiescent:
  assumes "pool_inv J u c" "quiescent c"
  shows "J u (fst c) {#}"
proof -
  from assms(1) obtain ds where ds: "list_all2 (safe J settled_up) ds (snd c)" "J u (fst c) (sum_list ds)"
    by (auto simp: pool_inv_def)
  have "d = {#}" if "d \<in> set ds" for d
  proof -
    from that obtain k where k: "k < length ds" "d = ds ! k" by (auto simp: in_set_conv_nth)
    then have k': "k < length (snd c)" using ds(1) by (simp add: list_all2_lengthD)
    from assms(2) k' obtain r where "snd c ! k = Done r"
      by (cases "snd c ! k") (auto simp: quiescent_def list_all_length)
    with list_all2_nthD [OF ds(1) k(1)] k(2) show ?thesis by simp
  qed
  then have "sum_list ds = {#}" by (induction ds) simp_all
  with ds(2) show ?thesis by simp
qed

end
