(* ===== verification/Concurrent.thy ===== *)
theory Concurrent
  imports System Threads
begin

text \<open>
  The endpoints as threads: the handlers of \<open>internal/api/handlers.go\<close> cut at every call that
  takes a lock, so that requests interleave the way the goroutines of net/http do. A definition
  \<open>..._proc\<close> has the lines of its sequential namesake in the theories \<open>Service\<close>, \<open>Payments\<close> and
  \<open>Webhooks\<close>; run alone, it is that definition (\<open>serve_proc_run\<close>).

  One step is one call: of the store (\<open>UpdateIntent\<close> runs its callback under the lock of the
  store or of the row, with the audit events and counters of the callback), of the idempotency
  store or cache, of the audit sink together with its counter, of a gauge. The fields of the
  service that are set before the server starts (adapters, clients, keys) are read along the way.
  A response body is the value at the step that produced it.
\<close>

section \<open>The replay wrapper\<close>

definition answer :: "hres \<Rightarrow> response option" where
  "answer r =
     (case r of HPanic \<Rightarrow> None | HRet st v \<Rightarrow> Some \<lparr>rsStatus = st, rsReplay = False, rsBody = v\<rparr>)"

definition replayOrContinueStore_proc ::
  "env \<Rightarrow> ('i, body) idem_iface \<Rightarrow> string \<Rightarrow> string \<Rightarrow> (hres, ('s, 'i) service) proc
     \<Rightarrow> (response option, ('s, 'i) service) proc" where
  "replayOrContinueStore_proc e J endpoint key handle =
     (if key = '''' then bind_proc handle (\<lambda>r. Done (answer r))
      else
        let scoped = idemKey endpoint key in
        Step (\<lambda>svc. case id_LookupResponse J (envNow e 0) scoped (svIdem svc) of
            (Inl err, m1) \<Rightarrow>
              (Done (Some (respondError 500 ''idempotency lookup failed'')), svc\<lparr>svIdem := m1\<rparr>)
          | (Inr (Some ent), m1) \<Rightarrow>
              (Done (Some \<lparr>rsStatus = enStatus ent, rsReplay = True, rsBody = enBody ent\<rparr>),
               svc\<lparr>svIdem := m1\<rparr>)
          | (Inr None, m1) \<Rightarrow>
              (Step (\<lambda>svc. case id_Claim J (envNow e 1) scoped (svIdemTTL svc) (svIdem svc) of
                   (Inl err, m2) \<Rightarrow>
                     (Done (Some (respondError 500 ''idempotency claim failed'')), svc\<lparr>svIdem := m2\<rparr>)
                 | (Inr False, m2) \<Rightarrow>
                     (Done (Some (respondError 409 ''idempotency key in flight'')), svc\<lparr>svIdem := m2\<rparr>)
                 | (Inr True, m2) \<Rightarrow>
                     (bind_proc handle
                        (\<lambda>r. case r of
                           HPanic \<Rightarrow> Done None
                         | HRet st v \<Rightarrow>
                             then_do (\<lambda>svc. svc\<lparr>svIdem :=
                                 snd (id_StoreResponse J (envNow e 2) scoped
                                        \<lparr>enStatus = st, enBody = v\<rparr> (svIdemTTL svc) (svIdem svc))\<rparr>)
                               (Done (answer r))),
                      svc\<lparr>svIdem := m2\<rparr>)),
               svc\<lparr>svIdem := m1\<rparr>)))"

definition replayOrContinue_proc ::
  "env \<Rightarrow> string \<Rightarrow> string \<Rightarrow> (hres, ('s, 'i) service) proc
     \<Rightarrow> (response option, ('s, 'i) service) proc" where
  "replayOrContinue_proc e endpoint key handle =
     Step (\<lambda>svc. case svIdemI svc of
         Some J \<Rightarrow> (replayOrContinueStore_proc e J endpoint key handle, svc)
       | None \<Rightarrow>
           (case lookupIdem (envNow e 0) endpoint key svc of
              (Some (st, b), svc1) \<Rightarrow>
                (Done (Some \<lparr>rsStatus = st, rsReplay = True, rsBody = b\<rparr>), svc1)
            | (None, svc1) \<Rightarrow>
                (bind_proc handle
                   (\<lambda>r. case r of
                      HPanic \<Rightarrow> Done None
                    | HRet st v \<Rightarrow>
                        then_do (saveIdem (envNow e 2) endpoint key st v) (Done (answer r))),
                 svc1)))"

section \<open>Payment endpoints\<close>

definition createFailed_proc ::
  "env \<Rightarrow> string \<Rightarrow> string \<Rightarrow> nat \<Rightarrow> string \<Rightarrow> intent \<Rightarrow> (hres, ('s, 'i) service) proc" where
  "createFailed_proc e detail emitDetail status msg i =
     (let i' = snd (transAt e 5 StatusFailed detail i) in
      then_do (storeOp (\<lambda>I. st_CreateIntent I i'))
        (then_do (emitSvcAt e 7 i' StatusIntent StatusFailed emitDetail)
          (Done (HRet status (Some (BError msg))))))"

definition create3DS_proc :: "env \<Rightarrow> intent \<Rightarrow> (hres, ('s, 'i) service) proc" where
  "create3DS_proc e i =
     (case transAt e 5 Status3DSPending ''3ds challenge required'' i of
        (Some err, i') \<Rightarrow> Done (HRet 500 (Some (BError (error_text err))))
      | (None, i') \<Rightarrow>
          then_do (storeOp (\<lambda>I. st_CreateIntent I i'))
            (then_do (emitSvcAt e 7 i' StatusIntent Status3DSPending ''3ds required'')
              (Done (HRet 201 (Some (BIntent i'))))))"

definition createInstant_proc ::
  "env \<Rightarrow> adapter option \<Rightarrow> intent \<Rightarrow> (hres, ('s, 'i) service) proc" where
  "createInstant_proc e adapter i =
     (case adapter of
        None \<Rightarrow> Done HPanic
      | Some a \<Rightarrow>
          (case ad_Submit a i of
             (Some err, i1) \<Rightarrow>
               createFailed_proc e (''submit failed: '' @ error_text err) (error_text err)
                 502 ''submit failed'' i1
           | (None, i1) \<Rightarrow>
               (case transAt e 5 StatusAuthorized ''instant rail authorized via submit'' i1 of
                  (Some err, i2) \<Rightarrow> Done (HRet 500 (Some (BError (error_text err))))
                | (None, i2) \<Rightarrow>
                    then_do (emitSvcAt e 7 i2 StatusIntent StatusAuthorized ''instant authorize'')
                      (case transAt e 9 StatusCaptured ''instant rail captured via submit'' i2 of
                         (Some err, i3) \<Rightarrow> Done (HRet 500 (Some (BError (error_text err))))
                       | (None, i3) \<Rightarrow>
                           then_do (storeOp (\<lambda>I. st_CreateIntent I i3))
                             (then_do (storeOp (\<lambda>I. st_AddCapture I
                                  \<lparr>caID = envUUID e 1, caIntentID = iID i3,
                                   caAmount = iCapturedAmount i3, caExternalRef = iExternalID i3,
                                   caCapturedAt = envNow e 11\<rparr>))
                               (then_do (emitSvcAt e 12 i3 StatusAuthorized StatusCaptured
                                    ''instant submit'')
                                 (Done (HRet 201 (Some (BIntent i3))))))))))"

definition createAuthorize_proc ::
  "env \<Rightarrow> adapter option \<Rightarrow> intent \<Rightarrow> (hres, ('s, 'i) service) proc" where
  "createAuthorize_proc e adapter i =
     (case adapter of
        None \<Rightarrow> Done HPanic
      | Some a \<Rightarrow>
          (case ad_Authorize a i of
             (Some err, i1) \<Rightarrow>
               createFailed_proc e (''authorize failed: '' @ error_text err) (error_text err)
                 502 ''authorize failed'' i1
           | (None, i1) \<Rightarrow>
               (case transAt e 5 StatusAuthorized ''authorized by rail'' i1 of
                  (Some err, i2) \<Rightarrow> Done (HRet 500 (Some (BError (error_text err))))
                | (None, i2) \<Rightarrow>
                    then_do (storeOp (\<lambda>I. st_CreateIntent I i2))
                      (then_do (emitSvcAt e 7 i2 StatusIntent StatusAuthorized ''authorized'')
                        (Done (HRet 201 (Some (BIntent i2))))))))"

definition createHandle_proc ::
  "env \<Rightarrow> string \<Rightarrow> createIntentReq \<Rightarrow> (hres, ('s, 'i) service) proc" where
  "createHandle_proc e key req =
     Step (\<lambda>svc.
       (let i = newIntent e key req;
            adapter = Registry_For (svRails svc) (ciRail req)
        in if ciThreeDSRequired req then create3DS_proc e i
           else
             (case fr_Score (svFraud svc) i of
                Inl err \<Rightarrow>
                  createFailed_proc e (''fraud check failed: '' @ error_text err) (error_text err)
                    502 ''fraud check failed'' i
              | Inr dec \<Rightarrow>
                  (if \<not> dcAllowed dec
                   then createFailed_proc e (''blocked by fraud: '' @ dcReason dec)
                          ''fraud blocked'' 403 ''intent blocked by fraud detection'' i
                   else if IsInstant (ciRail req) then createInstant_proc e adapter i
                   else createAuthorize_proc e adapter i)),
        svc))"

definition CreateIntent_proc ::
  "env \<Rightarrow> string \<Rightarrow> createIntentReq option \<Rightarrow> (response option, ('s, 'i) service) proc" where
  "CreateIntent_proc e key body =
     (if key = '''' then Done (Some (respondError 400 ''Idempotency-Key header is required''))
      else
        (case body of
           None \<Rightarrow> Done (Some (respondError 400 ''invalid JSON body''))
         | Some req \<Rightarrow>
             (case createInvalid req of
                Some msg \<Rightarrow> Done (Some (respondError 400 msg))
              | None \<Rightarrow>
                  bind_proc (replayOrContinue_proc e ''create'' key (createHandle_proc e key req))
                    (\<lambda>r. case r of
                       None \<Rightarrow> Done None
                     | Some resp \<Rightarrow>
                         then_do (\<lambda>svc. svc\<lparr>svMetrics :=
                             ObserveIntentCreation (time_Sub (envNow e 14) (envNow e 3))
                               (svMetrics svc)\<rparr>)
                           (Done (Some resp))))))"

definition captureHandle_proc ::
  "env \<Rightarrow> int64 option \<Rightarrow> string \<Rightarrow> (hres, ('s, 'i) service) proc" where
  "captureHandle_proc e reqAmount iid =
     Step (\<lambda>svc. case updateIntent (envNow e 9) iid (captureFn e (svRails svc) reqAmount) svc of
         (UpdPanic, w, svc1) \<Rightarrow> (Done HPanic, svc1)
       | (UpdErr err, w, svc1) \<Rightarrow> (then_do (addCapture w) (Done (captureErr err)), svc1)
       | (UpdOk i, w, svc1) \<Rightarrow> (then_do (addCapture w) (Done (HRet 200 (Some (BIntent i)))), svc1))"

definition Capture_proc ::
  "env \<Rightarrow> string \<Rightarrow> string \<Rightarrow> int64 option body_in \<Rightarrow> (response option, ('s, 'i) service) proc" where
  "Capture_proc e iid key body =
     (case body of
        BadJSON \<Rightarrow> Done (Some (respondError 400 ''invalid JSON body''))
      | NoBody \<Rightarrow> replayOrContinue_proc e (''capture:'' @ iid) key (captureHandle_proc e None iid)
      | JSONBody amt \<Rightarrow>
          replayOrContinue_proc e (''capture:'' @ iid) key (captureHandle_proc e amt iid))"

definition voidHandle_proc :: "env \<Rightarrow> string \<Rightarrow> (hres, ('s, 'i) service) proc" where
  "voidHandle_proc e iid =
     Step (\<lambda>svc. case updateIntent (envNow e 9) iid (voidFn e (svRails svc)) svc of
         (UpdPanic, w, svc1) \<Rightarrow> (Done HPanic, svc1)
       | (UpdErr err, w, svc1) \<Rightarrow> (Done (voidErr err), svc1)
       | (UpdOk i, w, svc1) \<Rightarrow> (Done (HRet 200 (Some (BIntent i))), svc1))"

definition Void_proc :: "env \<Rightarrow> string \<Rightarrow> string \<Rightarrow> (response option, ('s, 'i) service) proc" where
  "Void_proc e iid key = replayOrContinue_proc e (''void:'' @ iid) key (voidHandle_proc e iid)"

definition refundHandle_proc ::
  "env \<Rightarrow> int64 option \<Rightarrow> string \<Rightarrow> (hres, ('s, 'i) service) proc" where
  "refundHandle_proc e reqAmount iid =
     Step (\<lambda>svc. case updateIntent (envNow e 11) iid (refundFn e (svRails svc) reqAmount) svc of
         (UpdPanic, w, svc1) \<Rightarrow> (Done HPanic, svc1)
       | (UpdErr err, w, svc1) \<Rightarrow> (then_do (addRefund w) (Done (refundErr err)), svc1)
       | (UpdOk i, w, svc1) \<Rightarrow> (then_do (addRefund w) (Done (HRet 200 (Some (BIntent i)))), svc1))"

definition Refund_proc ::
  "env \<Rightarrow> string \<Rightarrow> string \<Rightarrow> int64 option body_in \<Rightarrow> (response option, ('s, 'i) service) proc" where
  "Refund_proc e iid key body =
     (case body of
        BadJSON \<Rightarrow> Done (Some (respondError 400 ''invalid JSON body''))
      | NoBody \<Rightarrow> replayOrContinue_proc e (''refund:'' @ iid) key (refundHandle_proc e None iid)
      | JSONBody amt \<Rightarrow>
          replayOrContinue_proc e (''refund:'' @ iid) key (refundHandle_proc e amt iid))"

definition threeDSHandle_proc ::
  "env \<Rightarrow> string \<Rightarrow> string \<Rightarrow> (hres, ('s, 'i) service) proc" where
  "threeDSHandle_proc e result iid =
     Step (\<lambda>svc. case updateIntent (envNow e 9) iid
             (threeDSFn e (svReplayWindow svc) (svMPI svc) (svRails svc) result) svc of
         (UpdPanic, w, svc1) \<Rightarrow> (Done HPanic, svc1)
       | (UpdErr err, w, svc1) \<Rightarrow> (Done (threeDSErr err), svc1)
       | (UpdOk i, w, svc1) \<Rightarrow> (Done (HRet 200 (Some (BIntent i))), svc1))"

definition ThreeDSChallenge_proc ::
  "env \<Rightarrow> string \<Rightarrow> string \<Rightarrow> string option \<Rightarrow> (response option, ('s, 'i) service) proc" where
  "ThreeDSChallenge_proc e iid key body =
     (case body of
        None \<Rightarrow> Done (Some (respondError 400 ''invalid JSON body''))
      | Some result \<Rightarrow>
          replayOrContinue_proc e (''3ds:'' @ iid) key (threeDSHandle_proc e result iid))"

section \<open>Webhooks\<close>

text \<open>\<open>UpdateIntent\<close> in a webhook handler, whose result decides the response.\<close>

definition webhookUpdate_proc ::
  "time \<Rightarrow> string \<Rightarrow> fx callback \<Rightarrow> (response, ('s, 'i) service) proc" where
  "webhookUpdate_proc t iid fn =
     Step (\<lambda>svc. case updateIntent t iid fn svc of (r, w, svc1) \<Rightarrow> (Done (webhookResult r), svc1))"

definition handleSettlementWebhook_proc ::
  "env \<Rightarrow> rail \<Rightarrow> webhookBody \<Rightarrow> (response, ('s, 'i) service) proc" where
  "handleSettlementWebhook_proc e rail wb =
     Step (\<lambda>svc. case updateIntent (envNow e 13) (wbPaymentID wb) (settlementFn e rail wb) svc of
         (r, w, svc1) \<Rightarrow> (then_do (addSettlement w) (Done (webhookResult r)), svc1))"

definition chargebackNew_proc ::
  "env \<Rightarrow> rail \<Rightarrow> webhookBody \<Rightarrow> chargeback_stage \<Rightarrow> (response, ('s, 'i) service) proc" where
  "chargebackNew_proc e rail wb stage =
     (let cb = \<lparr>cbID = envUUID e 1, cbIntentID = wbPaymentID wb, cbAmount = wbAmount wb,
                cbReason = wbReason wb, cbStage = stage, cbCaseRef = wbCaseRef wb,
                cbCreatedAt = envNow e 4, cbUpdatedAt = envNow e 5\<rparr>
      in then_do (storeOp (\<lambda>I. st_AddChargeback I cb))
           (if stage = StageOpened
            then webhookUpdate_proc (envNow e 10) (wbPaymentID wb) (chargebackOpenedFn e rail)
            else Done received))"

definition chargebackKnown_proc ::
  "env \<Rightarrow> webhookBody \<Rightarrow> chargeback_stage \<Rightarrow> (response, ('s, 'i) service) proc" where
  "chargebackKnown_proc e wb stage =
     then_do (storeOp (\<lambda>I s. snd (st_UpdateChargeback I (envNow e 5) (envOrder e) (wbCaseRef wb)
                (\<lambda>c. (None, c\<lparr>cbStage := stage, cbUpdatedAt := envNow e 4\<rparr>)) s)))
       (if stage = StageReversal
        then webhookUpdate_proc (envNow e 10) (wbPaymentID wb) (reversalFn e wb)
        else Done received)"

definition handleChargebackWebhook_proc ::
  "env \<Rightarrow> rail \<Rightarrow> webhookBody \<Rightarrow> (response, ('s, 'i) service) proc" where
  "handleChargebackWebhook_proc e rail wb =
     (let stage = (if wbStage wb = '''' then StageOpened else wbStage wb) in
      if \<not> IsValidChargebackStage stage then Done (respondError 400 ''invalid chargeback stage'')
      else if wbCaseRef wb = ''''
           then Done (respondError 400 ''case_ref required for chargeback webhook'')
      else
        Step (\<lambda>svc.
          (case find (\<lambda>c. cbCaseRef c = wbCaseRef wb)
                  (st_ChargebacksFor (svStoreI svc) (wbPaymentID wb) (svStore svc)) of
             None \<Rightarrow> chargebackNew_proc e rail wb stage
           | Some existing \<Rightarrow> chargebackKnown_proc e wb stage,
           svc)))"

definition processWebhook_proc ::
  "env \<Rightarrow> rail \<Rightarrow> webhookBody \<Rightarrow> (response, ('s, 'i) service) proc" where
  "processWebhook_proc e rail wb =
     (if wbPaymentID wb = '''' then Done received
      else if wbType wb = ''settlement'' then handleSettlementWebhook_proc e rail wb
      else if wbType wb = ''chargeback'' \<or> wbStage wb \<noteq> '''' then handleChargebackWebhook_proc e rail wb
      else webhookUpdate_proc (envNow e 13) (wbPaymentID wb) (noteFn e rail wb))"

definition deliverWebhook_proc ::
  "env \<Rightarrow> string \<Rightarrow> webhookBody \<Rightarrow> (response, ('s, 'i) service) proc" where
  "deliverWebhook_proc e railName wb =
     (if wbExternalEventID wb = '''' then processWebhook_proc e railName wb
      else
        Step (\<lambda>svc. case st_RecordWebhook (svStoreI svc)
                \<lparr>whID = envUUID e 0, whRail = railName, whExternalEventID = wbExternalEventID wb,
                 whSignature = ''verified'', whReceivedAt = envNow e 1, whProcessedAt = None\<rparr>
                (svStore svc) of
            (Some err, s1) \<Rightarrow>
              (Done (if errors_Is err ErrDuplicateWebhook then respond 200 (BStatus ''duplicate'')
                     else respondError 500 (error_text err)),
               svc\<lparr>svStore := s1\<rparr>)
          | (None, s1) \<Rightarrow>
              (then_do (\<lambda>svc. svc\<lparr>svMetrics := IncWebhookBacklog (svMetrics svc)\<rparr>)
                 (bind_proc (processWebhook_proc e railName wb)
                    (\<lambda>resp.
                       then_do (\<lambda>svc. svc\<lparr>svMetrics := DecWebhookBacklog (svMetrics svc)\<rparr>)
                         (then_do (storeOp (\<lambda>I. st_MarkWebhookProcessed I (envNow e 15) railName
                                     (wbExternalEventID wb)))
                           (Done resp)))),
               svc\<lparr>svStore := s1\<rparr>)))"

definition Webhook_proc ::
  "env \<Rightarrow> (bytes \<Rightarrow> webhookBody) \<Rightarrow> string \<Rightarrow> bytes option \<Rightarrow> string
     \<Rightarrow> (response, ('s, 'i) service) proc" where
  "Webhook_proc e decode railName body sig =
     Step (\<lambda>svc.
       (case webhookCheck e decode railName body sig svc of
          Inl resp \<Rightarrow> Done resp
        | Inr wb \<Rightarrow> deliverWebhook_proc e railName wb,
        svc))"

section \<open>The server\<close>

text \<open>A request that only reads takes its whole answer in one step.\<close>

definition read_proc :: "('st \<Rightarrow> response) \<Rightarrow> (response option, 'st) proc" where
  "read_proc f = Step (\<lambda>svc. (Done (Some (f svc)), svc))"

fun serve_proc ::
  "env \<Rightarrow> (bytes \<Rightarrow> webhookBody) \<Rightarrow> request \<Rightarrow> (response option, ('s, 'i) service) proc" where
  "serve_proc e decode GetHealthz = Done (Some Healthz)"
| "serve_proc e decode GetReadyz = read_proc Readyz"
| "serve_proc e decode (PostIntents key body) = CreateIntent_proc e key body"
| "serve_proc e decode (GetPayments status rail) = read_proc (ListPayments e status rail)"
| "serve_proc e decode (GetPayment iid) = read_proc (GetIntent iid)"
| "serve_proc e decode (PostCapture iid key body) = Capture_proc e iid key body"
| "serve_proc e decode (PostVoid iid key) = Void_proc e iid key"
| "serve_proc e decode (PostRefund iid key body) = Refund_proc e iid key body"
| "serve_proc e decode (Post3DSChallenge iid key body) = ThreeDSChallenge_proc e iid key body"
| "serve_proc e decode (PostWebhook rail body sig) =
     bind_proc (Webhook_proc e decode rail body sig) (\<lambda>r. Done (Some r))"

text \<open>
  The states of the server: at any moment a request arrives, with a UUID that no earlier request
  drew, or a request in flight takes a step. \<open>U\<close> are the UUIDs drawn so far.
\<close>

inductive conc ::
  "(bytes \<Rightarrow> webhookBody) \<Rightarrow> (request \<Rightarrow> bool) \<Rightarrow> ('s, 'i) service
     \<Rightarrow> string set \<Rightarrow> (response option, ('s, 'i) service) threads \<Rightarrow> bool"
  for decode ok svc0 where
  conc_init: "conc decode ok svc0 {} (svc0, [])"
| conc_arrive: "conc decode ok svc0 U (svc, ts) \<Longrightarrow> ok req \<Longrightarrow> envUUID e 0 \<notin> U \<Longrightarrow>
    conc decode ok svc0 (insert (envUUID e 0) U) (svc, ts @ [serve_proc e decode req])"
| conc_tick: "conc decode ok svc0 U c \<Longrightarrow> tick c c' \<Longrightarrow> conc decode ok svc0 U c'"

inductive_cases conc_stepE: "conc decode ok svc0 U c"

lemma conc_ticks: "tick\<^sup>*\<^sup>* c c' \<Longrightarrow> conc decode ok svc0 U c \<Longrightarrow> conc decode ok svc0 U c'"
  by (induction rule: rtranclp_induct) (auto intro: conc_tick)

section \<open>Alone, a thread is its handler\<close>

lemma replayOrContinueStore_proc_run:
  assumes "\<And>svc. run_proc hp svc = h svc"
  shows "run_proc (replayOrContinueStore_proc e J ep key hp) svc =
    replayOrContinueStore e J ep key h svc"
  by (auto simp: replayOrContinueStore_proc_def replayOrContinueStore_def Let_def answer_def assms
      split: prod.split sum.split option.split hres.split bool.split)

lemma replayOrContinue_proc_run:
  assumes "\<And>svc. run_proc hp svc = h svc"
  shows "run_proc (replayOrContinue_proc e ep key hp) svc = replayOrContinue e ep key h svc"
  by (auto simp: replayOrContinue_proc_def replayOrContinue_def answer_def assms
      replayOrContinueStore_proc_run [OF assms] split: prod.split option.split hres.split)

lemma createFailed_proc_run:
  "run_proc (createFailed_proc e d ed st msg i) svc = createFailed e d ed st msg i svc"
  by (simp add: createFailed_proc_def createFailed_def Let_def)

lemma createHandle_proc_run: "run_proc (createHandle_proc e key req) svc = createHandle e key req svc"
  by (auto simp: createHandle_proc_def createHandle_def Let_def createFailed_proc_run
      create3DS_proc_def create3DS_def createInstant_proc_def createInstant_def
      createAuthorize_proc_def createAuthorize_def split: prod.split option.split sum.split)

lemma CreateIntent_proc_run: "run_proc (CreateIntent_proc e key body) svc = CreateIntent e key body svc"
  by (auto simp: CreateIntent_proc_def CreateIntent_def
      replayOrContinue_proc_run [OF createHandle_proc_run] split: prod.split option.split)

lemma captureHandle_proc_run: "run_proc (captureHandle_proc e amt iid) svc = captureHandle e amt iid svc"
  by (auto simp: captureHandle_proc_def captureHandle_def split: prod.split updres.split)

lemma voidHandle_proc_run: "run_proc (voidHandle_proc e iid) svc = voidHandle e iid svc"
  by (auto simp: voidHandle_proc_def voidHandle_def split: prod.split updres.split)

lemma refundHandle_proc_run: "run_proc (refundHandle_proc e amt iid) svc = refundHandle e amt iid svc"
  by (auto simp: refundHandle_proc_def refundHandle_def split: prod.split updres.split)

lemma threeDSHandle_proc_run: "run_proc (threeDSHandle_proc e res iid) svc = threeDSHandle e res iid svc"
  by (auto simp: threeDSHandle_proc_def threeDSHandle_def split: prod.split updres.split)

lemma webhookUpdate_proc_run:
  "run_proc (webhookUpdate_proc t iid fn) svc =
     (case updateIntent t iid fn svc of (r, w, svc1) \<Rightarrow> (webhookResult r, svc1))"
  by (auto simp: webhookUpdate_proc_def split: prod.split)

lemma processWebhook_proc_run: "run_proc (processWebhook_proc e rl wb) svc = processWebhook e rl wb svc"
  by (auto simp: processWebhook_proc_def processWebhook_def webhookUpdate_proc_run
      handleSettlementWebhook_proc_def handleSettlementWebhook_def
      handleChargebackWebhook_proc_def handleChargebackWebhook_def Let_def
      chargebackNew_proc_def chargebackNew_def chargebackKnown_proc_def chargebackKnown_def
      split: prod.split option.split)

lemma deliverWebhook_proc_run: "run_proc (deliverWebhook_proc e rl wb) svc = deliverWebhook e rl wb svc"
  by (auto simp: deliverWebhook_proc_def deliverWebhook_def processWebhook_proc_run
      split: prod.split option.split)

lemma Webhook_proc_run: "run_proc (Webhook_proc e decode rl b sig) svc = Webhook e decode rl b sig svc"
  by (auto simp: Webhook_proc_def Webhook_def deliverWebhook_proc_run split: sum.split)

lemma serve_proc_run: "run_proc (serve_proc e decode req) svc = serve e decode req svc"
  by (cases req)
     (auto simp: read_proc_def CreateIntent_proc_run Capture_proc_def Capture_def
        Void_proc_def Void_def Refund_proc_def Refund_def ThreeDSChallenge_proc_def
        ThreeDSChallenge_def Webhook_proc_run replayOrContinue_proc_run captureHandle_proc_run
        voidHandle_proc_run refundHandle_proc_run threeDSHandle_proc_run
        split: body_in.split option.split prod.split)

end
