(* ===== verification/ConcInv.thy ===== *)
theory ConcInv
  imports Concurrent
begin

text \<open>
  Invariants of the concurrent server. What a request in flight still owes the ledger, or has
  reserved, are its ghosts; the locale \<open>conc_inv\<close> asks of an invariant that every single call
  keeps it up to the ghosts of the caller, and shows that every state of the server has it. It is
  interpreted on the ledger (totals are stored rows plus rows owed), on the bounds on amounts and
  on the well-formedness of intents.
\<close>

section \<open>A bound on the steps of a request\<close>

lemma at_most_thenI: "0 < n \<Longrightarrow> at_most (n - 1) p \<Longrightarrow> at_most n (then_do f p)"
  using at_most_then_do [of "n - 1" p f] by simp

lemma at_most_StepI:
  assumes "0 < n" "\<And>s. at_most (n - 1) (fst (f s))" shows "at_most n (Step f)"
  using assms(1) at_most_Step [of f "n - 1"] assms(2) by (metis Suc_diff_1 fst_conv)

lemma at_most_bindI:
  "at_most m p \<Longrightarrow> m \<le> n \<Longrightarrow> (\<And>r. at_most (n - m) (k r)) \<Longrightarrow> at_most n (bind_proc p k)"
  using at_most_bind [of m p "n - m" k] by simp

lemmas at_most_rules = at_most_thenI at_most_StepI at_most_Done

lemma replayOrContinue_proc_bounded:
  assumes "at_most n h" shows "at_most (4 + n) (replayOrContinue_proc e ep key h)"
proof -
  have b: "at_most (Suc n) (bind_proc h k)" if "\<And>r. at_most 1 (k r)" for k :: "hres \<Rightarrow> (response option, ('a, 'b) service) proc"
    using at_most_bind [OF assms that] by simp
  have c: "at_most (2 + n) (bind_proc h k)" "at_most (3 + n) (bind_proc h k)"
    if "\<And>r. at_most 1 (k r)" for k :: "hres \<Rightarrow> (response option, ('a, 'b) service) proc"
    using at_most_mono [OF b [OF that]] by simp_all
  have "at_most (3 + n) (replayOrContinueStore_proc e J ep key h)" for J
    by (auto simp: replayOrContinueStore_proc_def Let_def intro!: at_most_rules b c
        split: prod.split sum.split option.split bool.split hres.split)
  then show ?thesis
    by (auto simp: replayOrContinue_proc_def intro!: at_most_rules c
        split: prod.split option.split hres.split)
qed

lemma create_procs_bounded:
  "at_most 4 (createFailed_proc e d ed st msg i)" "at_most 4 (create3DS_proc e i)"
  by (auto simp: create3DS_proc_def createFailed_proc_def Let_def simp del: One_nat_def
      intro!: at_most_rules split: prod.split option.split)

lemma createInstant_proc_bounded: "at_most 4 (createInstant_proc e a i)"
  by (auto simp: createInstant_proc_def intro!: at_most_rules create_procs_bounded
      split: prod.split option.split)

lemma createAuthorize_proc_bounded: "at_most 4 (createAuthorize_proc e a i)"
  by (auto simp: createAuthorize_proc_def intro!: at_most_rules create_procs_bounded
      split: prod.split option.split)

lemma createHandle_proc_bounded: "at_most 5 (createHandle_proc e key req)"
  by (auto simp: createHandle_proc_def Let_def create_procs_bounded createInstant_proc_bounded
      createAuthorize_proc_bounded intro!: at_most_StepI split: sum.split)

lemma handle_procs_bounded:
  "at_most 2 (captureHandle_proc e amt iid)" "at_most 2 (voidHandle_proc e iid)"
  "at_most 2 (refundHandle_proc e amt iid)" "at_most 2 (threeDSHandle_proc e res iid)"
  by (auto simp: captureHandle_proc_def voidHandle_proc_def refundHandle_proc_def
      threeDSHandle_proc_def intro!: at_most_rules split: prod.split updres.split)

lemma processWebhook_proc_bounded: "at_most 3 (processWebhook_proc e rl wb)"
  by (auto simp: processWebhook_proc_def webhookUpdate_proc_def handleSettlementWebhook_proc_def
      handleChargebackWebhook_proc_def chargebackNew_proc_def chargebackKnown_proc_def Let_def
      intro!: at_most_rules split: prod.split option.split)

lemma Webhook_proc_bounded: "at_most 8 (Webhook_proc e decode rl b sig)"
proof -
  have "at_most 7 (processWebhook_proc e rl wb)" for wb
    by (rule at_most_mono [OF processWebhook_proc_bounded]) simp
  then show ?thesis
    by (auto simp: Webhook_proc_def deliverWebhook_proc_def
        intro!: at_most_rules at_most_bindI [OF processWebhook_proc_bounded]
        split: prod.split option.split sum.split)
qed

lemma serve_proc_bounded: "at_most 10 (serve_proc e decode req)"
proof -
  have h: "at_most 10 (replayOrContinue_proc e ep key h)" if "at_most 2 h" for ep key h
    by (rule at_most_mono [OF replayOrContinue_proc_bounded [OF that]]) simp
  have "at_most 10 (CreateIntent_proc e key body)" for key body
    by (auto simp: CreateIntent_proc_def split: option.split
        intro!: at_most_rules at_most_bindI [OF replayOrContinue_proc_bounded [OF createHandle_proc_bounded]])
  moreover have "at_most 10 (bind_proc (Webhook_proc e decode rl b sig) (\<lambda>r. Done (Some r)))" for rl b sig
    by (rule at_most_bindI [OF Webhook_proc_bounded]) (auto intro: at_most_Done)
  ultimately show ?thesis
    by (cases req)
       (auto simp: read_proc_def Capture_proc_def Void_proc_def Refund_proc_def
          ThreeDSChallenge_proc_def intro!: at_most_rules h handle_procs_bounded
          split: body_in.split option.split)
qed

section \<open>Ghosts\<close>

text \<open>
  Rows whose amount is already in the totals of their intent, and the id of an intent that is
  about to be stored.
\<close>

datatype ghost =
    OwesCapture capture | OwesRefund refund | OwesSettlement settlement | Reserved string

definition owed :: "row_kind \<Rightarrow> fx \<Rightarrow> ghost multiset" where
  "owed kd w =
     mset (case kd of
        NoRow \<Rightarrow> []
      | CaptureRow \<Rightarrow> map OwesCapture (opt_list (fxCapture w))
      | RefundRow \<Rightarrow> map OwesRefund (opt_list (fxRefund w))
      | SettlementRow \<Rightarrow> map OwesSettlement (opt_list (fxSettlement w)))"

lemma owed_NoRow [simp]: "owed NoRow w = {#}"
  by (simp add: owed_def)

text \<open>
  An intent as a creation stores it, with the captures that go with it; \<open>R\<close> is what is known of
  the registry.
\<close>

definition born ::
  "(registry \<Rightarrow> bool) \<Rightarrow> env \<Rightarrow> string \<Rightarrow> createIntentReq \<Rightarrow> intent \<Rightarrow> capture list \<Rightarrow> bool" where
  "born R e key req i cs \<longleftrightarrow>
     iID i = envUUID e 0 \<and> iRail i = ciRail req \<and> iAmount i = ciAmount req \<and>
     iCurrency i = ciCurrency req \<and> iPayerRef i = ciPayerRef req \<and>
     iThreeDSRequired i = ciThreeDSRequired req \<and> iIdempotencyKey i = key \<and>
     iRefundedAmount i = 0 \<and> iSettledAmount i = 0 \<and>
     iCapturedAmount i = sumCaptures cs \<and> (\<forall>c \<in> set cs. caIntentID c = iID i) \<and>
     (\<exists>ev h. iHistory i = ev # h \<and> evType ev = EventCreated) \<and>
     (iStatus i = StatusFailed \<or>
      iStatus i = Status3DSPending \<and> ciThreeDSRequired req \<or>
      iStatus i = StatusAuthorized \<and> \<not> IsInstant (ciRail req) \<or>
      iStatus i = StatusCaptured \<and> IsInstant (ciRail req)) \<and>
     (cs = [] \<or> (\<exists>rg a i0 i1. R rg \<and> Registry_For rg (ciRail req) = Some a \<and>
        ad_Submit a i0 = (None, i1) \<and> iAmount i0 = iAmount i \<and> iCapturedAmount i = iCapturedAmount i1))"

text \<open>What the creation endpoint checked before it ran the closure.\<close>

lemma createInvalid_None:
  "createInvalid req = None \<longleftrightarrow>
     IsValidRail (ciRail req) \<and> 0 < sint (ciAmount req) \<and> ciCurrency req \<noteq> '''' \<and>
     ciPayerRef req \<noteq> '''' \<and> (ciThreeDSRequired req \<longrightarrow> ciRail req = RailCard)"
  by (auto simp: createInvalid_def)

lemma transAt_intent:
  assumes "iStatus i = StatusIntent" "nxt \<in> {StatusAuthorized, Status3DSPending, StatusFailed}"
  shows "Transition t t' nxt d i =
    (None, AppendEvent t t' (statusString nxt) d (i\<lparr>iStatus := nxt\<rparr>))"
  using assms by (auto simp: Transition_moves moves_table)

text \<open>The intent of each branch of the closure, as it is stored.\<close>

lemma born_moved:
  assumes "i = (newIntent e key req)\<lparr>iExternalID := x\<rparr>"
    and "nxt = StatusFailed \<or> nxt = Status3DSPending \<and> ciThreeDSRequired req \<or>
         nxt = StatusAuthorized \<and> \<not> IsInstant (ciRail req)"
  shows "born R e key req (snd (transAt e 5 nxt d i)) []"
  using assms by (auto simp: born_def newIntent_def transAt_intent AppendEvent_def)

lemma newIntent_ext: "newIntent e key req = (newIntent e key req)\<lparr>iExternalID := ''''\<rparr>"
  by (simp add: newIntent_def)

lemma newIntent_status [simp]: "iStatus (newIntent e key req) = StatusIntent"
  by (simp add: newIntent_def)

lemmas born_fresh = born_moved [OF newIntent_ext]

lemma born_instant:
  assumes inst: "IsInstant (ciRail req)" and rg: "R rg" "Registry_For rg (ciRail req) = Some a"
    and sub: "ad_Submit a (newIntent e key req) = (None, i1)"
    and i1: "i1 = (newIntent e key req)\<lparr>iExternalID := x, iCapturedAmount := c\<rparr>"
    and t2: "transAt e 5 StatusAuthorized d i1 = (None, i2)"
    and t3: "transAt e 9 StatusCaptured d' i2 = (None, i3)"
    and cap: "caIntentID cap = iID i3" "caAmount cap = iCapturedAmount i3"
  shows "born R e key req i3 [cap]"
proof -
  have i2: "i2 = AppendEvent (envNow e 5) (envNow e (5 + 1)) (statusString StatusAuthorized) d
      (i1\<lparr>iStatus := StatusAuthorized\<rparr>)"
    using t2 i1 by (simp add: transAt_intent)
  then have "i3 = AppendEvent (envNow e 9) (envNow e (9 + 1)) (statusString StatusCaptured) d'
      (i2\<lparr>iStatus := StatusCaptured\<rparr>)"
    using t3 by (simp add: Transition_moves moves_table)
  with i1 i2 have i3: "iID i3 = envUUID e 0" "iRail i3 = ciRail req" "iAmount i3 = ciAmount req"
    "iCurrency i3 = ciCurrency req" "iPayerRef i3 = ciPayerRef req" "iIdempotencyKey i3 = key"
    "iThreeDSRequired i3 = ciThreeDSRequired req" "iRefundedAmount i3 = 0" "iSettledAmount i3 = 0"
    "iCapturedAmount i3 = iCapturedAmount i1" "iStatus i3 = StatusCaptured"
    "\<exists>ev h. iHistory i3 = ev # h \<and> evType ev = EventCreated"
    by (simp_all add: newIntent_def AppendEvent_def)
  moreover have "\<exists>rg a i0 i1'. R rg \<and> Registry_For rg (ciRail req) = Some a \<and>
      ad_Submit a i0 = (None, i1') \<and> iAmount i0 = iAmount i3 \<and> iCapturedAmount i3 = iCapturedAmount i1'"
    using rg sub i3 by (intro exI [of _ rg] exI [of _ a] exI [of _ "newIntent e key req"] exI [of _ i1])
      (simp add: newIntent_def)
  ultimately show ?thesis using inst cap by (simp add: born_def)
qed

section \<open>The locale\<close>

locale conc_inv = store: service_store I stored
  for I :: "('s, fx) store_iface" and stored +
  fixes view :: "'s \<Rightarrow> 'v"
    and J :: "string set \<Rightarrow> ('s, 'i) service \<Rightarrow> ghost multiset \<Rightarrow> bool"
    and R :: "registry \<Rightarrow> bool"
    and cb_ok :: "row_kind \<Rightarrow> fx callback \<Rightarrow> bool"
    and small :: "int64 \<Rightarrow> bool"
  assumes view_AddChargeback: "view (st_AddChargeback I cb s) = view s"
    and view_UpdateChargeback: "view (snd (st_UpdateChargeback I t ord ref cfn s)) = view s"
    and view_RecordWebhook: "view (snd (st_RecordWebhook I wh s)) = view s"
    and view_MarkWebhookProcessed: "view (st_MarkWebhookProcessed I t rail ev s) = view s"
    and J_store: "J U svc D \<Longrightarrow> svStoreI svc = I"
    and J_rails: "J U svc D \<Longrightarrow> R (svRails svc)"
    and R_ok: "R rg \<Longrightarrow> rails_ok rg"
    and J_frame: "J U svc D \<Longrightarrow> svStoreI svc' = svStoreI svc \<Longrightarrow> svRails svc' = svRails svc \<Longrightarrow>
      view (svStore svc') = view (svStore svc) \<Longrightarrow> J U svc' D"
    and J_update: "J U svc D \<Longrightarrow> cb_ok kd fn \<Longrightarrow> updateIntent t iid fn svc = (r, w, svc1) \<Longrightarrow>
      J U svc1 (D + (if r = UpdPanic then {#} else owed kd w))"
    and J_AddCapture: "J U svc (D + {#OwesCapture c#}) \<Longrightarrow> J U (svc\<lparr>svStore := st_AddCapture I c (svStore svc)\<rparr>) D"
    and J_AddRefund: "J U svc (D + {#OwesRefund rf#}) \<Longrightarrow> J U (svc\<lparr>svStore := st_AddRefund I rf (svStore svc)\<rparr>) D"
    and J_AddSettlement: "J U svc (D + {#OwesSettlement se#}) \<Longrightarrow>
      J U (svc\<lparr>svStore := st_AddSettlement I se (svStore svc)\<rparr>) D"
    and J_create: "J U svc (D + {#Reserved (envUUID e 0)#}) \<Longrightarrow> born R e key req i cs \<Longrightarrow>
      key \<noteq> '''' \<Longrightarrow> createInvalid req = None \<Longrightarrow> small (ciAmount req) \<Longrightarrow>
      J U (svc\<lparr>svStore := st_CreateIntent I i (svStore svc)\<rparr>) (D + mset (map OwesCapture cs))"
    and J_release: "J U svc (D + {#Reserved k#}) \<Longrightarrow> J U svc D"
    and J_reserve: "J U svc D \<Longrightarrow> k \<notin> U \<Longrightarrow> J (insert k U) svc (D + {#Reserved k#})"
    and cb_capture: "R rg \<Longrightarrow> cb_ok CaptureRow (captureFn e rg amt)"
    and cb_void: "R rg \<Longrightarrow> cb_ok NoRow (voidFn e rg)"
    and cb_refund: "R rg \<Longrightarrow> (\<forall>a. amt = Some a \<longrightarrow> small a) \<Longrightarrow> cb_ok RefundRow (refundFn e rg amt)"
    and cb_threeDS: "R rg \<Longrightarrow> cb_ok NoRow (threeDSFn e window mpi rg res)"
    and cb_settlement: "cb_ok SettlementRow (settlementFn e rl wb)"
    and cb_chargeback: "cb_ok NoRow (chargebackOpenedFn e rl)"
    and cb_reversal: "cb_ok NoRow (reversalFn e wb)"
    and cb_note: "cb_ok NoRow (noteFn e rl wb)"
begin

lemmas view_frame [simp] =
  view_AddChargeback view_UpdateChargeback view_RecordWebhook view_MarkWebhookProcessed

abbreviation safe_with :: "ghost multiset \<Rightarrow> ('r, ('s, 'i) service) proc \<Rightarrow> bool" where
  "safe_with d p \<equiv> safe J settled_up d p"

subsection \<open>Steps the invariant does not see\<close>

lemma safe_frame:
  assumes "\<And>svc. svStoreI svc = I \<Longrightarrow> svStoreI (f svc) = I \<and> svRails (f svc) = svRails svc \<and>
      view (svStore (f svc)) = view (svStore svc)"
    and "safe J Q d p"
  shows "safe J Q d (then_do f p)"
  using assms(1) J_store J_frame by (intro safe_then_do [OF _ assms(2)]) metis

lemma safe_emit: "safe J Q d p \<Longrightarrow> safe J Q d (then_do (emitTransition t t' i from to det) p)"
  by (rule safe_frame) simp_all

lemma saveIdem_sel [simp]:
  "svStoreI (saveIdem t ep k st b svc) = svStoreI svc" "svStore (saveIdem t ep k st b svc) = svStore svc"
  "svRails (saveIdem t ep k st b svc) = svRails svc"
  by (simp_all add: saveIdem_def)

lemma lookupIdem_sel:
  assumes "lookupIdem t ep k svc = (x, svc')"
  shows "svStoreI svc' = svStoreI svc \<and> svStore svc' = svStore svc \<and> svRails svc' = svRails svc"
  using assms by (auto simp: lookupIdem_def Let_def split: if_splits option.splits)

subsection \<open>The replay wrapper\<close>

text \<open>A thread may give up the ghosts \<open>d\<close>: a reservation, or nothing.\<close>

definition droppable :: "ghost multiset \<Rightarrow> bool" where
  "droppable d \<longleftrightarrow> (\<forall>U svc D. J U svc (D + d) \<longrightarrow> J U svc D)"

lemma droppable_simps [simp]: "droppable {#}" "droppable {#Reserved k#}"
  using J_release by (auto simp: droppable_def)

lemma end_here:
  assumes "droppable d" "J U svc (D + d)"
  shows "\<exists>d'. J U svc (D + d') \<and> safe_with d' (Done r)"
  using assms by (intro exI [of _ "{#}"]) (auto simp: droppable_def)

lemma go_on:
  "J U svc (D + d) \<Longrightarrow> safe J Q d (Step f) \<Longrightarrow> \<exists>d'. J U svc (D + d') \<and> safe J Q d' (Step f)"
  "J U svc (D + d) \<Longrightarrow> safe J Q d (then_do g p) \<Longrightarrow>
   \<exists>d'. J U svc (D + d') \<and> safe J Q d' (then_do g p)"
  "J U svc (D + d) \<Longrightarrow> safe J Q d (bind_proc q k) \<Longrightarrow>
   \<exists>d'. J U svc (D + d') \<and> safe J Q d' (bind_proc q k)"
  by blast+

lemma J_idem [intro]: "J U svc D \<Longrightarrow> J U (svc\<lparr>svIdem := m\<rparr>) D"
  by (erule J_frame) simp_all

lemma safe_store_response:
  assumes "safe_with d h"
    and "\<And>st v svc. svStoreI (f st v svc) = svStoreI svc \<and> svStore (f st v svc) = svStore svc \<and>
      svRails (f st v svc) = svRails svc"
  shows "safe_with d (bind_proc h (\<lambda>r. case r of HPanic \<Rightarrow> Done None
    | HRet st v \<Rightarrow> then_do (f st v) (Done (answer r))))"
  using assms(2) by (intro safe_bind [OF assms(1)]) (auto intro: safe_frame split: hres.split)

lemma safe_replayStore:
  assumes h: "safe_with d h" and d: "droppable d"
  shows "safe_with d (replayOrContinueStore_proc e Ji ep key h)"
proof (cases "key = ''''")
  case True
  then show ?thesis
    by (auto simp: replayOrContinueStore_proc_def intro: safe_bind [OF h])
next
  case False
  have drop: "J U (svc\<lparr>svIdem := m\<rparr>) D" if "J U svc (D + d)" for U svc D m
    using that d by (intro J_idem) (simp add: droppable_def)
  from False show ?thesis
    by (auto simp: replayOrContinueStore_proc_def Let_def
        intro!: safe_StepI [where d = d] go_on [where d = d] safe_store_response [OF h]
        split: prod.split sum.split option.split bool.split)
       (rule drop, assumption | rule J_idem, assumption)+
qed

lemma safe_replay:
  assumes h: "safe_with d h" and d: "droppable d"
  shows "safe_with d (replayOrContinue_proc e ep key h)"
  unfolding replayOrContinue_proc_def
proof (rule safe_Step)
  fix U svc D p svc'
  assume J: "J U svc (D + d)" and
    f: "(case svIdemI svc of
         Some J \<Rightarrow> (replayOrContinueStore_proc e J ep key h, svc)
       | None \<Rightarrow>
           (case lookupIdem (envNow e 0) ep key svc of
              (Some (st, b), svc1) \<Rightarrow>
                (Done (Some \<lparr>rsStatus = st, rsReplay = True, rsBody = b\<rparr>), svc1)
            | (None, svc1) \<Rightarrow>
                (bind_proc h
                   (\<lambda>r. case r of
                      HPanic \<Rightarrow> Done None
                    | HRet st v \<Rightarrow>
                        then_do (saveIdem (envNow e 2) ep key st v) (Done (answer r))),
                 svc1))) = (p, svc')"
  show "\<exists>d'. J U svc' (D + d') \<and> safe_with d' p"
  proof (cases "svIdemI svc")
    case (Some Ji)
    with f J show ?thesis using safe_replayStore [OF h d] by auto
  next
    case None
    obtain x svc1 where l: "lookupIdem (envNow e 0) ep key svc = (x, svc1)" by fastforce
    have J1: "J U svc1 (D + d)" using lookupIdem_sel [OF l] by (intro J_frame [OF J]) simp_all
    have "safe_with d (bind_proc h (\<lambda>r. case r of HPanic \<Rightarrow> Done None
        | HRet st v \<Rightarrow> then_do (saveIdem (envNow e 2) ep key st v) (Done (answer r))))"
      by (rule safe_store_response [OF h]) simp
    with None l f J1 show ?thesis
      by (auto intro!: go_on end_here [OF d] split: option.splits prod.splits)
  qed
qed

subsection \<open>Rows\<close>

text \<open>A call that adds a row pays the debt of its caller.\<close>

lemma safe_add_capture:
  "safe J Q {#} p \<Longrightarrow> safe J Q {#OwesCapture c#} (then_do (storeOp (\<lambda>I. st_AddCapture I c)) p)"
  using J_AddCapture J_store by (intro safe_then_do [where d' = "{#}"]) fastforce+

lemma J_commit:
  assumes "J U svc (D + owed kd w)" shows "J U (commit kd w svc) D"
  using assms J_store [OF assms]
  by (cases kd; cases "fxCapture w"; cases "fxRefund w"; cases "fxSettlement w")
     (simp_all add: commit_defs owed_def J_AddCapture J_AddRefund J_AddSettlement)

lemma safe_commit: "safe J Q {#} p \<Longrightarrow> safe J Q (owed kd w) (then_do (commit kd w) p)"
  using J_commit by (intro safe_then_do) simp_all

subsection \<open>Creations\<close>

lemma safe_store_intent:
  assumes "born R e key req i cs" "key \<noteq> ''''" "createInvalid req = None" "small (ciAmount req)"
    and "safe J Q (mset (map OwesCapture cs)) p"
  shows "safe J Q {#Reserved (envUUID e 0)#} (then_do (storeOp (\<lambda>I. st_CreateIntent I i)) p)"
proof (rule safe_then_do [OF _ assms(5)])
  fix U svc D
  assume J: "J U svc (D + {#Reserved (envUUID e 0)#})"
  from J_create [OF this assms(1-4)] J_store [OF J]
  show "J U (storeOp (\<lambda>I. st_CreateIntent I i) svc) (D + mset (map OwesCapture cs))" by simp
qed

lemma safe_store_plain:
  assumes "born R e key req i []" "key \<noteq> ''''" "createInvalid req = None" "small (ciAmount req)"
  shows "safe_with {#Reserved (envUUID e 0)#}
    (then_do (storeOp (\<lambda>I. st_CreateIntent I i)) (then_do (emitTransition t t' i' from to det) (Done r)))"
  by (rule safe_store_intent [OF assms]) (simp add: safe_emit)

lemma safe_createFailed:
  assumes "key \<noteq> ''''" "createInvalid req = None" "small (ciAmount req)"
  shows "safe_with {#Reserved (envUUID e 0)#} (createFailed_proc e d ed st msg (newIntent e key req))"
  unfolding createFailed_proc_def Let_def
  by (intro safe_store_plain [OF _ assms] born_fresh) simp

lemma safe_create3DS:
  assumes "key \<noteq> ''''" "createInvalid req = None" "small (ciAmount req)" "ciThreeDSRequired req"
  shows "safe_with {#Reserved (envUUID e 0)#} (create3DS_proc e (newIntent e key req))"
  using safe_store_plain [OF born_fresh [where nxt = Status3DSPending] assms(1-3)] assms(4)
  by (simp add: create3DS_proc_def transAt_intent)

lemma safe_createAuthorize:
  assumes req: "key \<noteq> ''''" "createInvalid req = None" "small (ciAmount req)"
    and bank: "\<not> IsInstant (ciRail req)" and a: "rail_adapter a"
  shows "safe_with {#Reserved (envUUID e 0)#} (createAuthorize_proc e (Some a) (newIntent e key req))"
proof (cases "ad_Authorize a (newIntent e key req)")
  case (Pair x i1)
  show ?thesis
  proof (cases x)
    case None
    with Pair rail_adapter.authorize_ok [OF a] obtain y where
      i1: "i1 = (newIntent e key req)\<lparr>iExternalID := y\<rparr>" by blast
    then have "iStatus i1 = StatusIntent" by simp
    with Pair None bank safe_store_plain [OF born_moved [OF i1, where nxt = StatusAuthorized] req]
    show ?thesis by (simp add: createAuthorize_proc_def transAt_intent)
  next
    case (Some err)
    with Pair rail_adapter.authorize_err [OF a] have "i1 = newIntent e key req" by blast
    with Pair Some safe_createFailed [OF req] show ?thesis by (simp add: createAuthorize_proc_def)
  qed
qed

lemma safe_createInstant:
  assumes req: "key \<noteq> ''''" "createInvalid req = None" "small (ciAmount req)"
    and inst: "IsInstant (ciRail req)" and rg: "R rg" "Registry_For rg (ciRail req) = Some a"
  shows "safe_with {#Reserved (envUUID e 0)#} (createInstant_proc e (Some a) (newIntent e key req))"
proof (cases "ad_Submit a (newIntent e key req)")
  case (Pair x i1)
  have a: "rail_adapter a" by (rule rails_okD [OF R_ok [OF rg(1)] rg(2)])
  show ?thesis
  proof (cases x)
    case None
    with Pair rail_adapter.submit_ok [OF a] obtain y c where
      i1: "i1 = (newIntent e key req)\<lparr>iExternalID := y, iCapturedAmount := c\<rparr>" by blast
    define i2 where "i2 = snd (transAt e 5 StatusAuthorized ''instant rail authorized via submit'' i1)"
    define i3 where "i3 = snd (transAt e 9 StatusCaptured ''instant rail captured via submit'' i2)"
    define cap where "cap = \<lparr>caID = envUUID e 1, caIntentID = iID i3, caAmount = iCapturedAmount i3,
        caExternalRef = iExternalID i3, caCapturedAt = envNow e 11\<rparr>"
    have t2: "transAt e 5 StatusAuthorized ''instant rail authorized via submit'' i1 = (None, i2)"
      using i1 by (simp add: i2_def transAt_intent)
    have t3: "transAt e 9 StatusCaptured ''instant rail captured via submit'' i2 = (None, i3)"
      using i1 by (simp add: i3_def i2_def transAt_intent Transition_moves moves_table)
    have b: "born R e key req i3 [cap]"
      using Pair None by (intro born_instant [where R = R, OF inst rg _ i1 t2 t3]) (simp_all add: cap_def)
    have "safe_with {#Reserved (envUUID e 0)#}
       (then_do (storeOp (\<lambda>I. st_CreateIntent I i3))
         (then_do (storeOp (\<lambda>I. st_AddCapture I cap)) (then_do (emitSvcAt e 12 i3 StatusAuthorized StatusCaptured
           ''instant submit'') (Done (HRet 201 (Some (BIntent i3)))))))"
      by (rule safe_store_intent [OF b req]) (simp add: safe_add_capture safe_emit)
    with Pair None t2 t3 show ?thesis
      by (simp add: createInstant_proc_def cap_def safe_emit)
  next
    case (Some err)
    with Pair rail_adapter.submit_err [OF a] have "i1 = newIntent e key req" by blast
    with Pair Some safe_createFailed [OF req] show ?thesis by (simp add: createInstant_proc_def)
  qed
qed

lemma safe_createHandle:
  assumes req: "key \<noteq> ''''" "createInvalid req = None" "small (ciAmount req)"
  shows "safe_with {#Reserved (envUUID e 0)#} (createHandle_proc e key req)"
  unfolding createHandle_proc_def
proof (rule safe_StepI)
  fix U svc D
  assume J: "J U svc (D + {#Reserved (envUUID e 0)#})"
  note R = J_rails [OF J]
  let ?res = "{#Reserved (envUUID e 0)#}" and ?i = "newIntent e key req"
    and ?a = "Registry_For (svRails svc) (ciRail req)"
  have panic: "\<exists>d'. J U svc (D + d') \<and> safe_with d' (Done HPanic)" by (rule end_here [OF droppable_simps(2) J])
  have inst: "\<exists>d'. J U svc (D + d') \<and> safe_with d' (createInstant_proc e ?a ?i)"
    if "IsInstant (ciRail req)"
  proof (cases ?a)
    case None
    with panic show ?thesis by (simp add: createInstant_proc_def)
  next
    case (Some a)
    with safe_createInstant [OF req that R Some] J show ?thesis by metis
  qed
  have auth: "\<exists>d'. J U svc (D + d') \<and> safe_with d' (createAuthorize_proc e ?a ?i)"
    if "\<not> IsInstant (ciRail req)"
  proof (cases ?a)
    case None
    with panic show ?thesis by (simp add: createAuthorize_proc_def)
  next
    case (Some a)
    with safe_createAuthorize [OF req that rails_okD [OF R_ok [OF R] Some]] J show ?thesis by metis
  qed
  have failed: "\<exists>d'. J U svc (D + d') \<and> safe_with d' (createFailed_proc e d ed st msg ?i)" for d ed st msg
    using J safe_createFailed [OF req] by blast
  have tds: "\<exists>d'. J U svc (D + d') \<and> safe_with d' (create3DS_proc e ?i)" if "ciThreeDSRequired req"
    using J safe_create3DS [OF req that] by blast
  show "\<exists>d'. J U (snd (let i = ?i; adapter = ?a
        in if ciThreeDSRequired req then create3DS_proc e i
           else (case fr_Score (svFraud svc) i of
                Inl err \<Rightarrow> createFailed_proc e (''fraud check failed: '' @ error_text err)
                  (error_text err) 502 ''fraud check failed'' i
              | Inr dec \<Rightarrow>
                  (if \<not> dcAllowed dec
                   then createFailed_proc e (''blocked by fraud: '' @ dcReason dec)
                          ''fraud blocked'' 403 ''intent blocked by fraud detection'' i
                   else if IsInstant (ciRail req) then createInstant_proc e adapter i
                   else createAuthorize_proc e adapter i)), svc)) (D + d') \<and>
      safe_with d' (fst (let i = ?i; adapter = ?a
        in if ciThreeDSRequired req then create3DS_proc e i
           else (case fr_Score (svFraud svc) i of
                Inl err \<Rightarrow> createFailed_proc e (''fraud check failed: '' @ error_text err)
                  (error_text err) 502 ''fraud check failed'' i
              | Inr dec \<Rightarrow>
                  (if \<not> dcAllowed dec
                   then createFailed_proc e (''blocked by fraud: '' @ dcReason dec)
                          ''fraud blocked'' 403 ''intent blocked by fraud detection'' i
                   else if IsInstant (ciRail req) then createInstant_proc e adapter i
                   else createAuthorize_proc e adapter i)), svc))"
    using inst auth failed tds by (simp add: Let_def split: sum.split)
qed

lemma safe_CreateIntent:
  assumes "\<forall>req. body = Some req \<longrightarrow> small (ciAmount req)"
  shows "\<exists>d \<in> {{#}, {#Reserved (envUUID e 0)#}}. safe_with d (CreateIntent_proc e key body)"
proof (cases "\<exists>req. key \<noteq> '''' \<and> body = Some req \<and> createInvalid req = None")
  case True
  then obtain req where req: "key \<noteq> ''''" "body = Some req" "createInvalid req = None" by blast
  have "safe_with {#Reserved (envUUID e 0)#}
      (replayOrContinue_proc e ''create'' key (createHandle_proc e key req))"
    using assms req by (intro safe_replay safe_createHandle) simp_all
  from this have "safe_with {#Reserved (envUUID e 0)#} (CreateIntent_proc e key body)"
    using req by (auto simp: CreateIntent_proc_def intro!: safe_bind [where Q = settled_up] safe_frame split: option.split)
  then show ?thesis by (intro bexI [of _ "{#Reserved (envUUID e 0)#}"]) simp_all
next
  case False
  then show ?thesis
    by (intro bexI [of _ "{#}"]) (auto simp: CreateIntent_proc_def split: option.split)
qed

subsection \<open>Updates\<close>

text \<open>
  A handler that updates an intent and then adds the row its callback left, or none: what the
  update put into the totals is owed until the row is there.
\<close>

lemma add_is_commit:
  "addCapture w = commit CaptureRow w" "addRefund w = commit RefundRow w"
  "addSettlement w = commit SettlementRow w"
  by (simp_all add: commit_def fun_eq_iff)

lemma update_step:
  assumes "J U svc (D + {#})" "cb_ok kd fn" "updateIntent t iid fn svc = (r, w, svc1)" "r \<noteq> UpdPanic"
  shows "\<exists>d'. J U svc1 (D + d') \<and> safe_with d' (then_do (commit kd w) (Done x))"
  using J_update [OF assms(1-3)] assms(4) safe_commit [of settled_up "Done x"]
  by (intro exI [of _ "owed kd w"]) simp

lemma update_panic_step:
  assumes "J U svc (D + {#})" "cb_ok kd fn" "updateIntent t iid fn svc = (UpdPanic, w, svc1)"
  shows "\<exists>d'. J U svc1 (D + d') \<and> safe_with d' (Done x)"
  using J_update [OF assms] by (intro exI [of _ "{#}"]) simp

lemma update_NoRow_step:
  assumes "J U svc (D + {#})" "cb_ok NoRow fn" "updateIntent t iid fn svc = (r, w, svc1)"
  shows "\<exists>d'. J U svc1 (D + d') \<and> safe_with d' (Done x)"
  using J_update [OF assms] by (intro exI [of _ "{#}"]) (simp split: if_splits)

lemma safe_captureHandle: "safe_with {#} (captureHandle_proc e amt iid)"
  unfolding captureHandle_proc_def add_is_commit
proof (rule safe_StepI, goal_cases)
  case (1 U svc D)
  have cb: "cb_ok CaptureRow (captureFn e (svRails svc) amt)" by (rule cb_capture [OF J_rails [OF 1]])
  obtain r w svc1 where u: "updateIntent (envNow e 9) iid (captureFn e (svRails svc) amt) svc = (r, w, svc1)"
    by (cases "updateIntent (envNow e 9) iid (captureFn e (svRails svc) amt) svc")
  with update_step [OF 1 cb u] update_panic_step [OF 1 cb] show ?case by (cases r) simp_all
qed

lemma safe_refundHandle:
  assumes "\<forall>a. amt = Some a \<longrightarrow> small a" shows "safe_with {#} (refundHandle_proc e amt iid)"
  unfolding refundHandle_proc_def add_is_commit
proof (rule safe_StepI, goal_cases)
  case (1 U svc D)
  have cb: "cb_ok RefundRow (refundFn e (svRails svc) amt)" by (rule cb_refund [OF J_rails [OF 1] assms])
  obtain r w svc1 where u: "updateIntent (envNow e 11) iid (refundFn e (svRails svc) amt) svc = (r, w, svc1)"
    by (cases "updateIntent (envNow e 11) iid (refundFn e (svRails svc) amt) svc")
  with update_step [OF 1 cb u] update_panic_step [OF 1 cb] show ?case by (cases r) simp_all
qed

lemma safe_voidHandle: "safe_with {#} (voidHandle_proc e iid)"
  unfolding voidHandle_proc_def
proof (rule safe_StepI, goal_cases)
  case (1 U svc D)
  show ?case
    using update_NoRow_step [OF 1 cb_void [OF J_rails [OF 1]]] by (auto split: prod.split updres.split)
qed

lemma safe_threeDSHandle: "safe_with {#} (threeDSHandle_proc e res iid)"
  unfolding threeDSHandle_proc_def
proof (rule safe_StepI, goal_cases)
  case (1 U svc D)
  show ?case
    using update_NoRow_step [OF 1 cb_threeDS [OF J_rails [OF 1]]] by (auto split: prod.split updres.split)
qed

subsection \<open>Webhooks\<close>

lemma safe_webhookUpdate:
  assumes "cb_ok NoRow fn" shows "safe_with {#} (webhookUpdate_proc t iid fn)"
  unfolding webhookUpdate_proc_def
  using update_NoRow_step [OF _ assms] by (intro safe_StepI) (auto split: prod.split)

lemma safe_handleSettlement: "safe_with {#} (handleSettlementWebhook_proc e rl wb)"
  unfolding handleSettlementWebhook_proc_def add_is_commit
proof (rule safe_StepI, goal_cases)
  case (1 U svc D)
  obtain r w svc1 where u: "updateIntent (envNow e 13) (wbPaymentID wb) (settlementFn e rl wb) svc = (r, w, svc1)"
    by (cases "updateIntent (envNow e 13) (wbPaymentID wb) (settlementFn e rl wb) svc")
  have "r \<noteq> UpdPanic" by (rule store.updateIntent_no_panic [OF J_store [OF 1] webhook_no_panic(1) u])
  from update_step [OF 1 cb_settlement u this] u show ?case by simp
qed

lemma safe_handleChargeback: "safe_with {#} (handleChargebackWebhook_proc e rl wb)"
proof -
  have n: "safe_with {#} (chargebackNew_proc e rl wb st)" for st
    unfolding chargebackNew_proc_def Let_def
    by (rule safe_frame) (auto simp: safe_webhookUpdate cb_chargeback)
  have k: "safe_with {#} (chargebackKnown_proc e wb st)" for st
    unfolding chargebackKnown_proc_def
    by (rule safe_frame) (auto simp: safe_webhookUpdate cb_reversal)
  have "safe_with {#} (Step (\<lambda>svc. (case find (\<lambda>c. cbCaseRef c = wbCaseRef wb)
          (st_ChargebacksFor (svStoreI svc) (wbPaymentID wb) (svStore svc)) of
             None \<Rightarrow> chargebackNew_proc e rl wb st | Some x \<Rightarrow> chargebackKnown_proc e wb st, svc)))" for st
    using n k by (intro safe_StepI exI [of _ "{#}"]) (simp split: option.split)
  then show ?thesis by (simp add: handleChargebackWebhook_proc_def Let_def)
qed

lemma safe_processWebhook: "safe_with {#} (processWebhook_proc e rl wb)"
  by (simp add: processWebhook_proc_def safe_handleSettlement safe_handleChargeback safe_webhookUpdate cb_note)

lemma safe_deliverWebhook: "safe_with {#} (deliverWebhook_proc e rl wb)"
proof (cases "wbExternalEventID wb = ''''")
  case True
  then show ?thesis by (simp add: deliverWebhook_proc_def safe_processWebhook)
next
  case False
  let ?wh = "\<lparr>whID = envUUID e 0, whRail = rl, whExternalEventID = wbExternalEventID wb,
    whSignature = ''verified'', whReceivedAt = envNow e 1, whProcessedAt = None\<rparr>"
  let ?rest = "then_do (\<lambda>svc :: ('s, 'i) service. svc\<lparr>svMetrics := IncWebhookBacklog (svMetrics svc)\<rparr>)
    (bind_proc (processWebhook_proc e rl wb)
      (\<lambda>resp. then_do (\<lambda>svc. svc\<lparr>svMetrics := DecWebhookBacklog (svMetrics svc)\<rparr>)
         (then_do (storeOp (\<lambda>I. st_MarkWebhookProcessed I (envNow e 15) rl (wbExternalEventID wb)))
           (Done resp))))"
  have rest: "safe_with {#} ?rest"
    by (intro safe_frame safe_bind [OF safe_processWebhook]) (auto intro!: safe_frame)
  have J1: "J U (svc\<lparr>svStore := s1\<rparr>) (D + {#})"
    if J: "J U svc (D + {#})" and s1: "st_RecordWebhook (svStoreI svc) ?wh (svStore svc) = (x, s1)"
    for U svc D x s1
  proof -
    have "s1 = snd (st_RecordWebhook I ?wh (svStore svc))" using s1 J_store [OF J] by simp
    then show ?thesis by (intro J_frame [OF J]) simp_all
  qed
  show ?thesis
    using False J1 rest unfolding deliverWebhook_proc_def
    by (auto intro!: safe_StepI [where d = "{#}"] go_on(2) [where d = "{#}"] split: prod.split option.split)
qed

lemma safe_Webhook: "safe_with {#} (Webhook_proc e decode rl b sig)"
  unfolding Webhook_proc_def
  by (rule safe_StepI, rule exI [of _ "{#}"]) (simp add: safe_deliverWebhook split: sum.split)

subsection \<open>The server\<close>

lemma safe_serve:
  assumes "\<And>key r. req = PostIntents key (Some r) \<Longrightarrow> small (ciAmount r)"
    "\<And>iid key a. req = PostRefund iid key (JSONBody (Some a)) \<Longrightarrow> small a"
  shows "\<exists>d \<in> {{#}, {#Reserved (envUUID e 0)#}}. safe_with d (serve_proc e decode req)"
proof (cases "\<exists>key body. req = PostIntents key body")
  case True
  with assms(1) safe_CreateIntent show ?thesis by fastforce
next
  case False
  have "safe_with {#} (serve_proc e decode req)"
    using False assms(2)
    by (cases req)
       (auto simp: read_proc_def Capture_proc_def Void_proc_def Refund_proc_def
          ThreeDSChallenge_proc_def intro!: safe_replay safe_captureHandle safe_voidHandle
          safe_refundHandle safe_threeDSHandle safe_bind [OF safe_Webhook] safe_StepI
          split: body_in.split option.split)
  then show ?thesis by simp
qed

lemma conc_pool_inv:
  assumes "conc decode ok svc0 U c" and "J {} svc0 {#}"
    and "\<And>key r. ok (PostIntents key (Some r)) \<Longrightarrow> small (ciAmount r)"
      "\<And>iid key a. ok (PostRefund iid key (JSONBody (Some a))) \<Longrightarrow> small a"
  shows "pool_inv J U c"
  using assms(1)
proof (induction rule: conc.induct)
  case conc_init
  show ?case by (rule pool_inv_start) (rule assms(2))
next
  case (conc_arrive U svc ts req e)
  obtain d where d: "d = {#} \<or> d = {#Reserved (envUUID e 0)#}" "safe_with d (serve_proc e decode req)"
    using safe_serve [of req e decode] assms(3,4) conc_arrive.hyps(2) by blast
  have "J (insert (envUUID e 0) U) svc (D + d)" if "J U svc D" for D
  proof -
    from J_reserve [OF that conc_arrive.hyps(3)]
    have r: "J (insert (envUUID e 0) U) svc (D + {#Reserved (envUUID e 0)#})" .
    from d(1) show ?thesis using r J_release [OF r] by (elim disjE) simp_all
  qed
  then show ?case by (rule pool_inv_arrive [OF conc_arrive.IH d(2)])
next
  case (conc_tick U c c')
  then show ?case by (blast intro: pool_inv_tick)
qed

end

end
