(* ===== verification/ConcLedger.thy ===== *)
theory ConcLedger
  imports ConcInv Scenario
begin

text \<open>
  The ledger of the concurrent server: totals are the rows stored plus the rows that requests in
  flight still owe. An instance of \<open>conc_inv\<close> on every \<open>ledger_store\<close>.
\<close>

section \<open>The ledger with rows in flight\<close>

text \<open>What a ghost adds to the rows of intent \<open>k\<close>.\<close>

fun owesCapture :: "string \<Rightarrow> ghost \<Rightarrow> int64" where
  "owesCapture k (OwesCapture c) = (if caIntentID c = k then caAmount c else 0)"
| "owesCapture k _ = 0"

fun owesRefund :: "string \<Rightarrow> ghost \<Rightarrow> int64" where
  "owesRefund k (OwesRefund r) = (if reIntentID r = k then reAmount r else 0)"
| "owesRefund k _ = 0"

fun owesSettlement :: "string \<Rightarrow> ghost \<Rightarrow> int64" where
  "owesSettlement k (OwesSettlement s) = (if seIntentID s = k then seSettledAmount s else 0)"
| "owesSettlement k _ = 0"

fun about :: "string \<Rightarrow> ghost \<Rightarrow> bool" where
  "about k (OwesCapture c) = (caIntentID c = k)"
| "about k (OwesRefund r) = (reIntentID r = k)"
| "about k (OwesSettlement s) = (seIntentID s = k)"
| "about k (Reserved u) = False"

definition totals_with :: "rows \<Rightarrow> ghost multiset \<Rightarrow> string \<Rightarrow> intent \<Rightarrow> bool" where
  "totals_with rw D k i \<longleftrightarrow>
     iCapturedAmount i = sumCaptures (rwCaptures rw k) + (\<Sum>g \<in># D. owesCapture k g) \<and>
     iRefundedAmount i = sumRefunds (rwRefunds rw k) + (\<Sum>g \<in># D. owesRefund k g) \<and>
     iSettledAmount i = sumSettlements (rwSettlements rw k) + (\<Sum>g \<in># D. owesSettlement k g)"

definition ledger_with :: "string set \<Rightarrow> (string \<rightharpoonup> intent) \<Rightarrow> rows \<Rightarrow> ghost multiset \<Rightarrow> bool" where
  "ledger_with U m rw D \<longleftrightarrow>
     (\<forall>k i. m k = Some i \<longrightarrow> k \<in> U \<and> iID i = k \<and> totals_with rw D k i) \<and>
     (\<forall>k. m k = None \<longrightarrow> no_rows rw k \<and> (\<forall>g \<in># D. \<not> about k g)) \<and>
     (\<forall>k. Reserved k \<in># D \<longrightarrow> k \<in> U \<and> m k = None \<and> count D (Reserved k) = 1)"

definition conc_ledger ::
  "('s, fx) store_iface \<Rightarrow> string set \<Rightarrow> ('s, 'i) service \<Rightarrow> ghost multiset \<Rightarrow> bool" where
  "conc_ledger I U svc D \<longleftrightarrow>
     svStoreI svc = I \<and> rails_ok (svRails svc) \<and>
     ledger_with U (intents_of I (svStore svc)) (rows_of I (svStore svc)) D"

text \<open>With nothing in flight it is the ledger of the sequential service.\<close>

lemma ledger_with_none: "ledger_with U m rw {#} \<Longrightarrow> ledger_ok m rw"
  by (simp add: ledger_with_def ledger_ok_def totals_with_def totals_ok_def)

lemma about_sum:
  assumes "\<forall>g \<in># D. \<not> about k g"
  shows "(\<Sum>g \<in># D. owesCapture k g) = 0" "(\<Sum>g \<in># D. owesRefund k g) = 0"
    "(\<Sum>g \<in># D. owesSettlement k g) = 0"
proof -
  have "\<not> about k g \<Longrightarrow> owesCapture k g = 0 \<and> owesRefund k g = 0 \<and> owesSettlement k g = 0" for g
    by (cases g) simp_all
  with assms show "(\<Sum>g \<in># D. owesCapture k g) = 0" "(\<Sum>g \<in># D. owesRefund k g) = 0"
    "(\<Sum>g \<in># D. owesSettlement k g) = 0"
    by (simp_all add: sum_mset.neutral)
qed

lemma ledger_with_update:
  assumes l: "ledger_with U m rw D" and k: "m k = Some i" and j: "iID j = k"
    and tot: "iCapturedAmount j = iCapturedAmount i + (\<Sum>g \<in># d. owesCapture k g)"
      "iRefundedAmount j = iRefundedAmount i + (\<Sum>g \<in># d. owesRefund k g)"
      "iSettledAmount j = iSettledAmount i + (\<Sum>g \<in># d. owesSettlement k g)"
    and d: "\<forall>g \<in># d. about k g"
  shows "ledger_with U (m(k \<mapsto> j)) rw (D + d)"
proof -
  have other: "\<forall>g \<in># d. \<not> about k' g" if "k' \<noteq> k" for k'
  proof
    fix g assume "g \<in># d"
    with d that show "\<not> about k' g" by (cases g) auto
  qed
  have none: "Reserved u \<notin># d" for u using d by fastforce
  have "totals_with rw D k i" using l k by (simp add: ledger_with_def)
  with tot have "totals_with rw (D + d) k j" by (simp add: totals_with_def)
  moreover have "totals_with rw (D + d) k' i'" if "k' \<noteq> k" "m k' = Some i'" for k' i'
    using l that about_sum [OF other [OF that(1)]] by (simp add: ledger_with_def totals_with_def)
  ultimately show ?thesis
    using l k j other none by (auto simp: ledger_with_def not_in_iff [symmetric] count_eq_zero_iff)
qed

lemma ledger_with_create:
  assumes l: "ledger_with U m rw (D + {#Reserved k#})" and j: "iID j = k"
    and tot: "iCapturedAmount j = sumCaptures cs" "iRefundedAmount j = 0" "iSettledAmount j = 0"
    and cs: "\<forall>c \<in> set cs. caIntentID c = k"
  shows "ledger_with U (m(k \<mapsto> j)) rw (D + mset (map OwesCapture cs))"
proof -
  have r: "k \<in> U" "m k = None" "Reserved k \<notin># D"
    using l by (auto simp: ledger_with_def count_eq_zero_iff)
  have new: "no_rows rw k" "\<forall>g \<in># D. \<not> about k g" using l r by (auto simp: ledger_with_def)
  have "(\<Sum>c \<leftarrow> cs. owesCapture k (OwesCapture c)) = sumCaptures cs"
    using cs by (induction cs) auto
  then have sums: "(\<Sum>g \<in># mset (map OwesCapture cs). owesCapture k g) = sumCaptures cs"
    "(\<Sum>g \<in># mset (map OwesCapture cs). owesRefund k g) = 0"
    "(\<Sum>g \<in># mset (map OwesCapture cs). owesSettlement k g) = 0"
    by (simp_all add: sum_mset_sum_list comp_def flip: mset_map)
  have other: "\<forall>g \<in># mset (map OwesCapture cs). \<not> about k' g" if "k' \<noteq> k" for k'
    using that cs by auto
  have "totals_with rw (D + mset (map OwesCapture cs)) k j"
    using tot new about_sum [OF new(2)] sums by (simp add: totals_with_def no_rows_def)
  moreover have "totals_with rw (D + mset (map OwesCapture cs)) k' i'" if "k' \<noteq> k" "m k' = Some i'" for k' i'
    using l that about_sum [OF other [OF that(1)]] by (simp add: ledger_with_def totals_with_def)
  ultimately show ?thesis
    using l r j cs by (auto simp: ledger_with_def count_eq_zero_iff image_iff)
qed

lemma ledger_with_reserve:
  assumes "ledger_with U m rw D" "k \<notin> U"
  shows "ledger_with (insert k U) m rw (D + {#Reserved k#})"
proof -
  have "m k = None" using assms by (cases "m k") (auto simp: ledger_with_def)
  with assms show ?thesis by (auto simp: ledger_with_def totals_with_def count_eq_zero_iff)
qed

lemma ledger_with_release: "ledger_with U m rw (D + {#Reserved k#}) \<Longrightarrow> ledger_with U m rw D"
  by (auto simp: ledger_with_def totals_with_def split: if_splits)

text \<open>A row that is added moves from the debts to the rows.\<close>

lemma ledger_with_pay:
  assumes l: "ledger_with U m rw (D + {#g#})" and g: "about k g"
    and rw': "\<And>k'. sumCaptures (rwCaptures rw' k') = sumCaptures (rwCaptures rw k') + owesCapture k' g"
      "\<And>k'. sumRefunds (rwRefunds rw' k') = sumRefunds (rwRefunds rw k') + owesRefund k' g"
      "\<And>k'. sumSettlements (rwSettlements rw' k') = sumSettlements (rwSettlements rw k') + owesSettlement k' g"
      "\<And>k'. k' \<noteq> k \<Longrightarrow> no_rows rw' k' = no_rows rw k'"
  shows "ledger_with U m rw' D"
proof -
  have "m k \<noteq> None" using l g by (auto simp: ledger_with_def)
  then have "no_rows rw' k'" if "m k' = None" for k'
    using l that rw'(4) [of k'] by (cases "k' = k") (auto simp: ledger_with_def)
  then show ?thesis
    using l rw'(1-3) by (auto simp: ledger_with_def totals_with_def algebra_simps split: if_splits)
qed

text \<open>The record a balanced callback leaves is what its handler owes.\<close>

lemma owed_sums:
  assumes "\<forall>c. fxCapture w = Some c \<longrightarrow> caIntentID c = k \<and> kd = CaptureRow"
    and "\<forall>x. fxRefund w = Some x \<longrightarrow> reIntentID x = k \<and> kd = RefundRow"
    and "\<forall>x. fxSettlement w = Some x \<longrightarrow> seIntentID x = k \<and> kd = SettlementRow"
  shows "(\<Sum>g \<in># owed kd w. owesCapture k g) = sumCaptures (opt_list (fxCapture w))"
    "(\<Sum>g \<in># owed kd w. owesRefund k g) = sumRefunds (opt_list (fxRefund w))"
    "(\<Sum>g \<in># owed kd w. owesSettlement k g) = sumSettlements (opt_list (fxSettlement w))"
    "\<forall>g \<in># owed kd w. about k g"
  using assms
  by (cases kd; cases "fxCapture w"; cases "fxRefund w"; cases "fxSettlement w"; simp add: owed_def)+

context ledger_store
begin

lemma conc_ledger_update:
  assumes J: "conc_ledger I U svc D" and fn: "cb_balanced kd fn"
    and u: "updateIntent t iid fn svc = (r, w, svc1)"
  shows "conc_ledger I U svc1 (D + (if r = UpdPanic then {#} else owed kd w))"
proof (cases "intents_of I (svStore svc) iid")
  case None
  have I: "svStoreI svc = I" using J by (simp add: conc_ledger_def)
  have "svc1 = svc" "w = fx_of svc" using updateIntent_missing [OF I None, of t fn] u by auto
  with J show ?thesis by (simp add: owed_def split: row_kind.split)
next
  case (Some i)
  have I: "svStoreI svc = I"
    and l: "ledger_with U (intents_of I (svStore svc)) (rows_of I (svStore svc)) D"
    using J by (simp_all add: conc_ledger_def)
  obtain r0 i' s' where f: "fn i (fx_of svc) = (r0, i', w)" and r: "r = updres_of r0 i'"
    and svc1: "svc1 = put_fx w (svc\<lparr>svStore := s'\<rparr>)"
    and s': "intents_of I s' = (intents_of I (svStore svc))(iid \<mapsto> i')"
      "rows_of I s' = rows_of I (svStore svc)"
    using updateIntent_found [OF I Some, of fn t thesis] u by auto
  have i: "iID i = iid" using l Some by (simp add: ledger_with_def)
  then have i': "iID i' = iid" using fn f unfolding cb_balanced_def by (metis fx_of_sel(2-4))
  note bal = cb_balancedD [OF fn f, simplified i, simplified]
  have "r = UpdPanic \<Longrightarrow> r0 = FnPanic" using r by (cases r0) (simp_all add: updres_of_def)
  with bal(4-6) have "r = UpdPanic \<Longrightarrow> owed kd w = {#}"
    by (cases kd; cases "fxCapture w"; cases "fxRefund w"; cases "fxSettlement w") (auto simp: owed_def)
  then have o: "(if r = UpdPanic then {#} else owed kd w) = owed kd w" by simp
  have "ledger_with U ((intents_of I (svStore svc))(iid \<mapsto> i')) (rows_of I (svStore svc)) (D + owed kd w)"
    using bal(1-3) bal(4-6) owed_sums [of w iid kd] by (intro ledger_with_update [OF l Some i']) simp_all
  with J o svc1 s' show ?thesis by (simp add: conc_ledger_def)
qed

lemma conc_ledger_rows:
  assumes "conc_ledger I U svc (D + {#g#})" "about k g" "intents_of I s = intents_of I (svStore svc)"
    and "\<And>k'. sumCaptures (rwCaptures (rows_of I s) k') =
        sumCaptures (rwCaptures (rows_of I (svStore svc)) k') + owesCapture k' g"
      "\<And>k'. sumRefunds (rwRefunds (rows_of I s) k') =
        sumRefunds (rwRefunds (rows_of I (svStore svc)) k') + owesRefund k' g"
      "\<And>k'. sumSettlements (rwSettlements (rows_of I s) k') =
        sumSettlements (rwSettlements (rows_of I (svStore svc)) k') + owesSettlement k' g"
      "\<And>k'. k' \<noteq> k \<Longrightarrow> no_rows (rows_of I s) k' = no_rows (rows_of I (svStore svc)) k'"
  shows "conc_ledger I U (svc\<lparr>svStore := s\<rparr>) D"
  using assms(1,3) ledger_with_pay [OF _ assms(2,4-7)] by (simp add: conc_ledger_def)

end

sublocale ledger_store \<subseteq> ledger: conc_inv I "intents_of I" "\<lambda>s. (intents_of I s, rows_of I s)"
  "conc_ledger I" rails_ok cb_balanced "\<lambda>a. True"
proof (unfold_locales, goal_cases)
  case (9 U svc D kd fn t iid r w svc1)
  then show ?case by (rule conc_ledger_update)
next
  case (10 U svc D c)
  then show ?case
    by (rule conc_ledger_rows [where k = "caIntentID c"]) (simp_all add: rows_AddCapture no_rows_def)
next
  case (11 U svc D rf)
  then show ?case
    by (rule conc_ledger_rows [where k = "reIntentID rf"]) (simp_all add: rows_AddRefund no_rows_def)
next
  case (12 U svc D se)
  then show ?case
    by (rule conc_ledger_rows [where k = "seIntentID se"]) (simp_all add: rows_AddSettlement no_rows_def)
next
  case (13 U svc D e key req i cs)
  then show ?case
    using ledger_with_create [of U "intents_of I (svStore svc)" "rows_of I (svStore svc)" D "envUUID e 0" i cs]
    by (simp add: conc_ledger_def born_def intents_create)
qed (auto simp: conc_ledger_def ledger_with_reserve [simplified] dest: ledger_with_release [simplified]
      intro: captureFn_balanced voidFn_balanced refundFn_balanced threeDSFn_balanced
        settlementFn_balanced chargebackOpenedFn_balanced reversalFn_balanced noteFn_balanced)

end
