(* ===== verification/ConcTypes.thy ===== *)
theory ConcTypes
  imports ConcLedger
begin

text \<open>
  Two more invariants of the concurrent server, on any store that keeps the contract of
  \<open>intent_store\<close>: the amounts of an intent are in order, and an intent is well-formed, with a
  status that its rail can have.
\<close>

section \<open>Amounts in order\<close>

sublocale service_store \<subseteq> corder: conc_inv I stored stored
  "\<lambda>U svc D. orderly I stored (core svc)" rails_full "\<lambda>kd. cb_in_order" "\<lambda>a. sint a < 2 ^ 62"
proof (unfold_locales, goal_cases)
  case (9 U svc D kd fn t iid r w svc1)
  then show ?case using updateIntent_orderly [OF 9, of NoRow] by (simp add: commit_def)
next
  case (13 U svc D e key req i cs)
  have "iCapturedAmount i = 0 \<or> iCapturedAmount i = iAmount i"
    using 13(2) full_submit_adapter.submit_full [OF rails_fullD]
    unfolding born_def by (metis list.map(1) sum_list.Nil)
  with 13 have i: "iID i = envUUID e 0" "in_order i"
    by (auto simp: born_def in_order_def createInvalid_None)
  have m: "order_ok (stored (svStore svc))" using 13(1) by (simp add: orderly_def)
  have "order_ok ((stored (svStore svc))(iID i \<mapsto> j))" if "same_intent i j" for j
    using order_ok_upd [OF m, of j "iID i"] in_order_frame [of i j] same_intent_frame [OF that] i by simp
  with create_stored [of i "svStore svc"] m 13(1) show ?case by (auto simp: orderly_def)
qed (auto simp: orderly_def intro!: captureFn_in_order voidFn_in_order refundFn_in_order
      threeDSFn_in_order webhookFns_in_order)

context service_store
begin

lemma orderly_conc:
  assumes "conc decode small_request svc0 U (svc, ts)" "orderly I stored (core svc0)"
  shows "orderly I stored (core svc)"
  using corder.conc_pool_inv [OF assms] by (auto simp: pool_inv_def)

end

section \<open>Well-formed intents\<close>

text \<open>
  The statuses an intent at rest can have: never \<open>intent\<close> or \<open>refunding\<close>, which are left within
  the request that enters them. Instant rails are captured when they are created; the bank rails
  (ACH, SEPA) cannot be captured, so that they are never settled, refunded or charged back.
\<close>

definition status_fits :: "rail \<Rightarrow> status \<Rightarrow> bool" where
  "status_fits rl st =
     (if rl = RailCard then st \<noteq> StatusIntent \<and> st \<noteq> StatusRefunding
      else if IsInstant rl
           then st \<in> {StatusCaptured, StatusSettled, StatusRefunded, StatusChargedBack,
                      StatusChargebackWon, StatusChargebackLost, StatusFailed}
      else st \<in> {StatusAuthorized, StatusVoided, StatusFailed})"

definition typed_intent :: "intent \<Rightarrow> bool" where
  "typed_intent i \<longleftrightarrow>
     IsValidRail (iRail i) \<and> 0 < sint (iAmount i) \<and> iCurrency i \<noteq> '''' \<and> iPayerRef i \<noteq> '''' \<and>
     iIdempotencyKey i \<noteq> '''' \<and> (iThreeDSRequired i \<longrightarrow> iRail i = RailCard) \<and>
     (iStatus i = Status3DSPending \<longrightarrow> iThreeDSRequired i) \<and> status_fits (iRail i) (iStatus i) \<and>
     (\<exists>ev h. iHistory i = ev # h \<and> evType ev = EventCreated)"

definition types_ok :: "(string \<rightharpoonup> intent) \<Rightarrow> bool" where
  "types_ok m \<longleftrightarrow> (\<forall>k i. m k = Some i \<longrightarrow> iID i = k \<and> typed_intent i)"

definition cb_typed :: "fx callback \<Rightarrow> bool" where
  "cb_typed fn \<longleftrightarrow>
     (\<forall>i w r i' w'. typed_intent i \<longrightarrow> fn i w = (r, i', w') \<longrightarrow> iID i' = iID i \<and> typed_intent i')"

lemma typed_frame:
  assumes "typed_intent i" "iRail i' = iRail i" "iAmount i' = iAmount i" "iCurrency i' = iCurrency i"
    "iPayerRef i' = iPayerRef i" "iIdempotencyKey i' = iIdempotencyKey i"
    "iThreeDSRequired i' = iThreeDSRequired i" "iStatus i' = iStatus i" "iHistory i' = iHistory i"
  shows "typed_intent i'"
  using assms by (simp add: typed_intent_def)

text \<open>A history grows at its end, so its first event stays.\<close>

lemma typed_AppendEvent [simp]: "typed_intent i \<Longrightarrow> typed_intent (AppendEvent t t' ty d i)"
  by (auto simp: typed_intent_def AppendEvent_def)

lemma typed_amounts [simp]:
  "typed_intent (i\<lparr>iCapturedAmount := a\<rparr>) = typed_intent i"
  "typed_intent (i\<lparr>iRefundedAmount := a\<rparr>) = typed_intent i"
  "typed_intent (i\<lparr>iSettledAmount := a\<rparr>) = typed_intent i"
  "typed_intent (i\<lparr>iExternalID := x\<rparr>) = typed_intent i"
  by (simp_all add: typed_intent_def)

lemma typed_status:
  assumes "typed_intent i" "status_fits (iRail i) st" "st \<noteq> Status3DSPending"
  shows "typed_intent (i\<lparr>iStatus := st\<rparr>)"
  using assms by (simp add: typed_intent_def)

lemma AppendEvent_status [simp]:
  "(AppendEvent t t' ty d i)\<lparr>iStatus := st\<rparr> = AppendEvent t t' ty d (i\<lparr>iStatus := st\<rparr>)"
  by (simp add: AppendEvent_def)

lemma typed_fits: "typed_intent i \<Longrightarrow> status_fits (iRail i) (iStatus i)"
  by (simp add: typed_intent_def)

lemma captureFn_typed:
  assumes "rails_ok rg" shows "cb_typed (captureFn e rg amt)"
  unfolding cb_typed_def
  by (auto simp: captureFn_def captureDone_def cb_unfold status_fits_def
        dest!: rail_adapter.pure_results(1) [OF rails_okD [OF assms]] split: cb_splits
        intro!: typed_AppendEvent typed_status)

lemma voidFn_typed:
  assumes "rails_ok rg" shows "cb_typed (voidFn e rg)"
  unfolding cb_typed_def
  by (auto simp: voidFn_def cb_unfold status_fits_def
        dest!: rail_adapter.pure_results(3) [OF rails_okD [OF assms]] dest: typed_fits split: cb_splits
        intro!: typed_AppendEvent typed_status)

lemma refundFn_typed:
  assumes "rails_ok rg" shows "cb_typed (refundFn e rg amt)"
  unfolding cb_typed_def
  by (auto simp: refundFn_def refundDone_def cb_unfold status_fits_def
        dest!: rail_adapter.pure_results(2) [OF rails_okD [OF assms]] dest: typed_fits split: cb_splits
        intro!: typed_AppendEvent typed_status)

lemma threeDSFail_typed:
  assumes "typed_intent i" "iStatus i = Status3DSPending" "threeDSFail e d ed err i w = (r, i', w')"
  shows "iID i' = iID i \<and> typed_intent i'"
  using assms typed_fits [OF assms(1)]
  by (auto simp: threeDSFail_def cb_unfold status_fits_def intro!: typed_AppendEvent typed_status
      split: if_splits)

lemma threeDSAuthorize_typed:
  assumes a: "rail_adapter a" and i: "typed_intent i" "iStatus i = Status3DSPending"
    and f: "threeDSAuthorize e a i w = (r, i', w')"
  shows "iID i' = iID i \<and> typed_intent i'"
proof (cases "ad_Authorize a i")
  case (Pair res i1)
  obtain x where i1: "i1 = i\<lparr>iExternalID := x\<rparr>"
    using rail_adapter.authorize_frame [OF a, of i] Pair by auto
  show ?thesis
  proof (cases res)
    case None
    with Pair i1 i f typed_fits [OF i(1)] show ?thesis
      by (auto simp: threeDSAuthorize_def cb_unfold status_fits_def intro!: typed_AppendEvent typed_status
          split: if_splits)
  next
    case (Some err)
    with Pair f have "threeDSFail e (''authorize failed after 3ds: '' @ error_text err)
        (error_text err) err i1 w = (r, i', w')" by (simp add: threeDSAuthorize_def)
    from threeDSFail_typed [OF _ _ this] i1 i show ?thesis by simp
  qed
qed

lemma threeDSFn_typed:
  assumes "rails_ok rg" shows "cb_typed (threeDSFn e window mpi rg res)"
  unfolding cb_typed_def
proof (intro allI impI)
  fix i w r i' w'
  assume i: "typed_intent i" and f: "threeDSFn e window mpi rg res i w = (r, i', w')"
  from assms f show "iID i' = iID i \<and> typed_intent i'"
  proof (cases rule: threeDSFn_cases)
    case same
    with i show ?thesis by simp
  next
    case fail
    from threeDSFail_typed [OF i this] show ?thesis .
  next
    case auth
    from threeDSAuthorize_typed [OF auth(3) i auth(1,7)] show ?thesis .
  qed
qed

text \<open>The moves a webhook can make keep the status within what the rail allows.\<close>

lemma fits_moves:
  "status_fits rl StatusCaptured \<Longrightarrow> status_fits rl StatusSettled"
  "status_fits rl StatusCaptured \<Longrightarrow> status_fits rl StatusChargedBack"
  "status_fits rl StatusSettled \<Longrightarrow> status_fits rl StatusChargedBack"
  "status_fits rl StatusChargedBack \<Longrightarrow> status_fits rl StatusChargebackWon"
  "status_fits rl StatusChargedBack \<Longrightarrow> status_fits rl StatusChargebackLost"
  by (auto simp: status_fits_def split: if_splits)

lemma settlementFn_typed: "cb_typed (settlementFn e rl wb)"
  unfolding cb_typed_def
proof (intro allI impI)
  fix i w r i' w'
  assume i: "typed_intent i" and f: "settlementFn e rl wb i w = (r, i', w')"
  have "typed_intent (i\<lparr>iStatus := StatusSettled\<rparr>)" if "iStatus i = StatusCaptured"
    using that i typed_fits [OF i] by (intro typed_status) (simp_all add: fits_moves)
  then have t: "typed_intent (i\<lparr>iSettledAmount := a, iStatus := StatusSettled\<rparr>)" if "iStatus i = StatusCaptured" for a
    using that by (simp add: typed_intent_def)
  show "iID i' = iID i \<and> typed_intent i'"
    using f i t by (cases "iStatus i = StatusCaptured") (auto simp: settlementFn_def cb_unfold split: if_splits)
qed

lemma chargebackOpenedFn_typed: "cb_typed (chargebackOpenedFn e rl)"
  unfolding cb_typed_def
proof (intro allI impI)
  fix i w r i' w'
  assume i: "typed_intent i" and f: "chargebackOpenedFn e rl i w = (r, i', w')"
  have t: "typed_intent (i\<lparr>iStatus := StatusChargedBack\<rparr>)" if "iStatus i \<in> {StatusCaptured, StatusSettled}"
    using that i typed_fits [OF i] by (intro typed_status) (auto simp: fits_moves)
  show "iID i' = iID i \<and> typed_intent i'"
    using f i t by (cases "iStatus i \<in> {StatusCaptured, StatusSettled}")
      (auto simp: chargebackOpenedFn_def cb_unfold split: if_splits)
qed

lemma reversalFn_typed: "cb_typed (reversalFn e wb)"
  unfolding cb_typed_def
proof (intro allI impI)
  fix i w r i' w'
  assume i: "typed_intent i" and f: "reversalFn e wb i w = (r, i', w')"
  have t: "typed_intent (i\<lparr>iStatus := StatusChargebackWon\<rparr>)" "typed_intent (i\<lparr>iStatus := StatusChargebackLost\<rparr>)"
    if "iStatus i = StatusChargedBack"
    using that i typed_fits [OF i] by (auto intro!: typed_status simp: fits_moves)
  show "iID i' = iID i \<and> typed_intent i'"
    using f i t by (cases "iStatus i = StatusChargedBack")
      (auto simp: reversalFn_def cb_unfold split: if_splits)
qed

lemma noteFn_typed: "cb_typed (noteFn e rl wb)"
  by (auto simp: cb_typed_def noteFn_def)

lemma born_typed:
  assumes b: "born R e key req i cs" and "key \<noteq> ''''" and req: "createInvalid req = None"
  shows "typed_intent i"
proof -
  have "status_fits (iRail i) (iStatus i)"
    using b req by (auto simp: born_def status_fits_def createInvalid_None IsInstant_def)
  with assms show ?thesis by (auto simp: typed_intent_def born_def createInvalid_None)
qed

definition conc_typed ::
  "('s, fx) store_iface \<Rightarrow> ('s \<Rightarrow> (string \<rightharpoonup> intent)) \<Rightarrow> ('s, 'i) service \<Rightarrow> bool" where
  "conc_typed I stored svc \<longleftrightarrow>
     svStoreI svc = I \<and> rails_ok (svRails svc) \<and> types_ok (stored (svStore svc))"

lemma same_intent_typed: "same_intent i j \<Longrightarrow> typed_intent i \<Longrightarrow> typed_intent j"
  by (auto simp: same_intent_def typed_intent_def)

lemma types_ok_upd:
  assumes "types_ok m" "typed_intent i" "iID i = k" "same_intent i j" shows "types_ok (m(k \<mapsto> j))"
  using assms same_intent_typed [OF assms(4)] same_intent_frame(1) [OF assms(4)] by (simp add: types_ok_def)

sublocale service_store \<subseteq> ctyped: conc_inv I stored stored "\<lambda>U svc D. conc_typed I stored svc"
  rails_ok "\<lambda>kd. cb_typed" "\<lambda>a. True"
proof (unfold_locales, goal_cases)
  case (9 U svc D kd fn t iid r w svc1)
  then have m: "types_ok (stored (svStore svc))" and I: "svStoreI svc = I"
    by (simp_all add: conc_typed_def)
  from I 9(3) show ?case
  proof (cases rule: updateIntent_cases)
    case (refused err)
    with 9(1) show ?thesis by (auto simp: conc_typed_def)
  next
    case (ran i r0 i' s')
    from m ran(1) have i: "iID i = iid" "typed_intent i" by (auto simp: types_ok_def)
    with 9(2) ran(2) have i': "iID i' = iid" "typed_intent i'" unfolding cb_typed_def by blast+
    from ran(5) [OF i(1) i'(1)] have "types_ok (stored s')"
      using m types_ok_upd [OF m i'(2,1)] by auto
    with 9(1) ran(4) show ?thesis by (simp add: conc_typed_def)
  qed
next
  case (13 U svc D e key req i cs)
  have m: "types_ok (stored (svStore svc))" using 13(1) by (simp add: conc_typed_def)
  with create_stored [of i "svStore svc"] types_ok_upd [OF m born_typed [OF 13(2-4)] refl] 13(1)
  show ?case by (auto simp: conc_typed_def)
qed (auto simp: conc_typed_def intro!: captureFn_typed voidFn_typed refundFn_typed threeDSFn_typed
      settlementFn_typed chargebackOpenedFn_typed reversalFn_typed noteFn_typed)

context service_store
begin

lemma typed_conc:
  assumes "conc decode ok svc0 U (svc, ts)" "conc_typed I stored svc0"
  shows "conc_typed I stored svc"
  using ctyped.conc_pool_inv [OF assms] by (auto simp: pool_inv_def)

end

end
