(* ===== verification/ConcOnce.thy ===== *)
theory ConcOnce
  imports ConcTypes
begin

text \<open>
  An intent is settled at most once, however many settlement webhooks race for it: the callback
  settles captured intents only and moves them on, and it runs under the lock of the store.
\<close>

text \<open>The statuses before a settlement.\<close>

definition unsettled :: "status \<Rightarrow> bool" where
  "unsettled st \<longleftrightarrow> st \<in> {StatusIntent, Status3DSPending, StatusAuthorized, StatusCaptured}"

lemma unsettled_simps [simp]:
  "unsettled StatusIntent" "unsettled Status3DSPending" "unsettled StatusAuthorized"
  "unsettled StatusCaptured" "\<not> unsettled StatusSettled" "\<not> unsettled StatusRefunding"
  "\<not> unsettled StatusRefunded" "\<not> unsettled StatusVoided" "\<not> unsettled StatusFailed"
  "\<not> unsettled StatusChargedBack" "\<not> unsettled StatusChargebackWon"
  "\<not> unsettled StatusChargebackLost"
  by (simp_all add: unsettled_def)

fun settles :: "string \<Rightarrow> ghost \<Rightarrow> bool" where
  "settles k (OwesSettlement s) = (seIntentID s = k)"
| "settles k _ = False"

text \<open>The settlement rows of an intent, stored or in flight.\<close>

definition settlements :: "rows \<Rightarrow> ghost multiset \<Rightarrow> string \<Rightarrow> nat" where
  "settlements rw D k = length (rwSettlements rw k) + size (filter_mset (settles k) D)"

definition once :: "(string \<rightharpoonup> intent) \<Rightarrow> rows \<Rightarrow> ghost multiset \<Rightarrow> bool" where
  "once m rw D \<longleftrightarrow>
     (\<forall>k i. m k = Some i \<longrightarrow> settlements rw D k \<le> (if unsettled (iStatus i) then 0 else 1))"

definition conc_once ::
  "('s, fx) store_iface \<Rightarrow> string set \<Rightarrow> ('s, 'i) service \<Rightarrow> ghost multiset \<Rightarrow> bool" where
  "conc_once I U svc D \<longleftrightarrow>
     conc_ledger I U svc D \<and> once (intents_of I (svStore svc)) (rows_of I (svStore svc)) D"

text \<open>
  A callback that leaves a settlement found the intent captured and moved it on; no callback
  takes an intent back before its settlement.
\<close>

definition cb_once :: "fx callback \<Rightarrow> bool" where
  "cb_once fn \<longleftrightarrow>
     (\<forall>i w r i' w'. fxSettlement w = None \<longrightarrow> fn i w = (r, i', w') \<longrightarrow>
        (if fxSettlement w' = None then unsettled (iStatus i') \<longrightarrow> unsettled (iStatus i)
         else iStatus i = StatusCaptured \<and> \<not> unsettled (iStatus i')))"

lemma captureFn_once:
  assumes "rails_ok rg" shows "cb_once (captureFn e rg amt)"
  unfolding cb_once_def
  by (auto simp: captureFn_def captureDone_def cb_unfold
        dest!: rail_adapter.pure_results(1) [OF rails_okD [OF assms]] split: cb_splits)

lemma voidFn_once:
  assumes "rails_ok rg" shows "cb_once (voidFn e rg)"
  unfolding cb_once_def
  by (auto simp: voidFn_def cb_unfold
        dest!: rail_adapter.pure_results(3) [OF rails_okD [OF assms]] split: cb_splits)

lemma Transition_status:
  "Transition t t' nxt d i = (x, i') \<Longrightarrow> iStatus i' = iStatus i \<or> iStatus i' = nxt"
  by (auto simp: Transition_def split: if_splits)

lemma refundDone_status:
  assumes "refundDone e n i w = (r, i', w')"
  shows "iStatus i' \<in> {iStatus i, StatusRefunding, StatusRefunded} \<and> fxSettlement w' = fxSettlement w"
  using assms
  by (auto simp: refundDone_def Let_def dest!: Transition_status split: prod.splits option.splits)

lemma refundFn_once:
  assumes "rails_ok rg" shows "cb_once (refundFn e rg amt)"
  unfolding cb_once_def
  by (auto simp: refundFn_def
        dest!: refundDone_status rail_adapter.pure_results(2) [OF rails_okD [OF assms]] split: cb_splits)

lemma threeDSFn_once:
  assumes "rails_ok rg" shows "cb_once (threeDSFn e window mpi rg res)"
  unfolding cb_once_def
proof (intro allI impI)
  fix i w r i' w'
  assume w: "fxSettlement w = None" and f: "threeDSFn e window mpi rg res i w = (r, i', w')"
  have w': "fxSettlement w' = None" using threeDSFn_frame [OF assms f] w by simp
  from assms f have "unsettled (iStatus i') \<longrightarrow> unsettled (iStatus i)"
    by (cases rule: threeDSFn_cases) auto
  with w' show "if fxSettlement w' = None then unsettled (iStatus i') \<longrightarrow> unsettled (iStatus i)
      else iStatus i = StatusCaptured \<and> \<not> unsettled (iStatus i')" by simp
qed

lemma settlementFn_once: "cb_once (settlementFn e rl wb)"
  unfolding cb_once_def
  by (auto simp: settlementFn_def cb_unfold split: cb_splits)

lemma chargebackOpenedFn_once: "cb_once (chargebackOpenedFn e rl)"
  unfolding cb_once_def
  by (auto simp: chargebackOpenedFn_def cb_unfold split: cb_splits)

lemma reversalFn_once: "cb_once (reversalFn e wb)"
  unfolding cb_once_def
  by (auto simp: reversalFn_def cb_unfold split: cb_splits)

lemma noteFn_once: "cb_once (noteFn e rl wb)"
  unfolding cb_once_def by (auto simp: noteFn_def)

lemma settlements_owed:
  assumes "\<forall>x. fxSettlement w = Some x \<longrightarrow> seIntentID x = k \<and> kd = SettlementRow"
  shows "settlements rw (D + owed kd w) k' =
    settlements rw D k' + (if fxSettlement w \<noteq> None \<and> k' = k then 1 else 0)"
  using assms
  by (cases kd; cases "fxCapture w"; cases "fxRefund w"; cases "fxSettlement w")
     (auto simp: settlements_def owed_def)

lemma settlements_other [simp]:
  "settlements rw (add_mset (OwesCapture c) D) k = settlements rw D k"
  "settlements rw (add_mset (OwesRefund rf) D) k = settlements rw D k"
  "settlements rw (add_mset (Reserved u) D) k = settlements rw D k"
  "settlements rw (D + mset (map OwesCapture cs)) k = settlements rw D k"
  by (induction cs) (simp_all add: settlements_def)

lemma ledger_new_settlements:
  assumes "ledger_with U m rw D" "m k = None" shows "settlements rw D k = 0"
proof -
  have "no_rows rw k" "\<forall>g \<in># D. \<not> about k g" using assms by (simp_all add: ledger_with_def)
  moreover have "settles k g \<Longrightarrow> about k g" for g by (cases g) simp_all
  ultimately have "filter_mset (settles k) D = {#}"
    by (intro multiset_eqI) (auto simp: count_eq_zero_iff)
  with \<open>no_rows rw k\<close> show ?thesis by (simp add: settlements_def no_rows_def)
qed

context ledger_store
begin

lemma conc_once_update:
  assumes J: "conc_once I U svc D" and fn: "cb_balanced kd fn \<and> cb_once fn"
    and u: "updateIntent t iid fn svc = (r, w, svc1)"
  shows "conc_once I U svc1 (D + (if r = UpdPanic then {#} else owed kd w))"
proof -
  have l: "conc_ledger I U svc D" and o: "once (intents_of I (svStore svc)) (rows_of I (svStore svc)) D"
    and I: "svStoreI svc = I" using J by (simp_all add: conc_once_def conc_ledger_def)
  have led: "conc_ledger I U svc1 (D + (if r = UpdPanic then {#} else owed kd w))"
    using conc_ledger_update [OF l _ u] fn by blast
  show ?thesis
  proof (cases "intents_of I (svStore svc) iid")
    case None
    have "svc1 = svc" "w = fx_of svc" using updateIntent_missing [OF I None, of t fn] u by auto
    with J show ?thesis by (simp add: owed_def split: row_kind.split)
  next
    case (Some i)
    obtain r0 i' s' where f: "fn i (fx_of svc) = (r0, i', w)" and r: "r = updres_of r0 i'"
      and svc1: "svc1 = put_fx w (svc\<lparr>svStore := s'\<rparr>)"
      and s': "intents_of I s' = (intents_of I (svStore svc))(iid \<mapsto> i')"
        "rows_of I s' = rows_of I (svStore svc)"
      using updateIntent_found [OF I Some, of fn t thesis] u by auto
    have i: "iID i = iid" using l Some by (simp add: conc_ledger_def ledger_with_def)
    note bal = cb_balancedD(6) [OF conjunct1 [OF fn] f, simplified i, simplified]
    have "r = UpdPanic \<Longrightarrow> r0 = FnPanic" using r by (cases r0) (simp_all add: updres_of_def)
    then have panic: "r = UpdPanic \<Longrightarrow> fxSettlement w = None" using bal by fastforce
    let ?n = "\<lambda>k. if fxSettlement w \<noteq> None \<and> k = iid then 1 else 0 :: nat"
    have n: "settlements rw (D + (if r = UpdPanic then {#} else owed kd w)) k = settlements rw D k + ?n k" for rw k
      using settlements_owed [of w iid kd rw D k] bal panic by auto
    have "if fxSettlement w = None then unsettled (iStatus i') \<longrightarrow> unsettled (iStatus i)
      else iStatus i = StatusCaptured \<and> \<not> unsettled (iStatus i')"
      using conjunct2 [OF fn] f unfolding cb_once_def by (metis fx_of_sel(4))
    moreover have "settlements (rows_of I (svStore svc)) D iid \<le> (if unsettled (iStatus i) then 0 else 1)"
      using o Some by (simp add: once_def)
    ultimately have "settlements (rows_of I (svStore svc)) D iid + ?n iid \<le>
        (if unsettled (iStatus i') then 0 else 1)" by (simp split: if_splits)
    with o have "once ((intents_of I (svStore svc))(iid \<mapsto> i')) (rows_of I (svStore svc))
        (D + (if r = UpdPanic then {#} else owed kd w))"
      unfolding once_def n by simp
    with led svc1 s' show ?thesis by (simp add: conc_once_def)
  qed
qed

lemma conc_once_create:
  assumes J: "conc_once I U svc (D + {#Reserved (envUUID e 0)#})" and b: "born rails_ok e key req i cs"
    and "key \<noteq> ''''" "createInvalid req = None"
  shows "conc_once I U (svc\<lparr>svStore := st_CreateIntent I i (svStore svc)\<rparr>) (D + mset (map OwesCapture cs))"
proof -
  have l: "conc_ledger I U svc (D + {#Reserved (envUUID e 0)#})"
    and o: "once (intents_of I (svStore svc)) (rows_of I (svStore svc)) D"
    using J by (simp_all add: conc_once_def once_def)
  have new: "intents_of I (svStore svc) (envUUID e 0) = None"
    using l by (auto simp: conc_ledger_def ledger_with_def)
  have "settlements (rows_of I (svStore svc)) D (envUUID e 0) = 0"
    using ledger_new_settlements [of U "intents_of I (svStore svc)" "rows_of I (svStore svc)"
        "D + {#Reserved (envUUID e 0)#}" "envUUID e 0"] new l by (simp add: conc_ledger_def)
  with o b have "once ((intents_of I (svStore svc))(iID i \<mapsto> i)) (rows_of I (svStore svc))
      (D + mset (map OwesCapture cs))"
    by (auto simp: once_def born_def simp del: mset_map)
  moreover have "conc_ledger I U (svc\<lparr>svStore := st_CreateIntent I i (svStore svc)\<rparr>)
      (D + mset (map OwesCapture cs))"
    by (rule ledger.J_create [OF l b assms(3,4)]) simp
  ultimately show ?thesis by (simp add: conc_once_def intents_create)
qed

lemma conc_once_length:
  assumes "conc_once I U svc D" shows "length (st_SettlementsFor I k (svStore svc)) \<le> 1"
proof (cases "intents_of I (svStore svc) k")
  case None
  with assms show ?thesis
    by (simp add: conc_once_def conc_ledger_def ledger_with_def no_rows_def rows_of_def)
next
  case (Some i)
  with assms have "settlements (rows_of I (svStore svc)) D k \<le> (if unsettled (iStatus i) then 0 else 1)"
    by (auto simp: conc_once_def once_def)
  then show ?thesis by (simp add: settlements_def rows_of_def split: if_splits)
qed

end

sublocale ledger_store \<subseteq> conce: conc_inv I "intents_of I" "\<lambda>s. (intents_of I s, rows_of I s)"
  "conc_once I" rails_ok "\<lambda>kd fn. cb_balanced kd fn \<and> cb_once fn" "\<lambda>a. True"
proof (unfold_locales, goal_cases)
  case (9 U svc D kd fn t iid r w svc1)
  then show ?case by (rule conc_once_update)
next
  case (10 U svc D c)
  then show ?case
    using ledger.J_AddCapture [of U svc D c]
    by (simp add: conc_once_def once_def rows_AddCapture settlements_def)
next
  case (11 U svc D rf)
  then show ?case
    using ledger.J_AddRefund [of U svc D rf]
    by (simp add: conc_once_def once_def rows_AddRefund settlements_def)
next
  case (12 U svc D se)
  then show ?case
    using ledger.J_AddSettlement [of U svc D se]
    by (auto simp: conc_once_def once_def rows_AddSettlement settlements_def split: if_splits)
next
  case (13 U svc D e key req i cs)
  then show ?case by (intro conc_once_create)
next
  case (14 U svc D k)
  then show ?case using ledger.J_release [of U svc D k] by (simp add: conc_once_def once_def)
next
  case (15 U svc D k)
  then show ?case using ledger.J_reserve [of U svc D k] by (simp add: conc_once_def once_def)
qed (auto simp: conc_once_def conc_ledger_def
      intro: captureFn_balanced voidFn_balanced refundFn_balanced threeDSFn_balanced
        settlementFn_balanced chargebackOpenedFn_balanced reversalFn_balanced noteFn_balanced
        captureFn_once voidFn_once refundFn_once threeDSFn_once settlementFn_once
        chargebackOpenedFn_once reversalFn_once noteFn_once)

end
