(* ===== verification/ConcProps.thy ===== *)
theory ConcProps
  imports ConcOnce
begin

text \<open>
  Properties of the concurrent server on the in-memory store, and runs of it: what holds under
  every interleaving, and three things the sequential service guarantees that concurrent
  requests can break.
\<close>

section \<open>Runs\<close>

definition arrive ::
  "env \<Rightarrow> (bytes \<Rightarrow> webhookBody) \<Rightarrow> request \<Rightarrow> (response option, ('s, 'i) service) threads
     \<Rightarrow> (response option, ('s, 'i) service) threads" where
  "arrive e decode req c = (fst c, snd c @ [serve_proc e decode req])"

lemma conc_arrive':
  assumes "conc decode ok svc0 U c" "ok req" "envUUID e 0 \<notin> U" "U' = insert (envUUID e 0) U"
  shows "conc decode ok svc0 U' (arrive e decode req c)"
  using conc_arrive [of decode ok svc0 U "fst c" "snd c" req e] assms by (simp add: arrive_def)

lemma conc_schedule: "conc decode ok svc0 U c \<Longrightarrow> conc decode ok svc0 U (schedule ks c)"
  using conc_ticks [OF schedule_tick] .

text \<open>
  A card payment of 100 is created; then two captures, of 60 and of 40, are in flight together
  and take turns.
\<close>

definition two_captures :: "(response option, (memstore, body idem_mem) service) threads" where
  "two_captures =
     schedule [1, 2, 2, 1, 1, 2, 2, 1, 1, 2]
       (arrive (demo_env ''p3'' 200) demo_decode (PostCapture ''p1'' ''k3'' (JSONBody (Some 40)))
         (arrive (demo_env ''p2'' 100) demo_decode (PostCapture ''p1'' ''k2'' (JSONBody (Some 60)))
           (schedule [0, 0, 0, 0, 0, 0]
             (arrive (demo_env ''p1'' 0) demo_decode
               (PostIntents ''k1'' (Some (demo_req RailCard 100))) (demo_service, [])))))"

lemma two_captures_conc: "conc demo_decode small_request demo_service {''p1'', ''p2'', ''p3''} two_captures"
  unfolding two_captures_def
  by (intro conc_schedule conc_arrive' conc_init) (auto simp: demo_req_def conc_init)

lemma two_captures_done:
  "quiescent two_captures"
  "map_option (\<lambda>i. (iStatus i, iCapturedAmount i)) (mem_GetIntent ''p1'' (svStore (fst two_captures))) =
     Some (StatusCaptured, 100)"
  "map caAmount (mem_CapturesFor ''p1'' (svStore (fst two_captures))) = [60, 40]"
  by code_simp+

lemma two_captures_intent:
  obtains i where "mem_GetIntent ''p1'' (svStore (fst two_captures)) = Some i"
    "iStatus i = StatusCaptured" "iCapturedAmount i = 100"
  using two_captures_done(2) that by auto

section \<open>Start\<close>

lemma booted_conc_ledger: "booted svc \<Longrightarrow> conc_ledger MemStore {} svc {#}"
  by (simp add: booted_def conc_ledger_def ledger_with_def no_rows_def NewMemStore_def slice_at_def)

lemma booted_conc_typed: "booted svc \<Longrightarrow> conc_typed MemStore (intents_of MemStore) svc"
  by (simp add: booted_def conc_typed_def types_ok_def NewMemStore_def)

section \<open>What holds under every interleaving\<close>

text \<open>
  C1. Ledger under concurrency: whatever requests arrive and however their steps interleave,
  once every request has been answered the captured, refunded and settled totals of each stored
  intent are the sums (as int64) of its capture, refund and settlement rows.
\<close>

theorem concurrent_ledger:
  assumes "conc decode ok svc0 U (svc, ts)" and "booted svc0" and "quiescent (svc, ts)"
    and "mem_GetIntent k (svStore svc) = Some i"
  shows "iCapturedAmount i = (\<Sum>c \<leftarrow> mem_CapturesFor k (svStore svc). caAmount c) \<and>
    iRefundedAmount i = (\<Sum>r \<leftarrow> mem_RefundsFor k (svStore svc). reAmount r) \<and>
    iSettledAmount i = (\<Sum>s \<leftarrow> mem_SettlementsFor k (svStore svc). seSettledAmount s)"
proof -
  have "pool_inv (conc_ledger MemStore) U (svc, ts)"
    using mem_svc.ledger.conc_pool_inv [OF assms(1) booted_conc_ledger [OF assms(2)]] by simp
  then have "conc_ledger MemStore U svc {#}" using pool_inv_quiescent [OF _ assms(3)] by simp
  then have "ledger_ok (ms_intents (svStore svc)) (rows_of MemStore (svStore svc))"
    by (auto simp: conc_ledger_def intro: ledger_with_none)
  with assms(4) show ?thesis
    by (simp add: ledger_ok_def totals_ok_def mem_GetIntent_def mem_CapturesFor_def
        mem_RefundsFor_def mem_SettlementsFor_def)
qed

theorem concurrent_ledger_witness:
  "quiescent two_captures \<and>
   (\<exists>i. mem_GetIntent ''p1'' (svStore (fst two_captures)) = Some i \<and> iCapturedAmount i = 100 \<and>
      100 = (\<Sum>c \<leftarrow> mem_CapturesFor ''p1'' (svStore (fst two_captures)). caAmount c))"
proof -
  obtain i where i: "mem_GetIntent ''p1'' (svStore (fst two_captures)) = Some i" "iCapturedAmount i = 100"
    using two_captures_intent by blast
  with concurrent_ledger [of demo_decode small_request demo_service _ "fst two_captures" "snd two_captures",
      simplified, OF two_captures_conc booted_demo(1) two_captures_done(1) i(1)] two_captures_done(1)
  show ?thesis by auto
qed

text \<open>
  C3. Amounts under concurrency: as long as requests carry amounts below \<open>2^62\<close> and instant rails
  submit for the whole amount, at every moment of every interleaving refunds are at most
  captures and captures at most the authorized amount; no race of two captures or two refunds
  can take more.
\<close>

theorem concurrent_amounts_in_order:
  assumes "conc decode small_request svc0 U (svc, ts)" and "booted svc0" and "rails_full (svRails svc0)"
    and "mem_GetIntent k (svStore svc) = Some i"
  shows "0 \<le> sint (iRefundedAmount i) \<and> sint (iRefundedAmount i) \<le> sint (iCapturedAmount i) \<and>
    sint (iCapturedAmount i) \<le> sint (iAmount i) \<and> sint (iAmount i) < 2 ^ 62"
  using mem_svc.corder.conc_pool_inv [OF assms(1) booted_orderly [OF assms(2,3)]] assms(4)
  by (auto simp: pool_inv_def orderly_def order_ok_def in_order_def mem_GetIntent_def)

theorem concurrent_amounts_in_order_witness:
  "\<exists>i. mem_GetIntent ''p1'' (svStore (fst two_captures)) = Some i \<and>
     sint (iCapturedAmount i) \<le> sint (iAmount i)"
proof -
  obtain i where i: "mem_GetIntent ''p1'' (svStore (fst two_captures)) = Some i"
    using two_captures_intent by blast
  with concurrent_amounts_in_order [of demo_decode demo_service _ "fst two_captures" "snd two_captures",
      simplified, OF two_captures_conc booted_demo(1) booted_demo(2) i(1)]
  show ?thesis by auto
qed

text \<open>
  C15. Well-formedness under concurrency: at every moment every stored intent is filed under its
  own id, has a supported rail, a positive amount, a currency, a payer and an idempotency key,
  asks for 3DS only on the card rail, is pending on 3DS only if it asked for it, has a history
  that begins with its creation, and has a status its rail can have: never \<open>intent\<close> or
  \<open>refunding\<close>, and for the bank rails nothing but authorized, voided or failed.
\<close>

theorem concurrent_well_formed:
  assumes "conc decode ok svc0 U (svc, ts)" and "booted svc0" and "mem_GetIntent k (svStore svc) = Some i"
  shows "iID i = k \<and> typed_intent i"
  using mem_svc.ctyped.conc_pool_inv [OF assms(1) booted_conc_typed [OF assms(2)]] assms(3)
  by (auto simp: pool_inv_def conc_typed_def types_ok_def mem_GetIntent_def)

theorem concurrent_well_formed_witness:
  "\<exists>i. mem_GetIntent ''p1'' (svStore (fst two_captures)) = Some i \<and> typed_intent i"
proof -
  obtain i where i: "mem_GetIntent ''p1'' (svStore (fst two_captures)) = Some i"
    using two_captures_intent by blast
  with concurrent_well_formed [of demo_decode small_request demo_service _ "fst two_captures" "snd two_captures",
      simplified, OF two_captures_conc booted_demo(1) i(1)]
  show ?thesis by auto
qed

text \<open>Two settlement webhooks with different event ids race for one payment.\<close>

definition two_settlements :: "(response option, (memstore, body idem_mem) service) threads" where
  "two_settlements =
     schedule [1, 1, 1, 2, 2, 2, 1, 2, 1, 2, 1, 2, 1, 2]
       (arrive (demo_env ''p3'' 200) demo_decode
           (PostWebhook ''pix'' (Some ''ev2'') (hex_EncodeToString ''sev2''))
         (arrive (demo_env ''p2'' 100) demo_decode
             (PostWebhook ''pix'' (Some ''ev1'') (hex_EncodeToString ''sev1''))
           (schedule [0, 0, 0, 0, 0, 0, 0, 0]
             (arrive (demo_env ''p1'' 0) demo_decode
               (PostIntents ''k1'' (Some (demo_req RailPIX 100))) (demo_service, [])))))"

lemma two_settlements_conc:
  "conc demo_decode small_request demo_service {''p1'', ''p2'', ''p3''} two_settlements"
  unfolding two_settlements_def
  by (intro conc_schedule conc_arrive' conc_init) (auto simp: demo_req_def conc_init)

lemma two_settlements_rows:
  "map seID (mem_SettlementsFor ''p1'' (svStore (fst two_settlements))) = [''p2-row'']"
  by code_simp

text \<open>
  C7. Settled at most once: whatever webhooks race, with the same or with different event ids,
  no intent ever has more than one settlement row.
\<close>

theorem settled_once:
  assumes "conc decode ok svc0 U (svc, ts)" and "booted svc0"
  shows "length (mem_SettlementsFor k (svStore svc)) \<le> 1"
proof -
  have "conc_once MemStore {} svc0 {#}"
    using booted_conc_ledger [OF assms(2)] assms(2)
    by (simp add: conc_once_def once_def booted_def NewMemStore_def)
  from mem_svc.conce.conc_pool_inv [OF assms(1) this] obtain D where D: "conc_once MemStore U svc D"
    by (auto simp: pool_inv_def)
  with mem_svc.conc_once_length [OF D, of k] show ?thesis by simp
qed

theorem settled_once_witness:
  "map seID (mem_SettlementsFor ''p1'' (svStore (fst two_settlements))) = [''p2-row''] \<and>
   length (mem_SettlementsFor ''p1'' (svStore (fst two_settlements))) \<le> 1"
  using settled_once [of demo_decode small_request demo_service _ "fst two_settlements"
      "snd two_settlements", simplified, OF two_settlements_conc booted_demo(1)] two_settlements_rows
  by simp


section \<open>Requests finish\<close>

lemma conc_bounded: "conc decode ok svc0 U c \<Longrightarrow> list_all (at_most 10) (snd c)"
proof (induction rule: conc.induct)
  case (conc_tick U c c')
  from conc_tick.hyps(2) show ?case
  proof (cases rule: tick.cases)
    case (tick k ts f s p s')
    have "at_most 10 (ts ! k)" using conc_tick.IH tick(1,3) by (simp add: list_all_length)
    then have "at_most 10 (Step f)" using tick(4) by simp
    then have "at_most 10 p" using tick(5) at_most_mono [of 9 p 10]
      by (auto simp: at_most_Step_iff eval_nat_numeral)
    with conc_tick.IH tick show ?thesis by (auto simp: list_all_length nth_list_update)
  qed
qed (simp_all add: serve_proc_bounded)

lemma conc_ticks_bounded:
  assumes "conc decode ok svc0 U (svc, ts)" and "(tick ^^ n) (svc, ts) c"
  shows "n \<le> 10 * length ts"
proof -
  have "list_all2 at_most (replicate (length ts) 10) ts"
    using conc_bounded [OF assms(1)] by (simp add: list_all2_conv_all_nth list_all_length)
  with ticks_bounded [of n svc ts "fst c" "snd c"] assms(2) show ?thesis
    by (fastforce simp: sum_list_replicate)
qed



text \<open>In particular the server can always come to rest.\<close>

lemma requests_drain:
  assumes "conc decode ok svc0 U c" shows "\<exists>c'. tick\<^sup>*\<^sup>* c c' \<and> quiescent c'"
proof (rule ccontr)
  assume no: "\<not> ?thesis"
  have "\<exists>c'. (tick ^^ n) c c'" for n
  proof (induction n)
    case (Suc n)
    then obtain c' where c': "(tick ^^ n) c c'" by blast
    then have "\<not> quiescent c'" using no relpowp_imp_rtranclp by metis
    with tick_progress [of c'] obtain c'' where "tick c' c''" by blast
    with c' show ?case by (metis relpowp_Suc_I)
  qed simp
  then obtain c' where "(tick ^^ Suc (10 * length (snd c))) c c'" by blast
  then show False
    using conc_ticks_bounded [of decode ok svc0 U "fst c" "snd c" "Suc (10 * length (snd c))" c'] assms
    by (simp del: relpowp.simps)
qed

section \<open>What interleaving can break\<close>

text \<open>
  The creation of a payment has stored it and not yet emitted its audit event when a capture of
  it arrives and runs to its end.
\<close>

definition audit_race :: "(response option, (memstore, body idem_mem) service) threads" where
  "audit_race =
     schedule [0, 0, 0]
       (schedule [1, 1, 1, 1]
         (arrive (demo_env ''p2'' 100) demo_decode (PostCapture ''p1'' ''k2'' NoBody)
           (schedule [0, 0, 0]
             (arrive (demo_env ''p1'' 0) demo_decode
               (PostIntents ''k1'' (Some (demo_req RailCard 100))) (demo_service, [])))))"

text \<open>Two creations with one idempotency key, on the in-memory cache.\<close>

definition cache_race :: "(response option, (memstore, body idem_mem) service) threads" where
  "cache_race =
     schedule [0, 1, 0, 1, 0, 1, 0, 1, 0, 1, 0, 1]
       (arrive (demo_env ''p2'' 100) demo_decode (PostIntents ''k1'' (Some (demo_req RailCard 100)))
         (arrive (demo_env ''p1'' 0) demo_decode (PostIntents ''k1'' (Some (demo_req RailCard 100)))
           (demo_service, [])))"

text \<open>Two webhooks, with different event ids, that open the same dispute.\<close>

definition dispute_decode :: "bytes \<Rightarrow> webhookBody" where
  "dispute_decode b = (demo_decode b)\<lparr>wbType := ''chargeback'', wbCaseRef := ''case1''\<rparr>"

definition chargeback_race :: "(response option, (memstore, body idem_mem) service) threads" where
  "chargeback_race =
     schedule [1, 1, 1, 2, 2, 2, 1, 2, 1, 2, 1, 2, 1, 2, 1, 2]
       (arrive (demo_env ''p3'' 200) dispute_decode
           (PostWebhook ''pix'' (Some ''ev2'') (hex_EncodeToString ''sev2''))
         (arrive (demo_env ''p2'' 100) dispute_decode
             (PostWebhook ''pix'' (Some ''ev1'') (hex_EncodeToString ''sev1''))
           (schedule [0, 0, 0, 0, 0, 0, 0, 0]
             (arrive (demo_env ''p1'' 0) dispute_decode
               (PostIntents ''k1'' (Some (demo_req RailPIX 100))) (demo_service, [])))))"

lemma audit_race_conc: "conc demo_decode (\<lambda>_. True) demo_service {''p1'', ''p2''} audit_race"
  unfolding audit_race_def by (intro conc_schedule conc_arrive' conc_init) (auto simp: conc_init)

lemma cache_race_conc: "conc demo_decode (\<lambda>_. True) demo_service {''p1'', ''p2''} cache_race"
  unfolding cache_race_def by (intro conc_schedule conc_arrive' conc_init) (auto simp: conc_init)

lemma chargeback_race_conc:
  "conc dispute_decode (\<lambda>_. True) demo_service {''p1'', ''p2'', ''p3''} chargeback_race"
  unfolding chargeback_race_def by (intro conc_schedule conc_arrive' conc_init) (auto simp: conc_init)

text \<open>
  C34. The audit log can be out of order: the server can reach a state, with every request
  answered, in which the log of a captured payment records its capture before its
  authorization, so that it is no chain of moves to the status of the payment.
\<close>

theorem concurrent_audit_out_of_order:
  "\<exists>U c es i. conc demo_decode (\<lambda>_. True) demo_service U c \<and> quiescent c \<and>
     mem_GetIntent ''p1'' (svStore (fst c)) = Some i \<and> svAudit (fst c) = Some (Recorder es) \<and>
     map edge (entries ''p1'' es) =
       [(StatusAuthorized, StatusCaptured), (StatusIntent, StatusAuthorized)] \<and>
     \<not> chain StatusIntent (map edge (entries ''p1'' es)) (iStatus i)"
proof -
  have "quiescent audit_race" by code_simp
  moreover have "mem_GetIntent ''p1'' (svStore (fst audit_race)) \<noteq> None" by code_simp
  moreover have "(case svAudit (fst audit_race) of
      Some (Recorder es) \<Rightarrow> map edge (entries ''p1'' es) | _ \<Rightarrow> []) =
      [(StatusAuthorized, StatusCaptured), (StatusIntent, StatusAuthorized)]" by code_simp
  ultimately show ?thesis
    by (intro exI [of _ "{''p1'', ''p2''}"] exI [of _ audit_race])
       (auto simp: audit_race_conc split: option.splits sink.splits)
qed

text \<open>
  C35. The in-memory idempotency cache does not serialise: two concurrent creations with one
  idempotency key can both be answered 201 and store two payments. (The cache is looked up
  before and filled after the handler; only the idempotency store claims the key.)
\<close>

theorem cache_races_create_twice:
  "\<exists>U c i j. conc demo_decode (\<lambda>_. True) demo_service U c \<and> svIdemI demo_service = None \<and>
     map (map_option (map_option rsStatus) \<circ> returned) (snd c) = [Some (Some 201), Some (Some 201)] \<and>
     mem_GetIntent ''p1'' (svStore (fst c)) = Some i \<and> mem_GetIntent ''p2'' (svStore (fst c)) = Some j \<and>
     iIdempotencyKey i = ''k1'' \<and> iIdempotencyKey j = ''k1''"
proof -
  have "map (map_option (map_option rsStatus) \<circ> returned) (snd cache_race) =
      [Some (Some 201), Some (Some 201)]" by code_simp
  moreover have "map (\<lambda>k. map_option iIdempotencyKey (mem_GetIntent k (svStore (fst cache_race))))
      [''p1'', ''p2''] = [Some ''k1'', Some ''k1'']" by code_simp
  moreover have "svIdemI demo_service = None" by (simp add: demo_service_def NewService_def)
  ultimately show ?thesis
    by (intro exI [of _ "{''p1'', ''p2''}"] exI [of _ cache_race]) (auto simp: cache_race_conc)
qed

text \<open>
  C36. A dispute can be recorded twice: two concurrent webhooks with different event ids that
  open the same case both find no row of it and both add one, which the endpoint does not do one
  after the other.
\<close>

theorem chargeback_races_record_twice:
  "\<exists>U c. conc dispute_decode (\<lambda>_. True) demo_service U c \<and> quiescent c \<and>
     map cbCaseRef (mem_ChargebacksFor ''p1'' (svStore (fst c))) = [''case1'', ''case1'']"
proof -
  have "quiescent chargeback_race" by code_simp
  moreover have "map cbCaseRef (mem_ChargebacksFor ''p1'' (svStore (fst chargeback_race))) =
      [''case1'', ''case1'']" by code_simp
  ultimately show ?thesis
    by (intro exI [of _ "{''p1'', ''p2'', ''p3''}"] exI [of _ chargeback_race])
       (simp add: chargeback_race_conc)
qed

end
