(* ===== verification/ConcPostgres.thy ===== *)
theory ConcPostgres
  imports ConcProps PostgresProps
begin

text \<open>
  The concurrent server on Postgres. \<open>UpdateIntent\<close> reads its row with \<open>FOR UPDATE\<close>, so that the
  callbacks on one intent run one after the other; every other call of the store is one statement
  or one transaction. Any of them may fail.
\<close>

definition pg_two_captures :: "faults \<Rightarrow> (response option, (refdb, body idem_mem) service) threads" where
  "pg_two_captures fl =
     schedule [1, 2, 2, 1, 1, 2, 2, 1, 1, 2]
       (arrive (demo_env ''p3'' 200) demo_decode (PostCapture ''p1'' ''k3'' (JSONBody (Some 40)))
         (arrive (demo_env ''p2'' 100) demo_decode (PostCapture ''p1'' ''k2'' (JSONBody (Some 60)))
           (schedule [0, 0, 0, 0, 0, 0]
             (arrive (demo_env ''p1'' 0) demo_decode
               (PostIntents ''k1'' (Some (demo_req RailCard 100))) (pg_service fl, [])))))"

lemma pg_two_captures_conc:
  "conc demo_decode small_request (pg_service fl) {''p1'', ''p2'', ''p3''} (pg_two_captures fl)"
  unfolding pg_two_captures_def
  by (intro conc_schedule conc_arrive' conc_init) (auto simp: demo_req_def conc_init)



end
