(* ===== verification/Spec2Isabelle.thy ===== *)
theory Spec2Isabelle
  imports ComponentProps MetricsProps PaymentProps WebhookProps PostgresProps Redis Worker Routing ConcPostgres
begin

text \<open>
  A verification development of \<open>orchestrator-fiat\<close>, the service that runs fiat payments over
  card, ACH, SEPA, PIX and UPI rails.

  \<^bold>\<open>The program.\<close> The process (\<open>cmd/orchestrator-fiat/main.go\<close>) reads its configuration
  (\<open>internal/config\<close>), opens its stores and clients and serves HTTP. A request passes the
  bearer-token middleware (\<open>internal/authtoken\<close>) and the router. A payment intent
  (\<open>internal/domain\<close>) is created through the HTTP API (\<open>internal/api/handlers.go\<close>), checked by the
  fraud service (\<open>internal/fraud\<close>), optionally challenged by 3DS (\<open>internal/mpi\<close>), authorized,
  captured, voided or refunded through a rail adapter (\<open>internal/rail\<close>), and settled or disputed by
  webhooks of the rails. Every mutating endpoint runs under an idempotency key
  (\<open>internal/idempotency\<close> or the service's own cache); a store (\<open>internal/store\<close>, in memory or on
  Postgres) keeps intents, rows of captures, refunds, settlements and chargebacks, and the
  webhooks seen; every transition is written to an audit sink (\<open>internal/audit\<close>) and counted
  (\<open>internal/metrics\<close>). A worker (\<open>internal/webhook\<close>) can drain recorded webhooks.

  \<^bold>\<open>The theories\<close>, each with its components in the order of the code:
  \<^item> \<open>Prelude\<close>: int64 as a 64-bit word, Go errors with \<open>errors.Is\<close>, time and duration with the
    saturation and wrap-around of package time, the used parts of strings, hex and strconv, and
    lemmas on them.
  \<^item> \<open>Domain\<close>: statuses, rails, events, intents and the linked records; \<open>Transition\<close>; its step
    relation \<open>moves\<close>.
  \<^item> \<open>Store\<close>: the interface \<open>store.Store\<close> as a record of operations, \<open>MemStore\<close>, and the
    locales of what a client relies on: \<open>intent_store\<close> (calls may fail), \<open>payment_store\<close> and
    \<open>row_store\<close> (they do not), with \<open>MemStore\<close> as an instance.
  \<^item> \<open>Migrations\<close>: \<open>All\<close>, \<open>Up\<close>, \<open>Down\<close> over any version table (the locale \<open>version_table\<close>).
    \<open>Postgres\<close>: the SQL store over a pool any call of which may fail; the locale \<open>postgres\<close> says
    what the statements do to the tables, and makes the store an \<open>intent_store\<close>. \<open>PostgresRef\<close>: a
    reference server with faults, as instance of the locales. \<open>PostgresRefine\<close>: the refinement of
    \<open>MemStore\<close>. \<open>PostgresProps\<close>: the endpoints on Postgres.
  \<^item> \<open>Rail\<close>: the adapter interface, the dummy and HTTP adapters, the registry; the locale
    \<open>rail_adapter\<close> is interpreted on both adapters. \<open>Clients\<close>: the MPI and fraud clients.
    The remote services and JSON decoders are parameters.
  \<^item> \<open>Float64\<close>: float64 arithmetic as exact arithmetic followed by rounding to 53 bits.
    \<open>Observe\<close>: audit sinks and metrics. \<open>MetricsProps\<close>: the percentile and its text.
    \<open>Logging\<close>: the structured logger. \<open>Idempotency\<close>: the
    in-memory and Redis stores. \<open>Redis\<close>: the calls of several replicas interleaved on one store
    (the locale \<open>idem_shared\<close>, for the in-memory store and, over what Redis documents, for the
    Redis store).
  \<^item> \<open>Service\<close>: the \<open>Service\<close> struct as a record, the idempotency cache, \<open>replayOrContinue\<close>,
    \<open>emitTransition\<close>, signatures. \<open>Payments\<close> and \<open>Webhooks\<close>: one definition per endpoint, with
    its closure (\<open>...Handle\<close>) and its store callback (\<open>...Fn\<close>).
  \<^item> \<open>Invariants\<close>: what a callback may do (\<open>cb_audited\<close>, \<open>cb_balanced\<close>, \<open>cb_in_order\<close>) and the
    locales \<open>service_store\<close> and \<open>ledger_store\<close> that lift it through the store. \<open>System\<close>: the
    routed requests, the reachable states \<open>reach\<close>, and the locale \<open>service_inv\<close> that lifts an
    invariant of callbacks to every reachable state; \<open>good\<close> and \<open>orderly\<close> are its two instances.
  \<^item> \<open>Threads\<close>: requests as threads (resumptions whose steps act on the shared state under a
    lock), pools of them with the step relation \<open>tick\<close>, and the rule that proves an invariant of
    a pool from the steps of one thread, with ghosts for what a thread still owes.
    \<open>Concurrent\<close>: every handler as a thread (\<open>..._proc\<close>), cut at each call of the store, the
    idempotency store, the audit sink and the metrics; the reachable states \<open>conc\<close> of the server
    with any number of requests in flight; run alone a thread is its handler. \<open>ConcInv\<close>: the locale
    \<open>conc_inv\<close> and the bound of ten steps on every request. \<open>ConcLedger\<close>, \<open>ConcTypes\<close>,
    \<open>ConcOnce\<close>: its instances, the ledger with rows in flight, the bounds on amounts, the
    well-formedness of intents, and that an intent is settled once. \<open>ConcProps\<close>,
    \<open>ConcPostgres\<close>: the concurrent properties on the in-memory store and on Postgres.
  \<^item> \<open>Worker\<close>: the webhook worker as a step relation of interleaving goroutines.
  \<^item> \<open>Authtoken\<close>: tokens, base64 and the middleware. \<open>Config\<close>: configuration with
    \<open>time.ParseDuration\<close>, mutual TLS, \<open>ApplyConfig\<close>. \<open>Wiring\<close>: the constructors of \<open>main.go\<close>, with
    the dynamic dispatch of the two interface values. \<open>Routing\<close>: \<open>NewMux\<close>, the pattern matching of
    \<open>http.ServeMux\<close>, the request log, \<open>run\<close> and \<open>main\<close>. \<open>Otel\<close>: the set-up of tracing and its
    shutdown, over the OpenTelemetry library as a parameter.
  \<^item> \<open>Scenario\<close>: a concrete run for the instances of the theorems. \<open>ComponentProps\<close>,
    \<open>PaymentProps\<close>, \<open>WebhookProps\<close> and this theory: the properties.

  \<^bold>\<open>Modelling choices.\<close> State is passed explicitly. A clock reading, a fresh UUID and the order in
  which Go ranges over a map are read from the environment \<open>env\<close> of a request, by position; nothing
  is assumed of them except, in the reachable states, that the UUID of a new intent is fresh. The
  callback of \<open>UpdateIntent\<close> mutates the stored intent, so it returns the mutated intent beside its
  error. A call on a nil adapter is a panic, which ends the request without a response; a call of
  \<open>log.Fatal\<close> is the value \<open>Fatal\<close>. JSON bodies are represented by the values they carry. SQL
  statements are values of a datatype whose effect on the tables is \<open>run_stmt\<close>. Third-party code
  (pgx, the Redis client, Kafka, JSON codecs, HMAC, OpenTelemetry) is a parameter. All loops are
  structural or have a termination proof; there is no fuel. The sequential service (\<open>serve\<close>,
  \<open>reach\<close>) handles a request in one go; the concurrent one (\<open>serve_proc\<close>, \<open>conc\<close>) interleaves
  requests between any two of their calls of shared state. One step is one call: \<open>UpdateIntent\<close>
  runs its callback under the lock of the store or of the row, so callbacks are atomic. A response
  body is the value at the step that produced it.

  \<^bold>\<open>What is shown.\<close> In every reachable state the totals of an intent are the sums of its rows, its
  audit log is a legal walk of the state machine to its status, amounts are in order (for requests
  below \<open>2^62\<close>), and nothing is captured without an authorization. Under every interleaving of
  requests the ledger balances once they are answered, amounts are in order at every moment (on
  Postgres too, whichever of its calls fail), intents are well-formed, an intent is settled at
  most once, and every request ends after at most ten steps. The Postgres store refines the
  in-memory store and updates atomically. Requests are idempotent, also across replicas on Redis; webhooks are
  authentic and applied once; every change in production carries a valid token; production starts
  only fully wired. The worker loses nothing and drains. Each endpoint has its functional behaviour
  on success and error; the metrics text is exact to the microsecond. Several theorems record
  behaviour that departs from the documentation: refunds and disputes of settled intents,
  duplicates on Postgres, nil adapters, the webhook secrets, a blank \<open>REDIS_URL\<close>, \<open>Stop\<close> and
  \<open>Idle\<close> of the worker, and what concurrent requests can do: an audit log out of order, two
  payments under one idempotency key of the in-memory cache, a dispute recorded twice.

  \<^bold>\<open>Not modelled.\<close> Closing and pinging of the Postgres pool, which only call it; the log lines of
  handlers and start-up; the helpers for tests at the end of \<open>handlers.go\<close>; data races on an
  intent that \<open>MemStore.CreateIntent\<close> stores without a copy (an intent is a value here).
\<close>

text \<open>The retried request of the instances below: a full capture of the scenario's payment.\<close>

definition demo_retry :: "env \<Rightarrow> (memstore, body idem_mem) service \<Rightarrow> response option \<times> (memstore, body idem_mem) service" where
  "demo_retry e svc = replayOrContinue e ''capture:p1'' ''k2'' (captureHandle e (Some 100) ''p1'') svc"

section \<open>Properties of every reachable state\<close>

text \<open>
  In every state the service can reach from a fresh in-memory store, whatever requests and
  webhooks arrive and however the rail, MPI and fraud services answer, the captured, refunded and
  settled totals of a stored intent are exactly the sums (as int64) of the capture, refund and
  settlement rows recorded for it.
\<close>

lemma reachable_ledger:
  assumes "reach decode ok svc0 svc" and "booted svc0" and "mem_GetIntent k (svStore svc) = Some i"
  shows "iCapturedAmount i = (\<Sum>c \<leftarrow> mem_CapturesFor k (svStore svc). caAmount c) \<and>
    iRefundedAmount i = (\<Sum>r \<leftarrow> mem_RefundsFor k (svStore svc). reAmount r) \<and>
    iSettledAmount i = (\<Sum>s \<leftarrow> mem_SettlementsFor k (svStore svc). seSettledAmount s)"
proof -
  have "good MemStore (core svc)"
    using mem_svc.good.reach_preserves [OF assms(1) booted_good [OF assms(2)]] by simp
  with assms(3) show ?thesis
    by (simp add: good_def ledger_ok_def totals_ok_def mem_GetIntent_def mem_CapturesFor_def
        mem_RefundsFor_def mem_SettlementsFor_def)
qed

lemma reachable_ledger_example:
  "\<exists>i. mem_GetIntent ''p1'' (svStore demo_settled) = Some i \<and> iCapturedAmount i = 100 \<and>
     100 = (\<Sum>c \<leftarrow> mem_CapturesFor ''p1'' (svStore demo_settled). caAmount c) \<and>
     100 = (\<Sum>s \<leftarrow> mem_SettlementsFor ''p1'' (svStore demo_settled). seSettledAmount s)"
proof -
  obtain i where i: "mem_GetIntent ''p1'' (svStore demo_settled) = Some i"
    "iCapturedAmount i = 100" "iSettledAmount i = 100"
    using demo_settled_intent by (auto simp: mem_GetIntent_def)
  with reachable_ledger [OF reach_demo_settled booted_demo(1) i(1)] show ?thesis by simp
qed



text \<open>
  As long as requests carry amounts below \<open>2^62\<close> and instant rails submit for the whole
  amount, in every reachable state refunds never exceed captures and captures never exceed the
  authorized amount, and none of the sums has wrapped around.
\<close>

lemma reachable_amounts_in_order:
  assumes "reach decode small_request svc0 svc" and "booted svc0" and "rails_full (svRails svc0)"
    and "mem_GetIntent k (svStore svc) = Some i"
  shows "0 \<le> sint (iRefundedAmount i) \<and> sint (iRefundedAmount i) \<le> sint (iCapturedAmount i) \<and>
    sint (iCapturedAmount i) \<le> sint (iAmount i) \<and> 0 < sint (iAmount i)"
proof -
  have "orderly MemStore (intents_of (MemStore :: (memstore, fx) store_iface)) (core svc)"
    using mem_svc.order.reach_preserves [OF assms(1) booted_orderly [OF assms(2,3)]] by simp
  with assms(4) show ?thesis by (auto simp: orderly_def order_ok_def in_order_def mem_GetIntent_def)
qed

lemma reachable_amounts_in_order_example:
  "\<exists>i. mem_GetIntent ''p1'' (svStore demo_settled) = Some i \<and> 100 \<le> sint (iAmount i)"
proof -
  obtain i where i: "mem_GetIntent ''p1'' (svStore demo_settled) = Some i" "iCapturedAmount i = 100"
    using demo_settled_intent by (auto simp: mem_GetIntent_def)
  with reachable_amounts_in_order [OF reach_demo_settled booted_demo i(1)] show ?thesis by auto
qed

lemma chain_through_authorized:
  assumes "chain s ps s'" "\<forall>(a, b) \<in> set ps. legal a b"
    and "s \<in> {StatusIntent, Status3DSPending, StatusFailed}"
    and "s' \<notin> {StatusIntent, Status3DSPending, StatusFailed}"
  shows "\<exists>a. (a, StatusAuthorized) \<in> set ps"
  using assms
proof (induction s ps s' rule: chain.induct)
  case (2 s x y ps s')
  then show ?case
    by (cases "y \<in> {StatusIntent, Status3DSPending, StatusFailed}")
       (auto simp: legal_def moves_table)
qed auto



section \<open>Idempotent requests\<close>

text \<open>
  C11. A retry is answered from the cache: once a request with an idempotency key has been
  answered by its handler, any later request to the same endpoint with the same key, within the
  time-to-live of 24 hours and whatever ran in between, gets the same status and body, marked as a
  replay, and changes nothing; its own handler does not run.
\<close>

theorem idempotent_replay:
  assumes "svIdemI svc = None" "key \<noteq> ''''" "svIdemCache svc (idemKey ep key) = None"
    and "replayOrContinue e ep key h svc = (Some r, svc1)"
    and "svIdemI svc2 = None" "svIdemCache svc2 (idemKey ep key) = svIdemCache svc1 (idemKey ep key)"
    and "envNow e2 0 \<le> time_Add (envNow e 2) idemTTL"
  shows "replayOrContinue e2 ep key h2 svc2 = (Some (r\<lparr>rsReplay := True\<rparr>), svc2)"
proof -
  have "lookupIdem (envNow e 0) ep key svc = (None, svc)" using assms(2,3) by (simp add: lookupIdem_def)
  with assms(1,4) obtain st v svc' where "h svc = (HRet st v, svc')"
    "r = \<lparr>rsStatus = st, rsReplay = False, rsBody = v\<rparr>" "svc1 = saveIdem (envNow e 2) ep key st v svc'"
    by (auto simp: replayOrContinue_def split: prod.splits hres.splits)
  with assms(2,5-7) show ?thesis
    by (simp add: replayOrContinue_def lookupIdem_def saveIdem_def Let_def not_less)
qed

theorem idempotent_replay_witness:
  "\<exists>r. demo_retry (demo_env ''p2'' 100) demo_created = (Some r, demo_captured) \<and>
     demo_retry (demo_env ''p4'' 500) demo_captured = (Some (r\<lparr>rsReplay := True\<rparr>), demo_captured)"
proof -
  have n: "Option.is_none (svIdemI demo_created)" "Option.is_none (svIdemI demo_captured)"
    "Option.is_none (svIdemCache demo_created (idemKey ''capture:p1'' ''k2''))"
    "\<not> Option.is_none (fst (demo_retry (demo_env ''p2'' 100) demo_created))"
    by (code_simp, code_simp, code_simp, code_simp)
  have s: "snd (demo_retry (demo_env ''p2'' 100) demo_created) = demo_captured"
    by (simp add: demo_retry_def demo_captured_def Capture_def)
  obtain r where r: "demo_retry (demo_env ''p2'' 100) demo_created = (Some r, demo_captured)"
    using n(4) s by (cases "demo_retry (demo_env ''p2'' 100) demo_created") (auto simp: Option.is_none_def)
  have "demo_retry (demo_env ''p4'' 500) demo_captured = (Some (r\<lparr>rsReplay := True\<rparr>), demo_captured)"
    unfolding demo_retry_def
  proof (rule idempotent_replay [OF _ _ _ r [unfolded demo_retry_def]])
    show "envNow (demo_env ''p4'' 500) 0 \<le> time_Add (envNow (demo_env ''p2'' 100) 2) idemTTL"
      by (simp add: demo_env_def time_Add_def idemTTL_def)
  qed (use n in \<open>simp_all add: Option.is_none_def\<close>)
  with r show ?thesis by blast
qed

text \<open>
  The same with the idempotency store installed, for the in-memory implementation of the
  store and the time-to-live it was configured with.
\<close>

lemma idempotent_replay_store:
  assumes "svIdemI svc = Some IdemMem" "key \<noteq> ''''" "svIdem svc (idemKey ep key) = None"
    and "replayOrContinue e ep key h svc = (Some r, svc1)"
    and "svIdemI svc2 = Some IdemMem" "svIdem svc2 (idemKey ep key) = svIdem svc1 (idemKey ep key)"
    and "envNow e2 0 \<le> time_Add (envNow e 2) (svIdemTTL svc1)"
  shows "replayOrContinue e2 ep key h2 svc2 = (Some (r\<lparr>rsReplay := True\<rparr>), svc2)"
proof -
  let ?k = "idemKey ep key"
  obtain m st v svc' where "h (svc\<lparr>svIdem := m\<rparr>) = (HRet st v, svc')"
    "r = \<lparr>rsStatus = st, rsReplay = False, rsBody = v\<rparr>"
    "svc1 = svc'\<lparr>svIdem := snd (im_StoreResponse (envNow e 2) ?k \<lparr>enStatus = st, enBody = v\<rparr>
       (svIdemTTL svc') (svIdem svc'))\<rparr>"
    using assms(1-4)
    by (auto simp: replayOrContinue_def replayOrContinueStore_def Let_def im_LookupResponse_def
        im_Claim_def split: prod.splits hres.splits)
  with assms(2,5-7) show ?thesis
    by (simp add: replayOrContinue_def replayOrContinueStore_def Let_def im_defs not_less)
qed

lemma captureHandle_idem:
  "svIdemI (snd (captureHandle e amt iid svc)) = svIdemI svc"
  "svIdemTTL (snd (captureHandle e amt iid svc)) = svIdemTTL svc"
  by (auto simp: captureHandle_def updateIntent_def put_fx_def addCapture_def
      split: prod.split updres.split option.split)

lemma demo_retry_idem:
  "svIdemI (snd (demo_retry e svc)) = svIdemI svc" "svIdemTTL (snd (demo_retry e svc)) = svIdemTTL svc"
proof -
  have h: "captureHandle e (Some 100) ''p1'' svc1 = (r, svc2) \<Longrightarrow>
      svIdemI svc2 = svIdemI svc1 \<and> svIdemTTL svc2 = svIdemTTL svc1" for svc1 r svc2
    using captureHandle_idem [of e "Some 100" "''p1''" svc1] by auto
  show "svIdemI (snd (demo_retry e svc)) = svIdemI svc" "svIdemTTL (snd (demo_retry e svc)) = svIdemTTL svc"
    by (auto simp: demo_retry_def replayOrContinue_def replayOrContinueStore_def lookupIdem_def saveIdem_def
        Let_def dest!: h split: prod.split option.split sum.split bool.split hres.split)
qed

lemma idempotent_replay_store_witness:
  "\<exists>r svc1. demo_retry (demo_env ''p2'' 100) (WithIdempotencyStore IdemMem NewMem 0 demo_created) = (Some r, svc1) \<and>
     demo_retry (demo_env ''p4'' 500) svc1 = (Some (r\<lparr>rsReplay := True\<rparr>), svc1)"
proof -
  let ?svc = "WithIdempotencyStore IdemMem NewMem 0 demo_created"
  have I: "svIdemI ?svc = Some IdemMem" "svIdem ?svc (idemKey ''capture:p1'' ''k2'') = None"
    by (simp_all add: WithIdempotencyStore_def NewMem_def)
  have "\<not> Option.is_none (fst (demo_retry (demo_env ''p2'' 100) ?svc))" by code_simp
  then obtain r svc1 where r: "demo_retry (demo_env ''p2'' 100) ?svc = (Some r, svc1)"
    by (cases "demo_retry (demo_env ''p2'' 100) ?svc") (auto simp: Option.is_none_def)
  have "svIdemTTL ?svc = idemTTL" by code_simp
  with r I(1) demo_retry_idem [of "demo_env ''p2'' 100" ?svc]
  have I1: "svIdemI svc1 = Some IdemMem" "svIdemTTL svc1 = idemTTL" by simp_all
  have "demo_retry (demo_env ''p4'' 500) svc1 = (Some (r\<lparr>rsReplay := True\<rparr>), svc1)"
    unfolding demo_retry_def
    by (rule idempotent_replay_store [OF I(1) _ I(2) r [unfolded demo_retry_def] I1(1)])
       (simp_all add: I1 demo_env_def time_Add_def idemTTL_def)
  with r show ?thesis by blast
qed

text \<open>
  Two requests with one key never run concurrently: while the first holds the claim on the
  key, the second is answered 409 without running its handler or changing the service.
\<close>

lemma in_flight_conflict:
  assumes "im_Claim t (idemKey ep key) ttl m = (Inr True, svIdem svc)"
    and "svIdemI svc = Some IdemMem" "key \<noteq> ''''"
    and "envNow e 0 < time_Add t ttl" "envNow e 1 < time_Add t ttl"
  shows "replayOrContinue e ep key h svc =
    (Some (respondError 409 ''idempotency key in flight''), svc)"
  using idem_svc.in_flight_refused [of t ep key ttl m svc e h] assms by simp

lemma in_flight_conflict_witness:
  "demo_retry (demo_env ''p4'' 500) (demo_created\<lparr>svIdemI := Some IdemMem,
      svIdem := snd (im_Claim 0 (idemKey ''capture:p1'' ''k2'') idemTTL NewMem)\<rparr>) =
    (Some (respondError 409 ''idempotency key in flight''), demo_created\<lparr>svIdemI := Some IdemMem,
      svIdem := snd (im_Claim 0 (idemKey ''capture:p1'' ''k2'') idemTTL NewMem)\<rparr>)"
  unfolding demo_retry_def
  by (rule in_flight_conflict [where t = 0 and ttl = idemTTL and m = NewMem])
     (simp_all add: im_Claim_def NewMem_def demo_env_def time_Add_def idemTTL_def)

end
